(* ===== verification/Prelude.thy ===== *)
theory Prelude
  imports
    Main
    "HOL-Library.Multiset"
    "HOL-Library.Product_Lexorder"
    "HOL-Library.List_Lexorder"
    "HOL-Library.Char_ord"
begin

text \<open>
  Shared vocabulary of the development.  The source is TypeScript: a thrown error or an
  early return is a value of a sum type (\<open>Inl\<close> the error), a JavaScript \<open>Map\<close> built
  from an array of pairs is \<open>js_map_of\<close> (the last binding of a key wins), and
  \<open>[...new Set(xs)]\<close> is \<open>uniq\<close> (first occurrences, in insertion order).
  The generic list, sum and division facts that several components use are here, with the
  \<open>named_theorems\<close> collections that carry the component proofs.
\<close>

named_theorems row_simps
  \<open>facts about reading back rows of a table after a row update\<close>
named_theorems inv_intros
  \<open>preservation of the well-formedness invariants\<close>

type_synonym millis = int
type_synonym user_id = string

section \<open>JavaScript collections\<close>

fun uniq_onto :: "'a list \<Rightarrow> 'a list \<Rightarrow> 'a list" where
  "uniq_onto seen [] = []"
| "uniq_onto seen (x # xs) =
     (if x \<in> set seen then uniq_onto seen xs else x # uniq_onto (x # seen) xs)"

definition uniq :: "'a list \<Rightarrow> 'a list" where
  "uniq xs = uniq_onto [] xs"

lemma set_uniq_onto: "set (uniq_onto seen xs) = set xs - set seen"
  by (induction seen xs rule: uniq_onto.induct) auto

lemma distinct_uniq_onto: "distinct (uniq_onto seen xs)"
  by (induction seen xs rule: uniq_onto.induct) (auto simp: set_uniq_onto)

lemma set_uniq [simp]: "set (uniq xs) = set xs"
  by (simp add: uniq_def set_uniq_onto)

lemma distinct_uniq [simp]: "distinct (uniq xs)"
  by (simp add: uniq_def distinct_uniq_onto)

lemma uniq_Nil_iff [simp]: "uniq xs = [] \<longleftrightarrow> xs = []"
  by (metis set_empty set_uniq)

lemma length_uniq: "length (uniq xs) = card (set xs)"
  by (metis distinct_card distinct_uniq set_uniq)

lemma sum_list_uniq: "(\<Sum>x\<leftarrow>uniq xs. f x) = (\<Sum>x\<in>set xs. f x)"
  by (metis distinct_uniq set_uniq sum_list_distinct_conv_sum_set)

lemma uniq_onto_distinct:
  "distinct xs \<Longrightarrow> set xs \<inter> set seen = {} \<Longrightarrow> uniq_onto seen xs = xs"
  by (induction seen xs rule: uniq_onto.induct) auto

lemma uniq_distinct: "distinct xs \<Longrightarrow> uniq xs = xs"
  by (simp add: uniq_def uniq_onto_distinct)

definition js_map_of :: "('k \<times> 'v) list \<Rightarrow> 'k \<Rightarrow> 'v option" where
  "js_map_of kvs = map_of (rev kvs)"

lemma js_map_of_SomeD: "js_map_of kvs k = Some v \<Longrightarrow> (k, v) \<in> set kvs"
  by (auto simp: js_map_of_def dest: map_of_SomeD)

lemma js_map_of_None: "js_map_of kvs k = None \<longleftrightarrow> k \<notin> fst ` set kvs"
  by (simp add: js_map_of_def map_of_eq_None_iff)

lemma js_map_of_distinct:
  "distinct (map fst kvs) \<Longrightarrow> (k, v) \<in> set kvs \<Longrightarrow> js_map_of kvs k = Some v"
  by (simp add: js_map_of_def rev_map [symmetric])

section \<open>Rows of a table\<close>

text \<open>
  A database table is the list of its rows.  \<open>update_rows\<close> is an \<open>UPDATE\<close> of the rows
  whose key is \<open>i\<close>; \<open>find_row\<close> is \<open>findUnique\<close>.
\<close>

definition update_rows :: "('r \<Rightarrow> 'k) \<Rightarrow> 'k \<Rightarrow> ('r \<Rightarrow> 'r) \<Rightarrow> 'r list \<Rightarrow> 'r list" where
  "update_rows key i f rows = map (\<lambda>r. if key r = i then f r else r) rows"

definition find_row :: "('r \<Rightarrow> 'k) \<Rightarrow> 'k \<Rightarrow> 'r list \<Rightarrow> 'r option" where
  "find_row key i rows = find (\<lambda>r. key r = i) rows"

lemma length_update_rows [simp, row_simps]: "length (update_rows key i f rows) = length rows"
  by (simp add: update_rows_def)

lemma map_key_update_rows [row_simps]:
  "(\<And>r. g (f r) = g r) \<Longrightarrow> map g (update_rows key i f rows) = map g rows"
  by (auto simp: update_rows_def)

lemma set_update_rows [row_simps]:
  "set (update_rows key i f rows) = (\<lambda>r. if key r = i then f r else r) ` set rows"
  by (simp add: update_rows_def)

lemma find_row_SomeD: "find_row key i rows = Some r \<Longrightarrow> r \<in> set rows \<and> key r = i"
  by (auto simp: find_row_def find_Some_iff)

lemma find_row_None_iff: "find_row key i rows = None \<longleftrightarrow> i \<notin> key ` set rows"
  by (auto simp: find_row_def find_None_iff)

lemma find_row_unique:
  "distinct (map key rows) \<Longrightarrow> r \<in> set rows \<Longrightarrow> find_row key (key r) rows = Some r"
  by (induction rows) (auto simp: find_row_def)

lemma find_row_append:
  "find_row key i (xs @ ys) =
     (case find_row key i xs of None \<Rightarrow> find_row key i ys | Some r \<Rightarrow> Some r)"
  by (induction xs) (auto simp: find_row_def)

lemma find_row_update_same [row_simps]:
  "(\<And>r. key (f r) = key r) \<Longrightarrow>
   find_row key i (update_rows key i f rows) = map_option f (find_row key i rows)"
  by (induction rows) (auto simp: find_row_def update_rows_def)

lemma find_row_update_other [row_simps]:
  "(\<And>r. key (f r) = key r) \<Longrightarrow> i \<noteq> j \<Longrightarrow>
   find_row key j (update_rows key i f rows) = find_row key j rows"
  by (induction rows) (auto simp: find_row_def update_rows_def)

lemma update_rows_absent: "i \<notin> key ` set rows \<Longrightarrow> update_rows key i f rows = rows"
  by (auto simp: update_rows_def intro!: map_idI)

text \<open>A single-row update moves a sum over the table by that row's change.\<close>

lemma sum_list_update_rows:
  fixes g :: "'r \<Rightarrow> int"
  assumes "distinct (map key rows)" and "r \<in> set rows" and "key r = i"
  shows "(\<Sum>x\<leftarrow>update_rows key i f rows. g x) = (\<Sum>x\<leftarrow>rows. g x) + (g (f r) - g r)"
  using assms
proof (induction rows)
  case Nil
  then show ?case by simp
next
  case (Cons y ys)
  show ?case
  proof (cases "key y = i")
    case True
    with Cons.prems have "y = r" by (auto simp: image_iff)
    moreover from True Cons.prems(1) have "update_rows key i f ys = ys"
      by (intro update_rows_absent) auto
    ultimately show ?thesis using True by (simp add: update_rows_def)
  next
    case False
    with Cons show ?thesis by (auto simp: update_rows_def)
  qed
qed

section \<open>Sums and integer division\<close>

lemma sum_list_nonneg_int: "(\<And>x. x \<in> set xs \<Longrightarrow> (0::int) \<le> f x) \<Longrightarrow> 0 \<le> (\<Sum>x\<leftarrow>xs. f x)"
  by (rule sum_list_nonneg) auto

lemma member_le_sum_list_int:
  "(\<And>y. y \<in> set xs \<Longrightarrow> (0::int) \<le> f y) \<Longrightarrow> x \<in> set xs \<Longrightarrow> f x \<le> (\<Sum>y\<leftarrow>xs. f y)"
proof (induction xs)
  case (Cons y ys)
  then have "0 \<le> (\<Sum>z\<leftarrow>ys. f z)" by (intro sum_list_nonneg_int) auto
  with Cons show ?case by (fastforce)
qed simp

lemma sum_list_mset_cong:
  fixes f :: "'a \<Rightarrow> int"
  shows "mset xs = mset ys \<Longrightarrow> (\<Sum>x\<leftarrow>xs. f x) = (\<Sum>x\<leftarrow>ys. f x)"
  by (metis mset_map sum_mset_sum_list)

lemma sum_list_filter_if:
  fixes f :: "'a \<Rightarrow> int"
  shows "(\<Sum>x\<leftarrow>filter P xs. f x) = (\<Sum>x\<leftarrow>xs. if P x then f x else 0)"
  by (induction xs) auto

lemma int_div_less_iff: "0 < (b::int) \<Longrightarrow> a div b < q \<longleftrightarrow> a < q * b"
proof
  assume b: "0 < b"
  show "a < q * b" if "a div b < q"
  proof -
    have "a < a div b * b + b"
      using pos_mod_bound [OF b, of a] div_mult_mod_eq [of a b] by linarith
    also have "\<dots> = (a div b + 1) * b" by (simp add: algebra_simps)
    also have "\<dots> \<le> q * b" using that b by (intro mult_right_mono) auto
    finally show ?thesis .
  qed
  show "a div b < q" if "a < q * b"
  proof -
    have "a div b * b \<le> a" using b by (simp add: minus_mod_eq_div_mult [symmetric])
    with that have "a div b * b < q * b" by simp
    with b show ?thesis by (simp add: mult_less_cancel_right)
  qed
qed

lemma int_le_div_iff: "0 < (b::int) \<Longrightarrow> q \<le> a div b \<longleftrightarrow> q * b \<le> a"
  using int_div_less_iff [of b a q] by (simp add: not_less [symmetric])

text \<open>Floors of proportional shares: the sum loses less than one per share.\<close>

lemma sum_floor_shares_bounds:
  fixes c o' :: int and a :: "'a \<Rightarrow> int"
  assumes "0 < o'"
  shows "(\<Sum>x\<leftarrow>xs. (a x * c) div o') * o' \<le> (\<Sum>x\<leftarrow>xs. a x) * c"
    and "xs \<noteq> [] \<Longrightarrow>
      (\<Sum>x\<leftarrow>xs. a x) * c < ((\<Sum>x\<leftarrow>xs. (a x * c) div o') + int (length xs)) * o'"
proof -
  have lo: "(a x * c) div o' * o' \<le> a x * c" for x
    using assms by (simp add: div_mult_mod_eq [symmetric] minus_mod_eq_div_mult [symmetric])
  have hi: "a x * c < ((a x * c) div o' + 1) * o'" for x
  proof -
    have "a x * c = (a x * c) div o' * o' + (a x * c) mod o'" by simp
    moreover have "(a x * c) mod o' < o'" using assms by simp
    ultimately show ?thesis by (simp only: distrib_right mult_1_left)
  qed
  show "(\<Sum>x\<leftarrow>xs. (a x * c) div o') * o' \<le> (\<Sum>x\<leftarrow>xs. a x) * c"
  proof (induction xs)
    case (Cons x xs)
    then show ?case using lo [of x] by (simp add: algebra_simps)
  qed simp
  show "xs \<noteq> [] \<Longrightarrow>
      (\<Sum>x\<leftarrow>xs. a x) * c < ((\<Sum>x\<leftarrow>xs. (a x * c) div o') + int (length xs)) * o'"
  proof (induction xs)
    case (Cons x xs)
    show ?case
    proof (cases "xs = []")
      case True
      then show ?thesis using hi [of x] by simp
    next
      case False
      with Cons.IH hi [of x] show ?thesis by (simp add: algebra_simps)
    qed
  qed simp
qed

section \<open>Sums of a type: results\<close>

definition is_ok :: "'e + 'a \<Rightarrow> bool" where
  "is_ok r = (case r of Inl _ \<Rightarrow> False | Inr _ \<Rightarrow> True)"

lemma is_ok_simps [simp]: "is_ok (Inr x)" "\<not> is_ok (Inl e)"
  by (simp_all add: is_ok_def)

end
