(* ===== verification/Domain.thy ===== *)
theory Domain
  imports Prelude
begin

text \<open>
  The shared enumerations of \<^verbatim>\<open>packages/types/src/domain.ts\<close>, with the constructors the
  source uses.  Where two enumerations share a member name, the constructor of the less central
  one carries a prefix: \<open>M_\<close> for module states, \<open>V_\<close> for verification outcomes, \<open>U_\<close> for
  execution-unit statuses, \<open>C_\<close> for control levels,
  \<open>X_\<close> for the execution classes of a grant, \<open>SC_\<close> for safety scopes, \<open>K_\<close> for stop states, \<open>A_\<close>
  for audit events.  The order \<^verbatim>\<open>SEVERITY_ORDER\<close> is an instance
  of \<open>linorder\<close>, so that the library's \<open>Min\<close> and \<open>sort\<close> speak of it.
\<close>

section \<open>Audit shape\<close>

datatype module_type = PERFORMANCE | SECURITY | UI | TESTING | SEO

definition module_types :: "module_type list" where
  "module_types = [PERFORMANCE, SECURITY, UI, TESTING, SEO]"

datatype input_type = URL | REPOSITORY | ARCHIVE

datatype control_level = C_NONE | C_ATTESTED | C_VERIFIED

definition control_levels :: "control_level list" where
  "control_levels = [C_NONE, C_ATTESTED, C_VERIFIED]"

text \<open>\<^verbatim>\<open>controlLevelRank\<close>: the index in \<^verbatim>\<open>CONTROL_LEVELS\<close>.\<close>

fun index_of :: "'a \<Rightarrow> 'a list \<Rightarrow> int" where
  "index_of x [] = -1"
| "index_of x (y # ys) =
     (if x = y then 0 else let i = index_of x ys in if i = -1 then -1 else i + 1)"

definition control_level_rank :: "control_level \<Rightarrow> int" where
  "control_level_rank l = index_of l control_levels"

lemma set_module_types [simp]: "set module_types = UNIV"
  by (auto simp: module_types_def intro: module_type.exhaust)

lemma distinct_module_types [simp]: "distinct module_types"
  by (simp add: module_types_def)

lemma UNIV_module_type: "UNIV = {PERFORMANCE, SECURITY, UI, TESTING, SEO}"
  by (auto intro: module_type.exhaust)

instantiation module_type :: finite
begin

instance
  by standard (simp add: UNIV_module_type)

end

lemma control_level_rank_simps [simp]:
  "control_level_rank C_NONE = 0"
  "control_level_rank C_ATTESTED = 1"
  "control_level_rank C_VERIFIED = 2"
  by (simp_all add: control_level_rank_def control_levels_def Let_def)

section \<open>Scan lifecycle\<close>

datatype scan_state =
    QUEUED
  | RUNNING_PHASE_1
  | AWAITING_QUESTIONNAIRE
  | RUNNING_PHASE_2
  | RUNNING_PHASE_3
  | RUNNING_MASTER
  | RUNNING_DOCS
  | COMPLETED
  | FAILED
  | CANCELLED
  | TIMED_OUT

definition scan_states_terminal :: "scan_state list" where
  "scan_states_terminal = [COMPLETED, FAILED, CANCELLED, TIMED_OUT]"

datatype module_state =
  M_PENDING | M_RUNNING | M_COMPLETE | M_DEGRADED | M_FAILED | M_NOT_APPLICABLE

definition module_states_scored :: "module_state list" where
  "module_states_scored = [M_COMPLETE, M_DEGRADED]"

definition is_scored_state :: "module_state \<Rightarrow> bool" where
  "is_scored_state s = (s \<in> set module_states_scored)"

lemma is_scored_state_iff: "is_scored_state s \<longleftrightarrow> s = M_COMPLETE \<or> s = M_DEGRADED"
  by (simp add: is_scored_state_def module_states_scored_def)

section \<open>Findings\<close>

datatype severity = CRITICAL | HIGH | MEDIUM | LOW | INFO

fun severity_order :: "severity \<Rightarrow> nat" where
  "severity_order CRITICAL = 0"
| "severity_order HIGH = 1"
| "severity_order MEDIUM = 2"
| "severity_order LOW = 3"
| "severity_order INFO = 4"

lemma severity_order_inj [simp]: "severity_order s = severity_order t \<longleftrightarrow> s = t"
  by (cases s; cases t) simp_all

instantiation severity :: linorder
begin

definition less_eq_severity :: "severity \<Rightarrow> severity \<Rightarrow> bool" where
  "less_eq_severity s t = (severity_order s \<le> severity_order t)"

definition less_severity :: "severity \<Rightarrow> severity \<Rightarrow> bool" where
  "less_severity s t = (severity_order s < severity_order t)"

instance
  by standard (auto simp: less_eq_severity_def less_severity_def)

end

definition severities_blocking :: "severity list" where
  "severities_blocking = [CRITICAL, HIGH]"

definition is_blocking_severity :: "severity \<Rightarrow> bool" where
  "is_blocking_severity s = (s \<in> set severities_blocking)"

lemma is_blocking_severity_iff: "is_blocking_severity s \<longleftrightarrow> s \<le> HIGH"
  by (cases s) (simp_all add: is_blocking_severity_def severities_blocking_def less_eq_severity_def)

datatype issue_state = OPEN | ASSERTED_FIXED | RESOLVED | UNVERIFIABLE | REOPENED

datatype verification_outcome = V_PASSED | V_FAILED | V_UNVERIFIABLE | V_ERRORED

fun issue_state_transitions :: "issue_state \<Rightarrow> issue_state list" where
  "issue_state_transitions OPEN = [ASSERTED_FIXED]"
| "issue_state_transitions ASSERTED_FIXED = [RESOLVED, OPEN, UNVERIFIABLE]"
| "issue_state_transitions RESOLVED = [REOPENED]"
| "issue_state_transitions UNVERIFIABLE = [ASSERTED_FIXED]"
| "issue_state_transitions REOPENED = [ASSERTED_FIXED]"

definition can_issue_transition :: "issue_state \<Rightarrow> issue_state \<Rightarrow> bool" where
  "can_issue_transition from' to' = (to' \<in> set (issue_state_transitions from'))"

section \<open>Credits\<close>

datatype credit_kind = PLAN | PURCHASED

datatype lot_source =
  FREE_GRANT | PLAN_RENEWAL | PURCHASE | REFUND_LOT | PROMOTIONAL | ADMIN_GRANT

datatype tx_type = GRANT | DEBIT | REFUND | EXPIRE

record credit_balance =
  bal_plan :: int
  bal_purchased :: int
  bal_plan_expires :: "millis option"

section \<open>Execution units\<close>

datatype execution_unit_class =
    PASSIVE_HTTP
  | SOURCE_STATIC
  | BROWSER
  | CRAWLER
  | SOURCE_EXECUTION
  | ACTIVE_SECURITY
  | AUTHENTICATED_WORKFLOW
  | LOAD_CAPACITY
  | TELEMETRY

datatype execution_unit_status =
    U_PLANNED
  | U_SKIPPED
  | U_BLOCKED
  | U_ADMITTED
  | U_REFUSED
  | U_DISPATCHED
  | U_RUNNING
  | U_COMPLETED
  | U_FAILED
  | U_CANCELLED
  | U_KILLED

section \<open>Authorization and safety\<close>

datatype execution_class =
    X_BROWSER
  | X_CRAWLER
  | X_SOURCE_EXECUTION
  | X_ACTIVE_SECURITY
  | X_AUTHENTICATED_WORKFLOW
  | X_LOAD_CAPACITY

datatype environment = PRODUCTION | STAGING | DEVELOPMENT

text \<open>The scopes of a stop, in the order of \<^verbatim>\<open>SAFETY_SCOPES\<close>, which is also the enumeration's order
  in the database (\<^verbatim>\<open>ORDER BY k.scope\<close>).\<close>

datatype safety_scope = SC_EXECUTION | SC_SCAN | SC_GRANT | SC_TARGET | SC_TENANT | SC_PLATFORM

definition safety_scopes :: "safety_scope list" where
  "safety_scopes = [SC_EXECUTION, SC_SCAN, SC_GRANT, SC_TARGET, SC_TENANT, SC_PLATFORM]"

datatype stop_state = K_REQUESTED | K_ACKNOWLEDGED | K_STOPPED

datatype stop_reason =
    USER_CANCELLATION
  | AUTHORIZATION_REVOKED
  | ENVIRONMENT_RECLASSIFIED
  | OPERATOR_EMERGENCY_STOP
  | SYSTEM_SAFETY_POLICY

datatype audit_type =
    A_ADMISSION_GRANTED
  | A_ADMISSION_REFUSED
  | A_BUDGET_RESERVED
  | A_BUDGET_CONSUMED
  | A_BUDGET_RELEASED
  | A_BUDGET_EXHAUSTED
  | A_STOP_REQUESTED
  | A_STOP_ACKNOWLEDGED
  | A_STOPPED
  | A_ESCALATED
  | A_EXECUTION_COMPLETED
  | A_SAFETY_VIOLATION

end
