(* ===== verification/Pricing.thy ===== *)
theory Pricing
  imports Domain
begin

text \<open>
  The credit cost schedule and the plan tiers: \<^verbatim>\<open>packages/config/src/pricing.ts\<close>,
  \<^verbatim>\<open>refund.ts\<close>, \<^verbatim>\<open>plans.ts\<close>, \<^verbatim>\<open>phase-modules.ts\<close> and the readiness thresholds of
  \<^verbatim>\<open>constants.ts\<close>.  Credits are whole numbers, so a JavaScript number is an \<open>int\<close> here;
  \<^verbatim>\<open>Math.floor\<close> of a quotient is \<open>div\<close>.
\<close>

section \<open>Pricing\<close>

fun area_cost :: "module_type \<Rightarrow> int" where
  "area_cost PERFORMANCE = 20"
| "area_cost SECURITY = 20"
| "area_cost UI = 25"
| "area_cost TESTING = 20"
| "area_cost SEO = 10"

definition full_audit_cost :: int where
  "full_audit_cost = 80"

definition reverify_cost :: int where
  "reverify_cost = 3"

definition readiness_pass_cost :: int where
  "readiness_pass_cost = 60"

definition free_allocation :: int where
  "free_allocation = 50"

definition all_areas :: "module_type list" where
  "all_areas = [PERFORMANCE, SECURITY, UI, TESTING, SEO]"

definition quote_areas :: "module_type list \<Rightarrow> int" where
  "quote_areas areas =
     (let unique = uniq areas in
      if length unique = 0 then 0
      else if length unique = length all_areas then full_audit_cost
      else foldl (\<lambda>sum a. sum + area_cost a) 0 unique)"

definition sum_of_areas :: int where
  "sum_of_areas = foldl (\<lambda>n a. n + area_cost a) 0 all_areas"

lemma foldl_area_cost: "foldl (\<lambda>sum a. sum + area_cost a) n as = n + (\<Sum>a\<leftarrow>as. area_cost a)"
  by (induction as arbitrary: n) simp_all

lemma area_cost_pos [simp]: "0 < area_cost a"
  by (cases a) simp_all

lemma sum_area_cost_UNIV: "(\<Sum>a\<in>UNIV. area_cost a) = 95"
  by (simp add: UNIV_module_type)

text \<open>The quote as a function of the set of areas alone.\<close>

lemma quote_areas_set:
  "quote_areas areas =
     (if set areas = UNIV then full_audit_cost else (\<Sum>a\<in>set areas. area_cost a))"
proof -
  have card_UNIV: "card (UNIV :: module_type set) = length all_areas"
    by (simp add: UNIV_module_type all_areas_def)
  have full: "card (set areas) = length all_areas \<longleftrightarrow> set areas = UNIV"
    using card_UNIV card_subset_eq [of UNIV "set areas"] by (metis finite subset_UNIV)
  have sum: "foldl (\<lambda>sum a. sum + area_cost a) 0 (uniq areas) = (\<Sum>a\<in>set areas. area_cost a)"
    by (simp add: foldl_area_cost sum_list_uniq)
  have "areas \<noteq> [] \<or> (\<Sum>a\<in>set areas. area_cost a) = 0" by auto
  moreover have "set areas = UNIV \<Longrightarrow> areas \<noteq> []" by auto
  ultimately show ?thesis
    by (auto simp: quote_areas_def Let_def length_uniq sum card_UNIV full)
qed

lemma quote_complement:
  assumes "S \<noteq> (UNIV :: module_type set)"
  obtains a where "a \<notin> S" and "(\<Sum>x\<in>S. area_cost x) \<le> 95 - area_cost a"
proof -
  from assms obtain a where a: "a \<notin> S" by auto
  then have "(\<Sum>x\<in>S. area_cost x) \<le> (\<Sum>x\<in>UNIV - {a}. area_cost x)"
    by (intro sum_mono2) (auto simp: less_imp_le)
  also have "\<dots> = 95 - area_cost a"
    by (simp add: sum_diff1 sum_area_cost_UNIV)
  finally show thesis using a that by blast
qed

section \<open>Refunds for undelivered areas\<close>

text \<open>\<^verbatim>\<open>refundForUndelivered\<close>: the three call sites (timeout sweep, terminal observer,
  cancellation) share this one implementation.\<close>

definition refund_for_undelivered :: "int \<Rightarrow> int \<Rightarrow> int \<Rightarrow> int" where
  "refund_for_undelivered chargedCredits requestedCount deliveredCount =
     (if requestedCount \<le> 0 \<or> chargedCredits \<le> 0 then 0
      else let undelivered = max 0 (requestedCount - deliveredCount) in
        if undelivered = 0 then 0
        else if deliveredCount = 0 then chargedCredits
        else (chargedCredits * undelivered) div requestedCount)"

lemma refund_for_undelivered_eq:
  assumes "0 < requested" and "0 < charged" and "0 \<le> delivered"
  shows "refund_for_undelivered charged requested delivered =
           (charged * max 0 (requested - delivered)) div requested"
  using assms by (simp add: refund_for_undelivered_def Let_def)

lemma refund_for_undelivered_bounds:
  assumes "0 \<le> delivered"
  shows "0 \<le> refund_for_undelivered charged requested delivered"
    and "refund_for_undelivered charged requested delivered \<le> max 0 charged"
proof -
  show "0 \<le> refund_for_undelivered charged requested delivered"
    by (auto simp: refund_for_undelivered_def Let_def pos_imp_zdiv_nonneg_iff)
  have "(charged * u) div requested \<le> charged"
    if "0 < requested" "0 < charged" "0 \<le> u" "u \<le> requested" for u
  proof -
    have "charged * u \<le> charged * requested" using that by simp
    then have "(charged * u) div requested \<le> (charged * requested) div requested"
      using that by (intro zdiv_mono1) auto
    then show ?thesis using that by simp
  qed
  then show "refund_for_undelivered charged requested delivered \<le> max 0 charged"
    using assms by (auto simp: refund_for_undelivered_def Let_def max_def)
qed

lemma refund_for_undelivered_antimono:
  assumes "0 \<le> d" and "d \<le> d'"
  shows "refund_for_undelivered charged requested d' \<le> refund_for_undelivered charged requested d"
proof (cases "0 < requested \<and> 0 < charged")
  case True
  then have "charged * max 0 (requested - d') \<le> charged * max 0 (requested - d)"
    using assms by (intro mult_left_mono) auto
  with True assms show ?thesis
    by (simp add: refund_for_undelivered_eq zdiv_mono1)
next
  case False
  then show ?thesis by (auto simp: refund_for_undelivered_def)
qed

section \<open>Which modules run in which phase\<close>

fun modules_for_phase :: "scan_state \<Rightarrow> module_type list \<Rightarrow> module_type list" where
  "modules_for_phase RUNNING_PHASE_1 requested = filter (\<lambda>m. m \<noteq> UI) requested"
| "modules_for_phase RUNNING_PHASE_2 requested = filter (\<lambda>m. m = UI) requested"
| "modules_for_phase _ requested = []"

section \<open>Plan tiers\<close>

datatype tier_id = Free | Starter | Pro | Business

record plan_tier =
  tier :: tier_id
  tier_name :: string
  monthly_credits :: int
  credits_recur :: bool
  allowed_input_types :: "input_type list"
  allow_load_generation :: bool
  allow_readiness_pass :: bool
  allow_credit_purchase :: bool
  allow_custom_capability :: bool
  concurrent_scan_limit :: nat
  queue_priority :: int
  retention_days :: nat

definition plan_tiers :: "plan_tier list" where
  "plan_tiers =
    [\<lparr> tier = Free, tier_name = ''Free'', monthly_credits = 50, credits_recur = False,
       allowed_input_types = [URL], allow_load_generation = False, allow_readiness_pass = False,
       allow_credit_purchase = False, allow_custom_capability = False,
       concurrent_scan_limit = 1, queue_priority = 40, retention_days = 7 \<rparr>,
     \<lparr> tier = Starter, tier_name = ''Starter'', monthly_credits = 300, credits_recur = True,
       allowed_input_types = [URL, ARCHIVE], allow_load_generation = False,
       allow_readiness_pass = True, allow_credit_purchase = True, allow_custom_capability = False,
       concurrent_scan_limit = 1, queue_priority = 30, retention_days = 30 \<rparr>,
     \<lparr> tier = Pro, tier_name = ''Pro'', monthly_credits = 1200, credits_recur = True,
       allowed_input_types = [URL, ARCHIVE, REPOSITORY], allow_load_generation = True,
       allow_readiness_pass = True, allow_credit_purchase = True, allow_custom_capability = False,
       concurrent_scan_limit = 3, queue_priority = 20, retention_days = 365 \<rparr>,
     \<lparr> tier = Business, tier_name = ''Business'', monthly_credits = 4000, credits_recur = True,
       allowed_input_types = [URL, ARCHIVE, REPOSITORY], allow_load_generation = True,
       allow_readiness_pass = True, allow_credit_purchase = True, allow_custom_capability = True,
       concurrent_scan_limit = 6, queue_priority = 10, retention_days = 730 \<rparr>]"

definition plan_tier_by_id :: "tier_id \<Rightarrow> plan_tier option" where
  "plan_tier_by_id = js_map_of (map (\<lambda>t. (tier t, t)) plan_tiers)"

definition billing_period_days :: int where
  "billing_period_days = 30"

section \<open>Readiness thresholds\<close>

definition readiness_thresholds :: "(module_type \<times> int) list" where
  "readiness_thresholds =
     [(PERFORMANCE, 80), (SECURITY, 80), (UI, 70), (TESTING, 75), (SEO, 70)]"

end
