(* ===== verification/Scoring.thy ===== *)
theory Scoring
  imports Domain
begin

text \<open>
  \<^verbatim>\<open>packages/scoring/src/aggregate.ts\<close>: the per-area score, the overall health score and the
  worst severity.  A nullable score is an \<open>int option\<close>; \<^verbatim>\<open>null\<close> is never coerced to zero.
  \<^verbatim>\<open>Math.round (total / n)\<close> of integers is \<open>(2 * total + n) div (2 * n)\<close>: round half up.
\<close>

fun severity_weight :: "severity \<Rightarrow> int" where
  "severity_weight CRITICAL = 25"
| "severity_weight HIGH = 12"
| "severity_weight MEDIUM = 5"
| "severity_weight LOW = 2"
| "severity_weight INFO = 0"

definition is_scorable :: "module_state \<Rightarrow> bool" where
  "is_scorable s = (s \<in> set module_states_scored)"

definition score_from_findings :: "severity list \<Rightarrow> int" where
  "score_from_findings findings =
     (let deduction = foldl (\<lambda>tot f. tot + severity_weight f) 0 findings
      in max 0 (100 - deduction))"

record area_score =
  area_module :: module_type
  area_state :: module_state
  area_points :: "int option"

record overall_score =
  overall_points :: "int option"
  scored_modules :: "module_type list"
  unscored_modules :: "module_type list"

definition math_round_div :: "int \<Rightarrow> int \<Rightarrow> int" where
  "math_round_div tot n = (2 * tot + n) div (2 * n)"

fun overall_loop ::
  "area_score list \<Rightarrow> module_type list \<Rightarrow> module_type list \<Rightarrow> int
     \<Rightarrow> module_type list \<times> module_type list \<times> int" where
  "overall_loop [] scored unscored tot = (scored, unscored, tot)"
| "overall_loop (area # areas) scored unscored tot =
     (case (is_scorable (area_state area), area_points area) of
        (True, Some p) \<Rightarrow> overall_loop areas (scored @ [area_module area]) unscored (tot + p)
      | _ \<Rightarrow> overall_loop areas scored (unscored @ [area_module area]) tot)"

definition overall_score_of :: "area_score list \<Rightarrow> overall_score" where
  "overall_score_of areas =
     (case overall_loop areas [] [] 0 of (scored, unscored, tot) \<Rightarrow>
        \<lparr> overall_points =
            (if length scored = 0 then None
             else Some (math_round_div tot (int (length scored)))),
          scored_modules = scored,
          unscored_modules = unscored \<rparr>)"

fun worst_loop :: "severity option \<Rightarrow> severity list \<Rightarrow> severity option" where
  "worst_loop worst [] = worst"
| "worst_loop worst (f # fs) =
     worst_loop
       (case worst of None \<Rightarrow> Some f
        | Some w \<Rightarrow> if severity_order f < severity_order w then Some f else Some w) fs"

definition worst_severity :: "severity list \<Rightarrow> severity option" where
  "worst_severity findings = worst_loop None findings"

section \<open>The area score\<close>

lemma severity_weight_bounds [simp]: "0 \<le> severity_weight s" "severity_weight s \<le> 25"
  by (cases s; simp)+

lemma foldl_severity_weight:
  "foldl (\<lambda>tot f. tot + severity_weight f) n fs = n + (\<Sum>f\<leftarrow>fs. severity_weight f)"
  by (induction fs arbitrary: n) simp_all

lemma score_from_findings_eq:
  "score_from_findings fs = max 0 (100 - (\<Sum>f\<leftarrow>fs. severity_weight f))"
  by (simp add: score_from_findings_def foldl_severity_weight)

lemma sum_severity_weight_nonneg: "0 \<le> (\<Sum>f\<leftarrow>fs. severity_weight f)"
  by (rule sum_list_nonneg_int) simp

lemma count_CRITICAL_weight: "25 * int (count_list fs CRITICAL) \<le> (\<Sum>f\<leftarrow>fs. severity_weight f)"
  by (induction fs) (auto simp: add_increasing)

section \<open>The overall score\<close>

definition contributes :: "area_score \<Rightarrow> bool" where
  "contributes a \<longleftrightarrow> is_scorable (area_state a) \<and> area_points a \<noteq> None"

definition points :: "area_score \<Rightarrow> int" where
  "points a = (case area_points a of None \<Rightarrow> 0 | Some p \<Rightarrow> p)"

lemma overall_loop_eq:
  "overall_loop areas scored unscored tot =
     (scored @ map area_module (filter contributes areas),
      unscored @ map area_module (filter (\<lambda>a. \<not> contributes a) areas),
      tot + (\<Sum>a\<leftarrow>filter contributes areas. points a))"
  by (induction areas scored unscored tot rule: overall_loop.induct)
    (auto simp: contributes_def points_def split: option.splits bool.splits)

lemma overall_score_of_eq:
  "overall_score_of areas =
     (let cs = filter contributes areas in
      \<lparr> overall_points =
          (if cs = [] then None
           else Some (math_round_div (\<Sum>a\<leftarrow>cs. points a) (int (length cs)))),
        scored_modules = map area_module cs,
        unscored_modules = map area_module (filter (\<lambda>a. \<not> contributes a) areas) \<rparr>)"
  by (simp add: overall_score_of_def overall_loop_eq Let_def)

text \<open>Round-half-up stays between any integer bounds of the mean.\<close>

lemma math_round_div_bounds:
  assumes "0 < n" and "lo * n \<le> tot" and "tot \<le> hi * n"
  shows "lo \<le> math_round_div tot n" and "math_round_div tot n \<le> hi"
proof -
  from assms have "lo * (2 * n) \<le> 2 * tot + n" by (simp add: algebra_simps)
  then have "lo * (2 * n) div (2 * n) \<le> (2 * tot + n) div (2 * n)"
    using assms(1) by (intro zdiv_mono1) auto
  then show "lo \<le> math_round_div tot n" using assms(1) by (simp add: math_round_div_def)
  from assms have "2 * tot + n < (hi + 1) * (2 * n)" by (simp add: algebra_simps)
  then have "(2 * tot + n) div (2 * n) < hi + 1"
    using assms(1) by (intro int_div_less_iff [THEN iffD2]) auto
  then show "math_round_div tot n \<le> hi" by (simp add: math_round_div_def)
qed

lemma sum_list_mean_bounds:
  fixes f :: "'a \<Rightarrow> int"
  assumes "\<And>x. x \<in> set xs \<Longrightarrow> lo \<le> f x \<and> f x \<le> hi"
  shows "lo * int (length xs) \<le> (\<Sum>x\<leftarrow>xs. f x)" and "(\<Sum>x\<leftarrow>xs. f x) \<le> hi * int (length xs)"
  using assms by (induction xs) (force simp: algebra_simps)+

section \<open>The worst severity\<close>

lemma worst_loop_Some: "worst_loop (Some w) fs = Some (Min (set (w # fs)))"
proof (induction fs arbitrary: w)
  case (Cons f fs)
  have "(if severity_order f < severity_order w then f else w) = min f w"
    by (auto simp: min_def less_eq_severity_def)
  then have "worst_loop (Some w) (f # fs) = worst_loop (Some (min f w)) fs"
    by (auto split: if_splits)
  also have "\<dots> = Some (Min (set (min f w # fs)))" by (rule Cons.IH)
  also have "Min (set (min f w # fs)) = Min (set (w # f # fs))"
    by (cases "fs = []") (auto simp: min.assoc min.commute min.left_commute)
  finally show ?case .
qed simp

lemma worst_severity_eq:
  "worst_severity fs = (if fs = [] then None else Some (Min (set fs)))"
  by (cases fs) (simp_all add: worst_severity_def worst_loop_Some del: Min_insert)

end
