(* ===== verification/Fingerprint.thy ===== *)
theory Fingerprint
  imports Domain
begin

text \<open>
  The finding identity of \<^verbatim>\<open>packages/scoring/src/fingerprint.ts\<close>: the length-prefixed encoding
  \<^verbatim>\<open>encodeParts\<close> and the hash \<^verbatim>\<open>fingerprintOf\<close>.  A part is its UTF-8 byte sequence, a list of
  \<open>char\<close> (bytes).  SHA-256 is not under \<^verbatim>\<open>src/\<close>: it is the parameter \<open>sha256\<close>.
\<close>

section \<open>Decimal numerals\<close>

text \<open>\<^verbatim>\<open>String(n)\<close> of a natural number.\<close>

definition digit_char :: "nat \<Rightarrow> char" where
  "digit_char d = (char_of (48 + d) :: char)"

fun decimal :: "nat \<Rightarrow> string" where
  "decimal n = (if n < 10 then [digit_char n] else decimal (n div 10) @ [digit_char (n mod 10)])"

declare decimal.simps [simp del]

definition is_digit :: "char \<Rightarrow> bool" where
  "is_digit c \<longleftrightarrow> 48 \<le> (of_char c :: nat) \<and> (of_char c :: nat) < 58"

definition digit_val :: "char \<Rightarrow> nat" where
  "digit_val c = of_char c - 48"

definition undecimal :: "string \<Rightarrow> nat" where
  "undecimal s = foldl (\<lambda>n c. 10 * n + digit_val c) 0 s"

lemma digit_char_is_digit: "d < 10 \<Longrightarrow> is_digit (digit_char d)"
  by (simp add: is_digit_def digit_char_def)

lemma digit_val_char [simp]: "d < 10 \<Longrightarrow> digit_val (digit_char d) = d"
  by (simp add: digit_val_def digit_char_def)

lemma decimal_digits: "c \<in> set (decimal n) \<Longrightarrow> is_digit c"
proof (induction n rule: decimal.induct)
  case (1 n)
  then show ?case
    by (cases "n < 10") (auto simp: decimal.simps [of n] digit_char_is_digit)
qed

lemma undecimal_decimal [simp]: "undecimal (decimal n) = n"
proof (induction n rule: decimal.induct)
  case (1 n)
  then show ?case
    by (cases "n < 10") (auto simp: decimal.simps [of n] undecimal_def)
qed

lemma decimal_inject: "decimal m = decimal n \<longleftrightarrow> m = n"
  by (metis undecimal_decimal)

lemma decimal_nonempty [simp]: "decimal n \<noteq> []"
  by (subst decimal.simps) simp

section \<open>The length-prefixed encoding\<close>

definition encode_part :: "string \<Rightarrow> string" where
  "encode_part part = decimal (length part) @ '':'' @ part"

fun encode_parts :: "string list \<Rightarrow> string" where
  "encode_parts [] = []"
| "encode_parts (part # parts) = encode_part part @ encode_parts parts"

text \<open>A decoder, as the specification of what the encoding keeps: read digits up to the colon,
  take that many bytes.  The fuel is the length of the input.\<close>

fun decode_parts :: "nat \<Rightarrow> string \<Rightarrow> string list option" where
  "decode_parts fuel [] = Some []"
| "decode_parts 0 (c # cs) = None"
| "decode_parts (Suc fuel) (c # cs) =
     (let digits = takeWhile is_digit (c # cs); rest = dropWhile is_digit (c # cs) in
      case rest of [] \<Rightarrow> None
      | colon # body \<Rightarrow>
          if colon \<noteq> CHR '':'' \<or> digits = [] \<or> length body < undecimal digits then None
          else map_option (Cons (take (undecimal digits) body))
                 (decode_parts fuel (drop (undecimal digits) body)))"

lemma colon_not_digit [simp]: "\<not> is_digit CHR '':''"
  by (simp add: is_digit_def)

lemma span_encode_part:
  "takeWhile is_digit (encode_part p @ cs) = decimal (length p)"
  "dropWhile is_digit (encode_part p @ cs) = CHR '':'' # p @ cs"
  by (simp_all add: encode_part_def takeWhile_append2 dropWhile_append2 decimal_digits)

lemma encode_part_Cons: "\<exists>c cs. encode_part p = c # cs"
  by (metis append_is_Nil_conv decimal_nonempty encode_part_def neq_Nil_conv)

lemma decode_encode:
  "length (encode_parts ps) \<le> fuel \<Longrightarrow> decode_parts fuel (encode_parts ps) = Some ps"
proof (induction ps arbitrary: fuel)
  case Nil
  then show ?case by simp
next
  case (Cons p ps)
  obtain c cs where cs: "encode_part p = c # cs" using encode_part_Cons by blast
  with Cons.prems obtain f where f: "fuel = Suc f" by (cases fuel) auto
  have "length (encode_parts ps) \<le> f" using Cons.prems f cs by simp
  then have IH: "decode_parts f (encode_parts ps) = Some ps" by (rule Cons.IH)
  have whole: "encode_parts (p # ps) = c # (cs @ encode_parts ps)" by (simp add: cs)
  have spans: "takeWhile is_digit (c # (cs @ encode_parts ps)) = decimal (length p)"
      "dropWhile is_digit (c # (cs @ encode_parts ps)) = CHR '':'' # p @ encode_parts ps"
    using span_encode_part [of p "encode_parts ps"] by (simp_all add: cs)
  show ?case
    by (simp only: f whole decode_parts.simps Let_def spans) (simp add: IH)
qed

lemma encode_parts_inject: "encode_parts ps = encode_parts qs \<longleftrightarrow> ps = qs"
  by (metis decode_encode nle_le option.inject)

section \<open>The fingerprint\<close>

fun module_str :: "module_type \<Rightarrow> string" where
  "module_str PERFORMANCE = ''PERFORMANCE''"
| "module_str SECURITY = ''SECURITY''"
| "module_str UI = ''UI''"
| "module_str TESTING = ''TESTING''"
| "module_str SEO = ''SEO''"

lemma module_str_inject [simp]: "module_str m = module_str n \<longleftrightarrow> m = n"
  by (cases m; cases n) simp_all

record fingerprint_input =
  fp_target :: string
  fp_module :: module_type
  fp_check :: string
  fp_parts :: "string list"

definition fingerprint_encoding :: "fingerprint_input \<Rightarrow> string" where
  "fingerprint_encoding inp =
     encode_parts ([fp_target inp, module_str (fp_module inp), fp_check inp] @ fp_parts inp)"

definition fingerprint_of :: "(string \<Rightarrow> 'h) \<Rightarrow> fingerprint_input \<Rightarrow> 'h" where
  "fingerprint_of sha256 inp = sha256 (fingerprint_encoding inp)"

lemma fingerprint_encoding_inject:
  "fingerprint_encoding i = fingerprint_encoding j \<longleftrightarrow> i = (j :: fingerprint_input)"
  unfolding fingerprint_encoding_def encode_parts_inject by (cases i; cases j) simp

end
