(* ===== verification/Measure_Theorems.thy ===== *)
theory Measure_Theorems
  imports Pricing Scoring Fingerprint
begin

text \<open>
  What an audit costs, what is given back for the part that was not delivered, how findings
  become a score, and how a finding is identified: the properties of the shared packages.
\<close>

section \<open>Pricing\<close>

text \<open>The quote depends only on the set of areas asked for (order and repetitions are ignored):
  the bundle price for all five areas, the sum of the area prices otherwise.  It is zero exactly for
  the empty selection and at most the price list less the cheapest area.\<close>

lemma quote_by_set:
  "quote_areas areas = (if set areas = UNIV then full_audit_cost else (\<Sum>a\<in>set areas. area_cost a)) \<and>
   (quote_areas areas = 0 \<longleftrightarrow> areas = []) \<and>
   0 \<le> quote_areas areas \<and> quote_areas areas \<le> sum_of_areas - area_cost SEO"
proof -
  have pos: "0 < (\<Sum>a\<in>set areas. area_cost a)" if "areas \<noteq> []"
    using that by (intro sum_pos) auto
  have "(\<Sum>a\<in>set areas. area_cost a) \<le> 85" if part: "set areas \<noteq> UNIV"
  proof -
    obtain a where "(\<Sum>x\<in>set areas. area_cost x) \<le> 95 - area_cost a"
      using quote_complement [OF part] by metis
    moreover have "10 \<le> area_cost a" by (cases a) simp_all
    ultimately show ?thesis by simp
  qed
  moreover have "sum_of_areas - area_cost SEO = 85" by (simp add: sum_of_areas_def all_areas_def)
  moreover have "0 \<le> (\<Sum>a\<in>set areas. area_cost a)" by (intro sum_nonneg) (simp add: less_imp_le)
  moreover have "areas \<noteq> []" if "set areas = UNIV" using that by auto
  ultimately show ?thesis
    using pos by (cases "set areas = UNIV"; cases "areas = []")
      (simp_all add: quote_areas_set full_audit_cost_def)
qed

text \<open>C38: The refund of a partly delivered scan is the floor of the undelivered share: it lies between
  zero and the charge, is the whole charge when nothing was delivered and nothing when everything was,
  never grows as more areas are delivered, and rounding costs the user less than one credit.\<close>

theorem undelivered_share:
  assumes "0 < requested" and "0 < charged" and "0 \<le> d" and "d \<le> d'" and "d' \<le> requested"
  shows "0 \<le> refund_for_undelivered charged requested d' \<and>
     refund_for_undelivered charged requested d' \<le> refund_for_undelivered charged requested d \<and>
     refund_for_undelivered charged requested d \<le> charged \<and>
     refund_for_undelivered charged requested 0 = charged \<and>
     refund_for_undelivered charged requested requested = 0 \<and>
     refund_for_undelivered charged requested d * requested \<le> charged * (requested - d) \<and>
     charged * (requested - d) < (refund_for_undelivered charged requested d + 1) * requested"
proof -
  have share: "refund_for_undelivered charged requested d = charged * (requested - d) div requested"
    using assms by (simp add: refund_for_undelivered_eq)
  have euclid: "x div requested * requested = x - x mod requested" for x
    by (simp add: minus_mod_eq_div_mult)
  have step: "(q + 1) * requested = q * requested + requested" for q
    by (simp add: distrib_right)
  have "charged * (requested - d) div requested * requested \<le> charged * (requested - d)"
    unfolding euclid using pos_mod_sign [OF assms(1), of "charged * (requested - d)"] by linarith
  moreover have "charged * (requested - d) < (charged * (requested - d) div requested + 1) * requested"
    unfolding step euclid using pos_mod_bound [OF assms(1), of "charged * (requested - d)"] by linarith
  moreover have "refund_for_undelivered charged requested 0 = charged"
    "refund_for_undelivered charged requested requested = 0"
    using assms by (simp_all add: refund_for_undelivered_def Let_def)
  moreover have "refund_for_undelivered charged requested d \<le> charged"
    using refund_for_undelivered_bounds(2) [of d charged requested] assms by simp
  moreover have "0 \<le> refund_for_undelivered charged requested d'"
    using refund_for_undelivered_bounds(1) [of d' charged requested] assms by simp
  moreover have "refund_for_undelivered charged requested d' \<le> refund_for_undelivered charged requested d"
    using refund_for_undelivered_antimono assms by blast
  ultimately show ?thesis unfolding share by blast
qed

theorem undelivered_share_witness:
  "refund_for_undelivered 80 5 2 \<le> refund_for_undelivered 80 5 1 \<and>
   80 * 4 < (refund_for_undelivered 80 5 1 + 1) * 5"
  using undelivered_share [of 5 80 1 2] by simp

section \<open>Scoring\<close>

text \<open>An area's score lies between 0 and 100, depends only on which severities were found and how
  often, is 100 exactly when nothing but informational findings were found, never rises when findings
  are added, and is 0 from four critical findings on.\<close>

lemma area_score_bounds:
  assumes "mset fs \<subseteq># mset fs'"
  shows "0 \<le> score_from_findings fs' \<and> score_from_findings fs' \<le> score_from_findings fs \<and>
     score_from_findings fs \<le> 100 \<and>
     (score_from_findings fs = 100 \<longleftrightarrow> set fs \<subseteq> {INFO}) \<and>
     (if 4 \<le> count_list fs CRITICAL then score_from_findings fs = 0 else True)"
proof -
  have bounds: "0 \<le> max 0 (100 - S') \<and> max 0 (100 - S') \<le> max 0 (100 - S) \<and> max 0 (100 - S) \<le> 100 \<and>
      (max 0 (100 - S) = 100 \<longleftrightarrow> A) \<and> (if 4 \<le> k then max 0 (100 - S) = 0 else True)"
    if "S \<le> S'" "S = 0 \<longleftrightarrow> A" "25 * int k \<le> S" "0 \<le> S" for S S' k A
    using that by (auto simp: max_def)
  have "(\<Sum>f\<leftarrow>fs. severity_weight f) \<le> (\<Sum>f\<leftarrow>fs'. severity_weight f)"
  proof -
    have w: "(\<Sum>f\<leftarrow>xs. severity_weight f) = (\<Sum>f\<in>#mset xs. severity_weight f)" for xs
      by (metis mset_map sum_mset_sum_list)
    obtain rest where "mset fs' = mset fs + rest" using assms by (metis mset_subset_eq_exists_conv)
    moreover have "0 \<le> (\<Sum>f\<in>#rest. severity_weight f)" by (induction rest) (auto intro: add_nonneg_nonneg)
    ultimately show ?thesis unfolding w by simp
  qed
  moreover have "(\<Sum>f\<leftarrow>fs. severity_weight f) = 0 \<longleftrightarrow> set fs \<subseteq> {INFO}"
  proof -
    have "severity_weight f = 0 \<longleftrightarrow> f = INFO" for f by (cases f) simp_all
    then show ?thesis
      by (induction fs) (simp_all add: add_nonneg_eq_0_iff sum_severity_weight_nonneg)
  qed
  moreover have "25 * int (count_list fs CRITICAL) \<le> (\<Sum>f\<leftarrow>fs. severity_weight f)"
    by (rule count_CRITICAL_weight)
  ultimately show ?thesis
    unfolding score_from_findings_eq by (rule bounds [OF _ _ _ sum_severity_weight_nonneg])
qed

text \<open>The overall score exists exactly when some area is scorable and has a score; then it lies
  between the smallest and the largest possible area score.  An area that could not be scored is listed
  as unscored and leaves the number unchanged.\<close>

lemma overall_score_bounds:
  assumes "\<forall>a\<in>set areas. \<forall>p. area_points a = Some p \<longrightarrow> 0 \<le> p \<and> p \<le> 100"
    and "\<not> contributes b"
  shows "(case overall_points (overall_score_of areas) of
       None \<Rightarrow> filter contributes areas = []
     | Some n \<Rightarrow> filter contributes areas \<noteq> [] \<and> 0 \<le> n \<and> n \<le> 100) \<and>
     overall_points (overall_score_of (areas @ [b])) = overall_points (overall_score_of areas) \<and>
     unscored_modules (overall_score_of (areas @ [b])) =
       unscored_modules (overall_score_of areas) @ [area_module b]"
proof -
  let ?cs = "filter contributes areas"
  have "0 \<le> points a \<and> points a \<le> 100" if "a \<in> set ?cs" for a
    using that assms(1) by (auto simp: contributes_def points_def split: option.splits)
  note mean = sum_list_mean_bounds [of ?cs 0 points 100, OF this]
  have "0 \<le> math_round_div (\<Sum>a\<leftarrow>?cs. points a) (int (length ?cs)) \<and>
      math_round_div (\<Sum>a\<leftarrow>?cs. points a) (int (length ?cs)) \<le> 100" if "?cs \<noteq> []"
    using that mean math_round_div_bounds [of "int (length ?cs)" 0 _ 100] by simp
  then show ?thesis using assms(2) by (auto simp: overall_score_of_eq Let_def)
qed

section \<open>Identity of a finding\<close>


end
