(* ===== verification/Ledger.thy ===== *)
theory Ledger
  imports Pricing
begin

text \<open>
  The credit ledger's tables and reads (\<^verbatim>\<open>apps/api/src/services/credits/balance.ts\<close>) and the
  creation of a lot (\<^verbatim>\<open>grant.ts\<close>).  The rows are those of \<^verbatim>\<open>schema.prisma\<close>: a \<open>lot\<close> is a
  \<^verbatim>\<open>CreditLot\<close>, a \<open>credit_tx\<close> a \<^verbatim>\<open>CreditTransaction\<close>, an \<open>alloc\<close> a \<^verbatim>\<open>CreditAllocation\<close>.
  A database transaction is one step on the \<open>ledger\<close>: it either commits (\<open>Inr\<close> of the new
  ledger and the result) or throws (\<open>Inl\<close>) and leaves the ledger as it was.  Row ids are
  \<^verbatim>\<open>cuid()\<close> in the source; only their freshness is used, so they are drawn from \<open>next_id\<close>.
\<close>

section \<open>Tables\<close>

record lot =
  l_id :: nat
  l_user :: user_id
  l_kind :: credit_kind
  l_source :: lot_source
  l_granted :: int
  l_remaining :: int
  l_expires :: "millis option"
  l_created :: millis

record credit_tx =
  t_id :: nat
  t_user :: user_id
  t_type :: tx_type
  t_amount :: int
  t_reason :: string
  t_scan :: "string option"
  t_issue :: "string option"
  t_reverses :: "nat option"
  t_billing :: "string option"

record alloc =
  a_tx :: nat
  a_lot :: nat
  a_amount :: int

record audit_entry =
  e_actor :: user_id
  e_action :: string
  e_subject :: user_id
  e_before :: "int \<times> int"
  e_after :: "int \<times> int"

record ledger =
  lots :: "lot list"
  txs :: "credit_tx list"
  allocs :: "alloc list"
  next_id :: nat
  period_ends :: "(user_id \<times> millis) list"
  known_users :: "user_id list"
  audit_rows :: "audit_entry list"

definition empty_ledger :: "user_id list \<Rightarrow> (user_id \<times> millis) list \<Rightarrow> ledger" where
  "empty_ledger users periods =
     \<lparr> lots = [], txs = [], allocs = [], next_id = 0,
       period_ends = periods, known_users = users, audit_rows = [] \<rparr>"

section \<open>Balance\<close>

text \<open>An expired lot still exists as a row; it just cannot be counted or spent.\<close>

definition spendable :: "millis \<Rightarrow> user_id \<Rightarrow> lot \<Rightarrow> bool" where
  "spendable now u l \<longleftrightarrow>
     l_user l = u \<and> 0 < l_remaining l \<and>
     (case l_expires l of None \<Rightarrow> True | Some e \<Rightarrow> now < e)"

definition kind_sum :: "credit_kind \<Rightarrow> lot list \<Rightarrow> int" where
  "kind_sum k ls = foldl (\<lambda>n l. n + l_remaining l) 0 (filter (\<lambda>l. l_kind l = k) ls)"

definition next_plan_expiry :: "lot list \<Rightarrow> millis option" where
  "next_plan_expiry ls =
     (case sort (List.map_filter l_expires (filter (\<lambda>l. l_kind l = PLAN) ls)) of
        [] \<Rightarrow> None | e # _ \<Rightarrow> Some e)"

definition balance_of :: "ledger \<Rightarrow> millis \<Rightarrow> user_id \<Rightarrow> credit_balance" where
  "balance_of led now u =
     (let ls = filter (spendable now u) (lots led) in
      \<lparr> bal_plan = kind_sum PLAN ls,
        bal_purchased = kind_sum PURCHASED ls,
        bal_plan_expires = next_plan_expiry ls \<rparr>)"

definition total_available :: "ledger \<Rightarrow> millis \<Rightarrow> user_id \<Rightarrow> int" where
  "total_available led now u =
     (let b = balance_of led now u in bal_plan b + bal_purchased b)"

text \<open>\<^verbatim>\<open>balancesOf\<close>: one query for many users, then grouped by user.\<close>

definition balances_of :: "ledger \<Rightarrow> millis \<Rightarrow> user_id list \<Rightarrow> (user_id \<times> credit_balance) list" where
  "balances_of led now us =
     (let ls = (if length us = 0 then []
                else filter (\<lambda>l. l_user l \<in> set us \<and> spendable now (l_user l) l) (lots led))
      in map (\<lambda>u. let mine = filter (\<lambda>l. l_user l = u) ls in
                (u, \<lparr> bal_plan = kind_sum PLAN mine,
                      bal_purchased = kind_sum PURCHASED mine,
                      bal_plan_expires = next_plan_expiry mine \<rparr>)) (uniq us))"

section \<open>Writing rows\<close>

definition insert_lot ::
  "user_id \<Rightarrow> credit_kind \<Rightarrow> lot_source \<Rightarrow> int \<Rightarrow> millis option \<Rightarrow> millis \<Rightarrow> ledger \<Rightarrow> ledger"
where
  "insert_lot u kind source amount expires now led =
     led\<lparr> lots := lots led @
            [\<lparr> l_id = next_id led, l_user = u, l_kind = kind, l_source = source,
               l_granted = amount, l_remaining = amount, l_expires = expires, l_created = now \<rparr>],
          next_id := Suc (next_id led) \<rparr>"

definition insert_tx ::
  "user_id \<Rightarrow> tx_type \<Rightarrow> int \<Rightarrow> string \<Rightarrow> string option \<Rightarrow> string option \<Rightarrow> nat option \<Rightarrow>
   string option \<Rightarrow> ledger \<Rightarrow> ledger"
where
  "insert_tx u ty amount reason scan issue reverses billing led =
     led\<lparr> txs := txs led @
            [\<lparr> t_id = next_id led, t_user = u, t_type = ty, t_amount = amount, t_reason = reason,
               t_scan = scan, t_issue = issue, t_reverses = reverses, t_billing = billing \<rparr>],
          next_id := Suc (next_id led) \<rparr>"

definition insert_alloc :: "nat \<Rightarrow> nat \<Rightarrow> int \<Rightarrow> ledger \<Rightarrow> ledger" where
  "insert_alloc tx l amount led =
     led\<lparr> allocs := allocs led @ [\<lparr> a_tx = tx, a_lot = l, a_amount = amount \<rparr>] \<rparr>"

definition add_remaining :: "nat \<Rightarrow> int \<Rightarrow> ledger \<Rightarrow> ledger" where
  "add_remaining i d led =
     led\<lparr> lots := update_rows l_id i (\<lambda>l. l\<lparr> l_remaining := l_remaining l + d \<rparr>) (lots led) \<rparr>"

section \<open>Granting a lot\<close>

datatype credit_error =
    BadDebitAmount
  | InsufficientCredits int int
  | NotRefundable string
  | AlreadyRefunded nat
  | OverRefund int int
  | DuplicateBillingEventGrant string
  | InvalidCreditAdjustment string
  | UserNotFound user_id
  | CheckViolation string

record grant_input =
  g_user :: user_id
  g_amount :: int
  g_kind :: credit_kind
  g_source :: lot_source
  g_expires :: "millis option"
  g_billing :: "string option"
  g_reason :: "string option"

fun source_label :: "lot_source \<Rightarrow> string" where
  "source_label FREE_GRANT = ''free_grant''"
| "source_label PLAN_RENEWAL = ''plan_renewal''"
| "source_label PURCHASE = ''purchase''"
| "source_label REFUND_LOT = ''refund''"
| "source_label PROMOTIONAL = ''promotional''"
| "source_label ADMIN_GRANT = ''admin_grant''"

text \<open>
  The transaction row is inserted first: its unique \<^verbatim>\<open>billingEventId\<close> refuses a duplicate
  delivery, and the table's CHECK refuses an amount that is not positive, before any lot exists.
\<close>

definition grant_lot :: "millis \<Rightarrow> grant_input \<Rightarrow> ledger \<Rightarrow> credit_error + (ledger \<times> (nat \<times> nat))" where
  "grant_lot now inp led =
     (case g_billing inp of
        Some b \<Rightarrow>
          if \<exists>t\<in>set (txs led). t_billing t = Some b then Inl (DuplicateBillingEventGrant b)
          else if g_amount inp \<le> 0 then Inl (CheckViolation ''CreditTransaction_amount_positive'')
          else
            let reason = (case g_reason inp of Some r \<Rightarrow> r
                            | None \<Rightarrow> ''grant:'' @ source_label (g_source inp));
                led1 = insert_tx (g_user inp) GRANT (g_amount inp) reason None None None (Some b) led;
                led2 = insert_lot (g_user inp) (g_kind inp) (g_source inp) (g_amount inp)
                         (g_expires inp) now led1
            in Inr (led2, (next_id led, next_id led1))
      | None \<Rightarrow>
          if g_amount inp \<le> 0 then Inl (CheckViolation ''CreditTransaction_amount_positive'')
          else
            let reason = (case g_reason inp of Some r \<Rightarrow> r
                            | None \<Rightarrow> ''grant:'' @ source_label (g_source inp));
                led1 = insert_tx (g_user inp) GRANT (g_amount inp) reason None None None None led;
                led2 = insert_lot (g_user inp) (g_kind inp) (g_source inp) (g_amount inp)
                         (g_expires inp) now led1
            in Inr (led2, (next_id led, next_id led1)))"

definition grant_free_allocation :: "millis \<Rightarrow> user_id \<Rightarrow> ledger \<Rightarrow> credit_error + (ledger \<times> (nat \<times> nat))" where
  "grant_free_allocation now u led =
     grant_lot now \<lparr> g_user = u, g_amount = free_allocation, g_kind = PLAN, g_source = FREE_GRANT,
                     g_expires = None, g_billing = None, g_reason = None \<rparr> led"

section \<open>Operator adjustments\<close>

record adjust_input =
  j_operator :: user_id
  j_target :: user_id
  j_amount :: int
  j_kind :: credit_kind
  j_expires :: "millis option"
  j_reason :: string

text \<open>\<^verbatim>\<open>String.prototype.trim\<close> is empty exactly when every character is white space.\<close>

definition js_space :: "char \<Rightarrow> bool" where
  "js_space c \<longleftrightarrow> (of_char c :: nat) \<in> {9, 10, 11, 12, 13, 32, 160}"

definition validate_adjustment :: "adjust_input \<Rightarrow> credit_error option" where
  "validate_adjustment inp =
     (if j_amount inp \<le> 0
      then Some (InvalidCreditAdjustment ''amount must be a positive whole number of credits'')
      else if j_kind inp = PURCHASED \<and> j_expires inp \<noteq> None
      then Some (InvalidCreditAdjustment ''a PURCHASED grant must never expire'')
      else if list_all js_space (j_reason inp)
      then Some (InvalidCreditAdjustment ''reason is required'')
      else None)"

definition adjust_credits ::
  "millis \<Rightarrow> adjust_input \<Rightarrow> ledger \<Rightarrow> credit_error + (ledger \<times> (nat \<times> nat))" where
  "adjust_credits now inp led =
     (case validate_adjustment inp of
        Some e \<Rightarrow> Inl e
      | None \<Rightarrow>
          if j_target inp \<notin> set (known_users led) then Inl (UserNotFound (j_target inp))
          else
            let before = balance_of led now (j_target inp) in
            case grant_lot now \<lparr> g_user = j_target inp, g_amount = j_amount inp,
                                 g_kind = j_kind inp, g_source = ADMIN_GRANT,
                                 g_expires = j_expires inp, g_billing = None,
                                 g_reason = Some (j_reason inp) \<rparr> led of
              Inl e \<Rightarrow> Inl e
            | Inr (led1, ids) \<Rightarrow>
                let after = balance_of led1 now (j_target inp) in
                Inr (led1\<lparr> audit_rows := audit_rows led1 @
                       [\<lparr> e_actor = j_operator inp, e_action = ''credits.adjust'',
                          e_subject = j_target inp,
                          e_before = (bal_plan before, bal_purchased before),
                          e_after = (bal_plan after, bal_purchased after) \<rparr>] \<rparr>, ids))"

end
