(* ===== verification/Ledger_Inv.thy ===== *)
theory Ledger_Inv
  imports Ledger
begin

text \<open>
  What a well-formed ledger is, and the closed form of a batch of lot updates that the debit
  and refund proofs share.  \<open>ledger_ok\<close> collects the schema's constraints (unique ids, the
  CHECKs of \<^verbatim>\<open>credit_lot_amount_bounds_check\<close>, the unique pairs and references of
  \<^verbatim>\<open>CreditAllocation\<close>), that every debit and refund is fully allocated to lots, and
  Principle VI: the credits held in a user's lots are the signed sum of the user's movements.
\<close>

section \<open>The invariant\<close>

definition signed_amount :: "credit_tx \<Rightarrow> int" where
  "signed_amount t =
     (case t_type t of GRANT \<Rightarrow> t_amount t | REFUND \<Rightarrow> t_amount t
      | DEBIT \<Rightarrow> - t_amount t | EXPIRE \<Rightarrow> - t_amount t)"

definition held :: "user_id \<Rightarrow> ledger \<Rightarrow> int" where
  "held u led = (\<Sum>l\<leftarrow>lots led. if l_user l = u then l_remaining l else 0)"

definition moved :: "user_id \<Rightarrow> ledger \<Rightarrow> int" where
  "moved u led = (\<Sum>t\<leftarrow>txs led. if t_user t = u then signed_amount t else 0)"

definition lots_ok :: "ledger \<Rightarrow> bool" where
  "lots_ok led \<longleftrightarrow> distinct (map l_id (lots led)) \<and>
     (\<forall>l\<in>set (lots led). l_id l < next_id led \<and> 0 \<le> l_remaining l \<and> l_remaining l \<le> l_granted l)"

definition txs_ok :: "ledger \<Rightarrow> bool" where
  "txs_ok led \<longleftrightarrow> distinct (map t_id (txs led)) \<and>
     (\<forall>t\<in>set (txs led). t_id t < next_id led \<and> 0 < t_amount t)"

definition allocs_ok :: "ledger \<Rightarrow> bool" where
  "allocs_ok led \<longleftrightarrow> distinct (map (\<lambda>a. (a_tx a, a_lot a)) (allocs led)) \<and>
     (\<forall>a\<in>set (allocs led). 0 < a_amount a \<and>
        (\<exists>t\<in>set (txs led). \<exists>l\<in>set (lots led).
           t_id t = a_tx a \<and> l_id l = a_lot a \<and> t_user t = l_user l))"

definition allocated :: "nat \<Rightarrow> ledger \<Rightarrow> int" where
  "allocated i led = (\<Sum>a\<leftarrow>allocs led. if a_tx a = i then a_amount a else 0)"

definition covered :: "ledger \<Rightarrow> bool" where
  "covered led \<longleftrightarrow> (\<forall>t\<in>set (txs led). t_type t = DEBIT \<or> t_type t = REFUND \<longrightarrow>
     allocated (t_id t) led = t_amount t)"

definition reversals_ok :: "ledger \<Rightarrow> bool" where
  "reversals_ok led \<longleftrightarrow>
     (\<forall>t\<in>set (txs led). \<forall>d. t_reverses t = Some d \<longrightarrow> t_type t = REFUND \<and>
        (\<exists>o'\<in>set (txs led). t_id o' = d \<and> t_type o' = DEBIT \<and> t_user o' = t_user t \<and>
           t_amount t \<le> t_amount o')) \<and>
     distinct (List.map_filter t_reverses (txs led))"

definition balanced :: "ledger \<Rightarrow> bool" where
  "balanced led \<longleftrightarrow> (\<forall>u. held u led = moved u led)"

definition ledger_ok :: "ledger \<Rightarrow> bool" where
  "ledger_ok led \<longleftrightarrow>
     lots_ok led \<and> txs_ok led \<and> allocs_ok led \<and> covered led \<and> reversals_ok led \<and> balanced led"

text \<open>A purchased credit never expires: kept by every operation but an ill-formed grant.\<close>

definition permanent :: "ledger \<Rightarrow> bool" where
  "permanent led \<longleftrightarrow> (\<forall>l\<in>set (lots led). l_kind l = PURCHASED \<longrightarrow> l_expires l = None)"

lemmas ledger_inv_defs =
  lots_ok_def txs_ok_def allocs_ok_def covered_def reversals_ok_def balanced_def

lemma ledger_okI [intro?]:
  "lots_ok led \<Longrightarrow> txs_ok led \<Longrightarrow> allocs_ok led \<Longrightarrow> covered led \<Longrightarrow> reversals_ok led \<Longrightarrow>
   balanced led \<Longrightarrow> ledger_ok led"
  by (simp add: ledger_ok_def)

lemma ledger_okD:
  assumes "ledger_ok led"
  shows "lots_ok led" "txs_ok led" "allocs_ok led" "covered led" "reversals_ok led" "balanced led"
  using assms by (simp_all add: ledger_ok_def)

lemma empty_ledger_ok: "ledger_ok (empty_ledger us ps)"
  by (simp add: ledger_ok_def ledger_inv_defs empty_ledger_def held_def moved_def)

lemma empty_ledger_permanent: "permanent (empty_ledger us ps)"
  by (simp add: permanent_def empty_ledger_def)

section \<open>Reading after a write\<close>

lemma insert_tx_simps [simp]:
  "lots (insert_tx u ty n r sc iss rv b led) = lots led"
  "allocs (insert_tx u ty n r sc iss rv b led) = allocs led"
  "next_id (insert_tx u ty n r sc iss rv b led) = Suc (next_id led)"
  "period_ends (insert_tx u ty n r sc iss rv b led) = period_ends led"
  "known_users (insert_tx u ty n r sc iss rv b led) = known_users led"
  "audit_rows (insert_tx u ty n r sc iss rv b led) = audit_rows led"
  "txs (insert_tx u ty n r sc iss rv b led) = txs led @
     [\<lparr> t_id = next_id led, t_user = u, t_type = ty, t_amount = n, t_reason = r,
        t_scan = sc, t_issue = iss, t_reverses = rv, t_billing = b \<rparr>]"
  by (simp_all add: insert_tx_def)

lemma insert_lot_simps [simp]:
  "txs (insert_lot u k s n e now led) = txs led"
  "allocs (insert_lot u k s n e now led) = allocs led"
  "next_id (insert_lot u k s n e now led) = Suc (next_id led)"
  "period_ends (insert_lot u k s n e now led) = period_ends led"
  "known_users (insert_lot u k s n e now led) = known_users led"
  "lots (insert_lot u k s n e now led) = lots led @
     [\<lparr> l_id = next_id led, l_user = u, l_kind = k, l_source = s,
        l_granted = n, l_remaining = n, l_expires = e, l_created = now \<rparr>]"
  by (simp_all add: insert_lot_def)

lemma insert_alloc_simps [simp]:
  "txs (insert_alloc t l n led) = txs led"
  "lots (insert_alloc t l n led) = lots led"
  "next_id (insert_alloc t l n led) = next_id led"
  "period_ends (insert_alloc t l n led) = period_ends led"
  "allocs (insert_alloc t l n led) = allocs led @ [\<lparr> a_tx = t, a_lot = l, a_amount = n \<rparr>]"
  by (simp_all add: insert_alloc_def)

lemma add_remaining_simps [simp]:
  "txs (add_remaining i d led) = txs led"
  "allocs (add_remaining i d led) = allocs led"
  "next_id (add_remaining i d led) = next_id led"
  "period_ends (add_remaining i d led) = period_ends led"
  "lots (add_remaining i d led) =
     update_rows l_id i (\<lambda>l. l\<lparr> l_remaining := l_remaining l + d \<rparr>) (lots led)"
  by (simp_all add: add_remaining_def)

lemma held_append:
  "held u (led\<lparr> lots := xs @ ys \<rparr>) = held u (led\<lparr> lots := xs \<rparr>) + held u (led\<lparr> lots := ys \<rparr>)"
  by (simp add: held_def)

section \<open>A batch of lot updates\<close>

text \<open>
  A debit or a refund moves a list of \<open>(lot, change)\<close> pairs.  Whatever the order and however
  often a lot occurs, the batch adds to each lot the sum of its changes.
\<close>

definition apply_deltas :: "(nat \<times> int) list \<Rightarrow> lot list \<Rightarrow> lot list" where
  "apply_deltas ds rows =
     foldl (\<lambda>rs (i, d). update_rows l_id i (\<lambda>l. l\<lparr> l_remaining := l_remaining l + d \<rparr>) rs) rows ds"

definition delta_of :: "(nat \<times> int) list \<Rightarrow> nat \<Rightarrow> int" where
  "delta_of ds i = (\<Sum>(j, d)\<leftarrow>ds. if j = i then d else 0)"

lemma delta_of_simps [simp]:
  "delta_of [] i = 0"
  "delta_of ((j, d) # ds) i = (if j = i then d else 0) + delta_of ds i"
  "delta_of (ds @ es) i = delta_of ds i + delta_of es i"
  by (simp_all add: delta_of_def)

lemma apply_deltas_simps [simp]:
  "apply_deltas [] rows = rows"
  "apply_deltas ((i, d) # ds) rows =
     apply_deltas ds (update_rows l_id i (\<lambda>l. l\<lparr> l_remaining := l_remaining l + d \<rparr>) rows)"
  by (simp_all add: apply_deltas_def)

lemma apply_deltas_eq:
  "apply_deltas ds rows =
     map (\<lambda>l. l\<lparr> l_remaining := l_remaining l + delta_of ds (l_id l) \<rparr>) rows"
proof (induction ds arbitrary: rows)
  case Nil
  then show ?case by simp
next
  case (Cons p ds)
  obtain i d where p: "p = (i, d)" by (cases p)
  show ?case by (simp add: p Cons.IH update_rows_def)
qed

lemma delta_of_absent: "i \<notin> fst ` set ds \<Longrightarrow> delta_of ds i = 0"
  by (induction ds) (auto)

lemma delta_of_distinct:
  "distinct (map fst ds) \<Longrightarrow> (i, d) \<in> set ds \<Longrightarrow> delta_of ds i = d"
  by (induction ds) (auto simp: delta_of_absent image_iff)

lemma sum_one_row:
  fixes d :: int
  assumes "distinct (map l_id rows)" and "r \<in> set rows" and "l_id r = j" and "P r"
  shows "(\<Sum>l\<leftarrow>rows. if P l then (if j = l_id l then d else 0) else 0) = d"
  using assms
proof (induction rows)
  case (Cons x rows)
  have zero: "(\<Sum>l\<leftarrow>rows. if P l then (if j = l_id l then d else 0) else 0) = 0"
    if "j \<notin> l_id ` set rows"
  proof -
    have "(\<Sum>l\<leftarrow>rows. if P l then (if j = l_id l then d else 0) else 0) = (\<Sum>l\<leftarrow>rows. 0)"
      using that by (intro arg_cong [where f = sum_list] map_cong) auto
    then show ?thesis by simp
  qed
  show ?case
  proof (cases "x = r")
    case True
    with Cons.prems zero show ?thesis by auto
  next
    case False
    with Cons.prems have "r \<in> set rows" and "j \<noteq> l_id x" by (auto simp: image_iff)
    with Cons show ?thesis by simp
  qed
qed simp

text \<open>The credits a batch moves for a user are the sum of its changes.\<close>

lemma sum_deltas:
  fixes ds :: "(nat \<times> int) list"
  assumes "distinct (map l_id rows)"
    and "\<And>i d. (i, d) \<in> set ds \<Longrightarrow> \<exists>r\<in>set rows. l_id r = i \<and> l_user r = u"
  shows "(\<Sum>l\<leftarrow>rows. if l_user l = u then delta_of ds (l_id l) else 0) = (\<Sum>(i, d)\<leftarrow>ds. d)"
  using assms(2)
proof (induction ds)
  case Nil
  have "(\<Sum>l\<leftarrow>rows. if l_user l = u then delta_of [] (l_id l) else 0) = (\<Sum>l\<leftarrow>rows. 0)"
    by (intro arg_cong [where f = sum_list] map_cong) auto
  then show ?case by simp
next
  case (Cons p ds)
  obtain i d where p: "p = (i, d)" by (cases p)
  from Cons.prems [of i d] p obtain r where r: "r \<in> set rows" "l_id r = i" "l_user r = u" by auto
  have "(\<Sum>l\<leftarrow>rows. if l_user l = u then delta_of (p # ds) (l_id l) else 0) =
      (\<Sum>l\<leftarrow>rows. (if l_user l = u then (if i = l_id l then d else 0) else 0) +
                  (if l_user l = u then delta_of ds (l_id l) else 0))"
    by (intro arg_cong [where f = sum_list] map_cong) (auto simp: p)
  also have "\<dots> = (\<Sum>l\<leftarrow>rows. if l_user l = u then (if i = l_id l then d else 0) else 0) +
                  (\<Sum>l\<leftarrow>rows. if l_user l = u then delta_of ds (l_id l) else 0)"
    by (simp add: sum_list_addf)
  also have "(\<Sum>l\<leftarrow>rows. if l_user l = u then (if i = l_id l then d else 0) else 0) = d"
    by (rule sum_one_row [OF assms(1) r(1) r(2)]) (rule r(3))
  finally show ?case using Cons.IH Cons.prems by (auto simp: p)
qed

lemma held_apply_deltas:
  assumes "distinct (map l_id (lots led))"
    and owned: "\<forall>(i, d)\<in>set ds. \<exists>r\<in>set (lots led). l_id r = i \<and> l_user r = v"
  shows "held u (led\<lparr> lots := apply_deltas ds (lots led) \<rparr>) =
           held u led + (if u = v then (\<Sum>(i, d)\<leftarrow>ds. d) else 0)"
proof -
  have "held u (led\<lparr> lots := apply_deltas ds (lots led) \<rparr>) =
      (\<Sum>l\<leftarrow>lots led. (if l_user l = u then l_remaining l else 0) +
                     (if l_user l = u then delta_of ds (l_id l) else 0))"
    unfolding held_def apply_deltas_eq
    by (auto simp: o_def intro!: arg_cong [where f = sum_list] map_cong)
  also have "\<dots> = held u led + (\<Sum>l\<leftarrow>lots led. if l_user l = u then delta_of ds (l_id l) else 0)"
    by (simp add: sum_list_addf held_def)
  also have "(\<Sum>l\<leftarrow>lots led. if l_user l = u then delta_of ds (l_id l) else 0) =
      (if u = v then (\<Sum>(i, d)\<leftarrow>ds. d) else 0)"
  proof (cases "u = v")
    case True
    then show ?thesis using sum_deltas [OF assms(1), of ds v] owned by auto
  next
    case False
    have "(if l_user l = u then delta_of ds (l_id l) else 0) = 0" if "l \<in> set (lots led)" for l
    proof (rule ccontr)
      assume "(if l_user l = u then delta_of ds (l_id l) else 0) \<noteq> 0"
      then have "l_user l = u" and "l_id l \<in> fst ` set ds"
        using delta_of_absent [of "l_id l" ds] by (auto split: if_splits)
      then obtain r where r: "r \<in> set (lots led)" "l_id r = l_id l" "l_user r = v"
        using owned by force
      with assms(1) that have "r = l" by (auto simp: distinct_map inj_on_def)
      with r False \<open>l_user l = u\<close> show False by simp
    qed
    then have "(\<Sum>l\<leftarrow>lots led. if l_user l = u then delta_of ds (l_id l) else 0) =
        (\<Sum>l\<leftarrow>lots led. 0)"
      by (intro arg_cong [where f = sum_list] map_cong) auto
    with False show ?thesis by simp
  qed
  finally show ?thesis .
qed

text \<open>What is left in one lot, read back by its id.\<close>

definition left_in :: "ledger \<Rightarrow> nat \<Rightarrow> int" where
  "left_in led i = (case find_row l_id i (lots led) of None \<Rightarrow> 0 | Some l \<Rightarrow> l_remaining l)"

lemma left_in_row: "lots_ok led \<Longrightarrow> l \<in> set (lots led) \<Longrightarrow> left_in led (l_id l) = l_remaining l"
  by (simp add: left_in_def lots_ok_def find_row_unique)

lemma find_row_apply_deltas:
  "find_row l_id i (apply_deltas ds rows) =
     map_option (\<lambda>l. l\<lparr> l_remaining := l_remaining l + delta_of ds i \<rparr>) (find_row l_id i rows)"
  by (induction rows) (auto simp: find_row_def apply_deltas_eq)

lemma left_in_deltas:
  assumes "lots_ok led" and "l \<in> set (lots led)" and "lots led' = apply_deltas ds (lots led) @ new"
  shows "left_in led' (l_id l) = l_remaining l + delta_of ds (l_id l)"
  using assms by (simp add: left_in_def find_row_append find_row_apply_deltas lots_ok_def find_row_unique)

section \<open>Granting keeps the ledger well-formed\<close>

lemma insert_lot_held:
  "held u (insert_lot v k s n e now led) = held u led + (if u = v then n else 0)"
  by (simp add: held_def)

lemma insert_tx_moved:
  "moved u (insert_tx v ty n r sc iss rv b led) =
     moved u led + (if u = v then (case ty of GRANT \<Rightarrow> n | REFUND \<Rightarrow> n | DEBIT \<Rightarrow> -n | EXPIRE \<Rightarrow> -n) else 0)"
  by (cases ty) (simp_all add: moved_def signed_amount_def)

lemma held_insert_tx [simp]: "held u (insert_tx v ty n r sc iss rv b led) = held u led"
  by (simp add: held_def)

lemma moved_insert_lot [simp]: "moved u (insert_lot v k s n e now led) = moved u led"
  by (simp add: moved_def)

lemma allocated_insert_tx [simp]:
  "allocated i (insert_tx v ty n r sc iss rv b led) = allocated i led"
  by (simp add: allocated_def)

lemma allocated_insert_lot [simp]: "allocated i (insert_lot v k s n e now led) = allocated i led"
  by (simp add: allocated_def)

text \<open>Inserting rows with fresh ids.\<close>

lemma lots_ok_insert_lot:
  "lots_ok led \<Longrightarrow> 0 \<le> n \<Longrightarrow> lots_ok (insert_lot u k s n e now led)"
  by (fastforce simp: lots_ok_def)

lemma lots_ok_insert_tx: "lots_ok led \<Longrightarrow> lots_ok (insert_tx u ty n r sc iss rv b led)"
  by (fastforce simp: lots_ok_def)

lemma txs_ok_insert_tx:
  "txs_ok led \<Longrightarrow> 0 < n \<Longrightarrow> txs_ok (insert_tx u ty n r sc iss rv b led)"
  by (fastforce simp: txs_ok_def)

lemma txs_ok_insert_lot: "txs_ok led \<Longrightarrow> txs_ok (insert_lot u k s n e now led)"
  by (fastforce simp: txs_ok_def)

lemma allocs_ok_insert_tx: "allocs_ok led \<Longrightarrow> allocs_ok (insert_tx u ty n r sc iss rv b led)"
  by (fastforce simp: allocs_ok_def)

lemma allocs_ok_insert_lot: "allocs_ok led \<Longrightarrow> allocs_ok (insert_lot u k s n e now led)"
  by (fastforce simp: allocs_ok_def)

lemma reversals_ok_insert_lot: "reversals_ok led \<Longrightarrow> reversals_ok (insert_lot u k s n e now led)"
  by (simp add: reversals_ok_def)

lemma reversals_ok_insert_tx_None:
  "reversals_ok led \<Longrightarrow> reversals_ok (insert_tx u ty n r sc iss None b led)"
  by (fastforce simp: reversals_ok_def List.map_filter_def)

lemma covered_insert_lot: "covered led \<Longrightarrow> covered (insert_lot u k s n e now led)"
  by (simp add: covered_def)

lemma covered_insert_tx:
  "covered led \<Longrightarrow> ty = GRANT \<or> ty = EXPIRE \<Longrightarrow> covered (insert_tx u ty n r sc iss rv b led)"
  by (auto simp: covered_def)

lemmas insert_row_intros [inv_intros] =
  lots_ok_insert_lot lots_ok_insert_tx txs_ok_insert_tx txs_ok_insert_lot allocs_ok_insert_tx
  allocs_ok_insert_lot reversals_ok_insert_lot reversals_ok_insert_tx_None covered_insert_lot
  covered_insert_tx

lemma grant_rows_ok:
  assumes "ledger_ok led" and "0 < n"
  shows "ledger_ok (insert_lot u k s n e now (insert_tx u GRANT n r None None None b led))"
  using assms
  by (intro ledger_okI inv_intros)
    (auto simp: ledger_ok_def balanced_def insert_lot_held insert_tx_moved)

lemma grant_lot_InrD:
  assumes "grant_lot now inp led = Inr (led', ids)"
  obtains r where "0 < g_amount inp"
    and "led' = insert_lot (g_user inp) (g_kind inp) (g_source inp) (g_amount inp) (g_expires inp) now
           (insert_tx (g_user inp) GRANT (g_amount inp) r None None None (g_billing inp) led)"
    and "\<And>b. g_billing inp = Some b \<Longrightarrow> \<forall>t\<in>set (txs led). t_billing t \<noteq> Some b"
  using assms that
  by (auto simp: grant_lot_def Let_def split: option.splits if_splits)

lemma grant_lot_ok:
  "ledger_ok led \<Longrightarrow> grant_lot now inp led = Inr (led', ids) \<Longrightarrow> ledger_ok led'"
  by (erule grant_lot_InrD) (auto intro: grant_rows_ok)

lemma grant_lot_permanent:
  assumes "permanent led" and "g_kind inp = PURCHASED \<Longrightarrow> g_expires inp = None"
    and "grant_lot now inp led = Inr (led', ids)"
  shows "permanent led'"
  using assms(3) by (rule grant_lot_InrD) (use assms(1,2) in \<open>auto simp: permanent_def\<close>)

lemma ledger_ok_audit [simp]: "ledger_ok (led\<lparr> audit_rows := a \<rparr>) = ledger_ok led"
  by (simp add: ledger_ok_def ledger_inv_defs held_def moved_def allocated_def)

lemma permanent_audit [simp]: "permanent (led\<lparr> audit_rows := a \<rparr>) = permanent led"
  by (simp add: permanent_def)

lemma adjust_credits_InrD:
  assumes "adjust_credits now inp led = Inr (led', ids)"
  obtains led1 a where "validate_adjustment inp = None"
    and "grant_lot now \<lparr> g_user = j_target inp, g_amount = j_amount inp, g_kind = j_kind inp,
           g_source = ADMIN_GRANT, g_expires = j_expires inp, g_billing = None,
           g_reason = Some (j_reason inp) \<rparr> led = Inr (led1, ids)"
    and "led' = led1\<lparr> audit_rows := a \<rparr>"
  using assms that
  by (auto simp: adjust_credits_def Let_def split: option.splits if_splits sum.splits)

lemma adjust_credits_ok:
  "ledger_ok led \<Longrightarrow> adjust_credits now inp led = Inr (led', ids) \<Longrightarrow> ledger_ok led'"
  by (erule adjust_credits_InrD) (auto dest: grant_lot_ok)

lemma adjust_credits_permanent:
  "permanent led \<Longrightarrow> adjust_credits now inp led = Inr (led', ids) \<Longrightarrow> permanent led'"
  by (erule adjust_credits_InrD)
    (auto dest!: grant_lot_permanent [rotated 2] simp: validate_adjustment_def split: if_splits)

section \<open>Balance facts\<close>

lemma foldl_remaining: "foldl (\<lambda>n l. n + l_remaining l) n ls = n + (\<Sum>l\<leftarrow>ls. l_remaining l)"
  by (induction ls arbitrary: n) simp_all

lemma total_available_eq:
  "total_available led now u = (\<Sum>l\<leftarrow>filter (spendable now u) (lots led). l_remaining l)"
proof -
  have "(\<Sum>l\<leftarrow>filter (\<lambda>l. l_kind l = PLAN) ls. l_remaining l) +
        (\<Sum>l\<leftarrow>filter (\<lambda>l. l_kind l = PURCHASED) ls. l_remaining l) = (\<Sum>l\<leftarrow>ls. l_remaining l)" for ls
  proof (induction ls)
    case (Cons l ls)
    then show ?case by (cases "l_kind l") simp_all
  qed simp
  note split = this [of "filter (spendable now u) (lots led)"]
  show ?thesis
    unfolding total_available_def balance_of_def kind_sum_def foldl_remaining Let_def
    using split by simp
qed

text \<open>A lot is alive when its boundary, if any, is still ahead.\<close>

definition alive :: "millis \<Rightarrow> lot \<Rightarrow> bool" where
  "alive now l \<longleftrightarrow> (case l_expires l of None \<Rightarrow> True | Some e \<Rightarrow> now < e)"

lemma spendable_alive: "spendable now u l \<longleftrightarrow> l_user l = u \<and> 0 < l_remaining l \<and> alive now l"
  by (simp add: spendable_def alive_def)

lemma total_available_alive:
  assumes "\<forall>l\<in>set (lots led). 0 \<le> l_remaining l"
  shows "total_available led now u =
           (\<Sum>l\<leftarrow>lots led. if l_user l = u \<and> alive now l then l_remaining l else 0)"
  unfolding total_available_eq sum_list_filter_if
  using assms by (intro arg_cong [where f = sum_list] map_cong) (auto simp: spendable_alive)

end
