(* ===== verification/Debit.thy ===== *)
theory Debit
  imports Ledger_Inv
begin

text \<open>
  The lot-ordered debit of \<^verbatim>\<open>apps/api/src/services/credits/debit.ts\<close>.  The candidate lots are
  read under \<^verbatim>\<open>FOR UPDATE\<close> and stay locked until the commit, so the read and the writes are one
  step.  \<^verbatim>\<open>ORDER BY\<close> with three keys is \<open>sort_key\<close> on the triple; ties keep the table's order.
\<close>

record debit_input =
  d_user :: user_id
  d_amount :: int
  d_reason :: string
  d_scan :: "string option"
  d_issue :: "string option"

definition debit_key :: "lot \<Rightarrow> (nat \<times> int) \<times> nat \<times> int" where
  "debit_key l =
     ((case l_expires l of None \<Rightarrow> (1, 0) | Some e \<Rightarrow> (0, e)),
      (if l_kind l = PLAN then 0 else 1),
      l_created l)"

definition debit_candidates :: "millis \<Rightarrow> user_id \<Rightarrow> ledger \<Rightarrow> lot list" where
  "debit_candidates now u led = sort_key debit_key (filter (spendable now u) (lots led))"

fun debit_loop :: "nat \<Rightarrow> int \<Rightarrow> lot list \<Rightarrow> ledger \<Rightarrow> ledger" where
  "debit_loop tx outstanding [] led = led"
| "debit_loop tx outstanding (l # ls) led =
     (if outstanding = 0 then led
      else let taken = min (l_remaining l) outstanding in
        debit_loop tx (outstanding - taken) ls
          (insert_alloc tx (l_id l) taken (add_remaining (l_id l) (- taken) led)))"

definition debit ::
  "millis \<Rightarrow> debit_input \<Rightarrow> ledger \<Rightarrow> credit_error + (ledger \<times> (nat \<times> int))" where
  "debit now inp led =
     (if d_amount inp \<le> 0 then Inl BadDebitAmount
      else
        let ls = debit_candidates now (d_user inp) led;
            available = foldl (\<lambda>n l. n + l_remaining l) 0 ls
        in if available < d_amount inp then Inl (InsufficientCredits (d_amount inp) available)
           else
             let led1 = insert_tx (d_user inp) DEBIT (d_amount inp) (d_reason inp)
                          (d_scan inp) (d_issue inp) None None led
             in Inr (debit_loop (next_id led) (d_amount inp) ls led1,
                     (next_id led, d_amount inp)))"

section \<open>What a debit draws\<close>

fun draws :: "int \<Rightarrow> lot list \<Rightarrow> (nat \<times> int) list" where
  "draws outstanding [] = []"
| "draws outstanding (l # ls) =
     (if outstanding = 0 then []
      else let taken = min (l_remaining l) outstanding in
        (l_id l, taken) # draws (outstanding - taken) ls)"

abbreviation negated :: "(nat \<times> int) list \<Rightarrow> (nat \<times> int) list" where
  "negated \<equiv> map (\<lambda>(i, k). (i, - k))"

definition drawn_allocs :: "nat \<Rightarrow> (nat \<times> int) list \<Rightarrow> alloc list" where
  "drawn_allocs tx = map (\<lambda>(i, k). \<lparr> a_tx = tx, a_lot = i, a_amount = k \<rparr>)"

lemma debit_loop_eq:
  "debit_loop tx out ls led =
     led\<lparr> lots := apply_deltas (negated (draws out ls)) (lots led),
          allocs := allocs led @ drawn_allocs tx (draws out ls) \<rparr>"
proof (induction tx out ls led rule: debit_loop.induct)
  case (2 tx out l ls led)
  show ?case
  proof (cases "out = 0")
    case False
    with "2" [OF False refl] show ?thesis
      by (simp add: Let_def drawn_allocs_def insert_alloc_def add_remaining_def)
  qed (simp add: drawn_allocs_def)
qed (simp add: drawn_allocs_def)

lemma draws_sub:
  assumes "\<forall>l\<in>set ls. 0 < l_remaining l" and "0 \<le> out" and "(i, k) \<in> set (draws out ls)"
  shows "0 < k \<and> (\<exists>l\<in>set ls. l_id l = i \<and> k \<le> l_remaining l)"
  using assms
proof (induction out ls rule: draws.induct)
  case (2 out l ls)
  then show ?case by (auto simp: Let_def split: if_splits)
qed simp

lemma fst_draws: "fst ` set (draws out ls) \<subseteq> l_id ` set ls"
  by (induction out ls rule: draws.induct) (auto simp: Let_def split: if_splits)

lemma distinct_draws: "distinct (map l_id ls) \<Longrightarrow> distinct (map fst (draws out ls))"
proof (induction out ls rule: draws.induct)
  case (2 out l ls)
  then show ?case using fst_draws by (fastforce simp: Let_def)
qed simp

lemma sum_draws:
  assumes "\<forall>l\<in>set ls. 0 < l_remaining l" and "0 \<le> out"
  shows "(\<Sum>(i, k)\<leftarrow>draws out ls. k) = min out (\<Sum>l\<leftarrow>ls. l_remaining l)"
  using assms
proof (induction out ls rule: draws.induct)
  case (2 out l ls)
  have nonneg: "0 \<le> (\<Sum>l\<leftarrow>ls. l_remaining l)"
    using "2.prems" by (intro sum_list_nonneg_int) (auto intro: less_imp_le)
  show ?case
  proof (cases "out = 0")
    case True
    then show ?thesis using nonneg "2.prems" by simp
  next
    case False
    with "2" nonneg show ?thesis by (auto simp: Let_def min_def)
  qed
qed simp

lemma draws_in_order:
  assumes "\<forall>l\<in>set (xs @ l # ys). 0 < l_remaining l" and "0 \<le> out"
    and "distinct (map l_id (xs @ l # ys))"
    and "l_id l \<in> fst ` set (draws out (xs @ l # ys))" and "x \<in> set xs"
  shows "(l_id x, l_remaining x) \<in> set (draws out (xs @ l # ys))"
  using assms
proof (induction xs arbitrary: out)
  case (Cons y xs)
  show ?case
  proof (cases "out = 0 \<or> out \<le> l_remaining y")
    case True
    with Cons.prems have "draws out (y # xs @ l # ys) = [] \<or>
        draws out (y # xs @ l # ys) = [(l_id y, out)]"
      by (cases xs) (auto simp: Let_def min_def)
    with Cons.prems show ?thesis by (auto simp: image_iff)
  next
    case False
    then have ds: "draws out ((y # xs) @ l # ys) =
        (l_id y, l_remaining y) # draws (out - l_remaining y) (xs @ l # ys)"
      by (simp add: Let_def min_def)
    from Cons.prems(3) have "l_id l \<noteq> l_id y" by auto
    with Cons.prems(4) ds have
      "l_id l \<in> fst ` set (draws (out - l_remaining y) (xs @ l # ys))" by auto
    with Cons.IH [of "out - l_remaining y"] Cons.prems False
    have "x \<in> set xs \<Longrightarrow> (l_id x, l_remaining x) \<in> set (draws (out - l_remaining y) (xs @ l # ys))"
      by auto
    with ds Cons.prems(5) show ?thesis by auto
  qed
qed simp

section \<open>The result of a debit\<close>

lemma debit_candidates_set [simp]:
  "set (debit_candidates now u led) = {l \<in> set (lots led). spendable now u l}"
  by (simp add: debit_candidates_def)

lemma debit_candidates_sum:
  "(\<Sum>l\<leftarrow>debit_candidates now u led. l_remaining l) = total_available led now u"
  unfolding total_available_eq debit_candidates_def
  by (rule sum_list_mset_cong) simp

lemma distinct_candidates:
  "distinct (map l_id (lots led)) \<Longrightarrow> distinct (map l_id (debit_candidates now u led))"
  by (auto simp: debit_candidates_def distinct_map inj_on_def)

lemma debit_eq:
  "debit now inp led =
     (if d_amount inp \<le> 0 then Inl BadDebitAmount
      else if total_available led now (d_user inp) < d_amount inp
      then Inl (InsufficientCredits (d_amount inp) (total_available led now (d_user inp)))
      else
        let ds = draws (d_amount inp) (debit_candidates now (d_user inp) led);
            led1 = insert_tx (d_user inp) DEBIT (d_amount inp) (d_reason inp)
                     (d_scan inp) (d_issue inp) None None led
        in Inr (led1\<lparr> lots := apply_deltas (negated ds) (lots led),
                     allocs := allocs led @ drawn_allocs (next_id led) ds \<rparr>,
                (next_id led, d_amount inp)))"
  by (simp add: debit_def Let_def foldl_remaining debit_candidates_sum debit_loop_eq)

text \<open>The facts about a successful debit that the other proofs use.\<close>

lemma debit_InrE:
  assumes "debit now inp led = Inr (led', r)" and "lots_ok led"
  obtains ds led1 where
    "ds = draws (d_amount inp) (debit_candidates now (d_user inp) led)"
    "led1 = insert_tx (d_user inp) DEBIT (d_amount inp) (d_reason inp) (d_scan inp) (d_issue inp)
              None None led"
    "led' = led1\<lparr> lots := apply_deltas (negated ds) (lots led),
                  allocs := allocs led @ drawn_allocs (next_id led) ds \<rparr>"
    "r = (next_id led, d_amount inp)"
    "0 < d_amount inp" "d_amount inp \<le> total_available led now (d_user inp)"
    "(\<Sum>(i, k)\<leftarrow>ds. k) = d_amount inp"
    "distinct (map fst ds)"
    "\<forall>(i, k)\<in>set ds. 0 < k \<and>
       (\<exists>l\<in>set (lots led). l_id l = i \<and> spendable now (d_user inp) l \<and> k \<le> l_remaining l)"
proof -
  define ds where "ds = draws (d_amount inp) (debit_candidates now (d_user inp) led)"
  have amt: "0 < d_amount inp" "d_amount inp \<le> total_available led now (d_user inp)"
    using assms(1) by (auto simp: debit_eq Let_def split: if_splits)
  have pos: "\<forall>l\<in>set (debit_candidates now (d_user inp) led). 0 < l_remaining l"
    by (auto simp: spendable_def)
  have sum: "(\<Sum>(i, k)\<leftarrow>ds. k) = d_amount inp"
    using sum_draws [OF pos, of "d_amount inp"] amt by (simp add: ds_def debit_candidates_sum)
  have dist: "distinct (map fst ds)"
    using assms(2) by (auto simp: ds_def lots_ok_def intro!: distinct_draws distinct_candidates)
  have sub: "\<forall>(i, k)\<in>set ds. 0 < k \<and>
       (\<exists>l\<in>set (lots led). l_id l = i \<and> spendable now (d_user inp) l \<and> k \<le> l_remaining l)"
    using draws_sub [OF pos, of "d_amount inp"] amt by (fastforce simp: ds_def)
  have res: "led' = (insert_tx (d_user inp) DEBIT (d_amount inp) (d_reason inp) (d_scan inp)
        (d_issue inp) None None led)\<lparr> lots := apply_deltas (negated ds) (lots led),
                  allocs := allocs led @ drawn_allocs (next_id led) ds \<rparr>"
      and res2: "r = (next_id led, d_amount inp)"
    using assms(1) amt by (auto simp: debit_eq Let_def ds_def)
  show thesis
    by (rule that [OF ds_def refl res res2 amt(1) amt(2) sum dist sub])
qed

lemma sum_negated: "(\<Sum>(i, d)\<leftarrow>negated ds. d) = - (\<Sum>(i, k)\<leftarrow>ds. k)"
  by (induction ds) auto

lemma delta_negated: "delta_of (negated ds) i = - delta_of ds i"
  by (induction ds) auto

lemma allocated_drawn:
  "allocs led' = allocs led @ drawn_allocs tx ds \<Longrightarrow>
   allocated i led' = allocated i led + (if i = tx then (\<Sum>(j, k)\<leftarrow>ds. k) else 0)"
  (is "_ \<Longrightarrow> ?thesis")
proof -
  have "(\<Sum>a\<leftarrow>drawn_allocs tx ds. if a_tx a = i then a_amount a else 0) =
      (if i = tx then (\<Sum>(j, k)\<leftarrow>ds. k) else 0)"
    by (induction ds) (auto simp: drawn_allocs_def)
  then show "allocs led' = allocs led @ drawn_allocs tx ds \<Longrightarrow> ?thesis"
    by (simp add: allocated_def)
qed

lemma drawn_allocs_keys:
  "map (\<lambda>a. (a_tx a, a_lot a)) (drawn_allocs tx ds) = map (\<lambda>i. (tx, i)) (map fst ds)"
  by (auto simp: drawn_allocs_def)

lemma drawn_allocs_set:
  "a \<in> set (drawn_allocs tx ds) \<longleftrightarrow> a_tx a = tx \<and> (a_lot a, a_amount a) \<in> set ds"
  by (cases a) (force simp: drawn_allocs_def)

text \<open>No old allocation belongs to a transaction that does not exist yet.\<close>

lemma fresh_not_allocated:
  "allocs_ok led \<Longrightarrow> txs_ok led \<Longrightarrow> a \<in> set (allocs led) \<Longrightarrow> a_tx a < next_id led"
  by (fastforce simp: allocs_ok_def txs_ok_def)

lemma allocated_fresh:
  assumes "allocs_ok led" and "txs_ok led"
  shows "allocated (next_id led) led = 0"
proof -
  have "(\<Sum>a\<leftarrow>allocs led. if a_tx a = next_id led then a_amount a else 0) = (\<Sum>a\<leftarrow>allocs led. 0)"
    by (intro arg_cong [where f = sum_list] map_cong)
      (auto dest: fresh_not_allocated [OF assms])
  then show ?thesis by (simp add: allocated_def)
qed

lemma lots_deltas_keys [simp]:
  "map l_id (apply_deltas ds rows) = map l_id rows"
  "length (apply_deltas ds rows) = length rows"
  by (simp_all add: apply_deltas_eq)

lemma debit_ok:
  assumes ok: "ledger_ok led" and step: "debit now inp led = Inr (led', r)"
  shows "ledger_ok led'"
proof -
  note inv = ledger_okD [OF ok]
  from step inv(1) obtain ds led1 where ds_def:
    "ds = draws (d_amount inp) (debit_candidates now (d_user inp) led)"
    and ds: "led1 = insert_tx (d_user inp) DEBIT (d_amount inp) (d_reason inp) (d_scan inp) (d_issue inp)
              None None led"
    "led' = led1\<lparr> lots := apply_deltas (negated ds) (lots led),
                  allocs := allocs led @ drawn_allocs (next_id led) ds \<rparr>"
    "r = (next_id led, d_amount inp)"
    "0 < d_amount inp" "d_amount inp \<le> total_available led now (d_user inp)"
    "(\<Sum>(i, k)\<leftarrow>ds. k) = d_amount inp" "distinct (map fst ds)"
    and sub: "\<forall>(i, k)\<in>set ds. 0 < k \<and>
       (\<exists>l\<in>set (lots led). l_id l = i \<and> spendable now (d_user inp) l \<and> k \<le> l_remaining l)"
    by (rule debit_InrE)
  have from': "0 < k \<and>
       (\<exists>l\<in>set (lots led). l_id l = i \<and> spendable now (d_user inp) l \<and> k \<le> l_remaining l)"
    if "(i, k) \<in> set ds" for i k
    using sub that by blast
  have uniq_id: "l = l'" if "l \<in> set (lots led)" "l' \<in> set (lots led)" "l_id l = l_id l'" for l l'
    using inv(1) that by (auto simp: lots_ok_def distinct_map inj_on_def)
  have taken: "0 \<le> delta_of ds (l_id l) \<and> delta_of ds (l_id l) \<le> l_remaining l"
    if "l \<in> set (lots led)" for l
  proof (cases "l_id l \<in> fst ` set ds")
    case True
    then obtain k where k: "(l_id l, k) \<in> set ds" by auto
    with from' [OF k] uniq_id that show ?thesis
      using delta_of_distinct [OF ds(7) k] by (metis less_imp_le)
  next
    case False
    then show ?thesis using inv(1) that by (simp add: delta_of_absent lots_ok_def)
  qed
  have owner: "\<forall>(i, d)\<in>set (negated ds). \<exists>r\<in>set (lots led). l_id r = i \<and> l_user r = d_user inp"
    using from' by (fastforce simp: spendable_def)
  show ?thesis
  proof
    have "l_id l < Suc (next_id led) \<and> 0 \<le> l_remaining l - delta_of ds (l_id l) \<and>
        l_remaining l - delta_of ds (l_id l) \<le> l_granted l" if "l \<in> set (lots led)" for l
      using inv(1) taken [OF that] that by (force simp: lots_ok_def)
    then show "lots_ok led'"
      using inv(1) by (auto simp: lots_ok_def ds(1,2) apply_deltas_eq delta_negated o_def)
    show "txs_ok led'" using inv(2) ds(4) by (fastforce simp: txs_ok_def ds(1,2))
    show "allocs_ok led'"
      unfolding allocs_ok_def
    proof
      show "distinct (map (\<lambda>a. (a_tx a, a_lot a)) (allocs led'))"
        using inv(3) ds(7) fresh_not_allocated [OF inv(3,2)]
        by (fastforce simp: ds(2) allocs_ok_def drawn_allocs_keys drawn_allocs_set distinct_map inj_on_def)
      show "\<forall>a\<in>set (allocs led'). 0 < a_amount a \<and> (\<exists>t\<in>set (txs led'). \<exists>l\<in>set (lots led').
              t_id t = a_tx a \<and> l_id l = a_lot a \<and> t_user t = l_user l)"
        using inv(3) from'
        by (fastforce simp: ds(1,2) allocs_ok_def apply_deltas_eq drawn_allocs_set spendable_def)
    qed
    have "allocated i led' = allocated i led + (if i = next_id led then (\<Sum>(j, k)\<leftarrow>ds. k) else 0)"
      for i by (rule allocated_drawn) (simp add: ds(1,2))
    then show "covered led'"
      using inv(4) inv(2) allocated_fresh [OF inv(3,2)] ds(6)
      by (auto simp: covered_def txs_ok_def ds(1,2))
    have "reversals_ok led1" using inv(5) by (simp add: ds(1) reversals_ok_insert_tx_None)
    then show "reversals_ok led'" by (simp add: reversals_ok_def ds(2))
    show "balanced led'"
      unfolding balanced_def
    proof
      fix u
      have "held u led' = held u (led\<lparr> lots := apply_deltas (negated ds) (lots led) \<rparr>)"
        by (simp add: held_def ds(2))
      also have "\<dots> = held u led + (if u = d_user inp then - d_amount inp else 0)"
        using held_apply_deltas [OF _ owner] inv(1) ds(6)
        by (simp add: lots_ok_def sum_negated del: map_map)
      also have "\<dots> = moved u led1"
        using inv(6) by (simp add: balanced_def ds(1) insert_tx_moved)
      also have "\<dots> = moved u led'" by (simp add: moved_def ds(2))
      finally show "held u led' = moved u led'" .
    qed
  qed
qed

lemma debit_permanent:
  assumes "permanent led" and "lots_ok led" and "debit now inp led = Inr (led', r)"
  shows "permanent led'"
  using assms(3,2) by (rule debit_InrE) (use assms(1) in \<open>auto simp: permanent_def apply_deltas_eq\<close>)

section \<open>Properties\<close>

text \<open>What a successful debit leaves in each lot and for each user.\<close>

lemma debit_lots:
  assumes "lots_ok led" and "debit now inp led = Inr (led', r)"
  shows "lots led' = apply_deltas
           (negated (draws (d_amount inp) (debit_candidates now (d_user inp) led))) (lots led)"
  using assms(2,1) by (rule debit_InrE) simp

lemma alive_update [simp]: "alive now (l\<lparr> l_remaining := n \<rparr>) = alive now l"
  by (simp add: alive_def)

lemma debit_available:
  assumes ok: "ledger_ok led" and step: "debit now inp led = Inr (led', r)"
  shows "total_available led' now v =
           total_available led now v - (if v = d_user inp then d_amount inp else 0)"
proof -
  note inv = ledger_okD [OF ok] and inv' = ledger_okD [OF debit_ok [OF ok step]]
  from step inv(1) obtain ds led1 where ds:
    "led' = led1\<lparr> lots := apply_deltas (negated ds) (lots led),
                  allocs := allocs led @ drawn_allocs (next_id led) ds \<rparr>"
    "(\<Sum>(i, k)\<leftarrow>ds. k) = d_amount inp"
    "\<forall>(i, k)\<in>set ds. 0 < k \<and>
       (\<exists>l\<in>set (lots led). l_id l = i \<and> spendable now (d_user inp) l \<and> k \<le> l_remaining l)"
    by (rule debit_InrE)
  have spend: "spendable now (d_user inp) l"
    if "l \<in> set (lots led)" "delta_of (negated ds) (l_id l) \<noteq> 0" for l
  proof -
    from that(2) have "l_id l \<in> fst ` set ds"
      using delta_of_absent [of "l_id l" ds] by (auto simp: delta_negated)
    with ds(3) obtain m where "m \<in> set (lots led)" "l_id m = l_id l" "spendable now (d_user inp) m"
      by fastforce
    with inv(1) that(1) show ?thesis by (auto simp: lots_ok_def distinct_map inj_on_def)
  qed
  have "\<forall>(i, d)\<in>set (negated ds). \<exists>r\<in>set (lots led). l_id r = i \<and> l_user r = d_user inp"
    using ds(3) by (fastforce simp: spendable_def)
  then have held: "held v (led\<lparr> lots := apply_deltas (negated ds) (lots led) \<rparr>) =
      held v led + (if v = d_user inp then - d_amount inp else 0)"
    using held_apply_deltas [of led "negated ds" "d_user inp" v] inv(1) ds(2)
    by (simp add: lots_ok_def sum_negated del: map_map)
  have dead: "delta_of (negated ds) (l_id l) = 0" if "l \<in> set (lots led)" "\<not> alive now l" for l
    using spend [OF that(1)] that(2) by (auto simp: spendable_alive)
  have split: "held v L = (\<Sum>l\<leftarrow>lots L. if l_user l = v \<and> alive now l then l_remaining l else 0) +
      (\<Sum>l\<leftarrow>lots L. if l_user l = v \<and> \<not> alive now l then l_remaining l else 0)" for L
    unfolding held_def sum_list_addf [symmetric]
    by (intro arg_cong [where f = sum_list] map_cong) auto
  have deads: "(\<Sum>l\<leftarrow>apply_deltas (negated ds) (lots led).
        if l_user l = v \<and> \<not> alive now l then l_remaining l else 0) =
      (\<Sum>l\<leftarrow>lots led. if l_user l = v \<and> \<not> alive now l then l_remaining l else 0)"
    unfolding apply_deltas_eq map_map o_def
    by (intro arg_cong [where f = sum_list] map_cong) (auto simp: dead)
  have "total_available led' now v =
      held v led' - (\<Sum>l\<leftarrow>lots led'. if l_user l = v \<and> \<not> alive now l then l_remaining l else 0)"
    using split [of led'] inv'(1) by (subst total_available_alive) (auto simp: lots_ok_def)
  moreover have "total_available led now v =
      held v led - (\<Sum>l\<leftarrow>lots led. if l_user l = v \<and> \<not> alive now l then l_remaining l else 0)"
    using split [of led] inv(1) by (subst total_available_alive) (auto simp: lots_ok_def)
  moreover have "held v led' = held v (led\<lparr> lots := apply_deltas (negated ds) (lots led) \<rparr>)"
    by (simp add: held_def ds(1))
  ultimately show ?thesis using held deads by (simp add: ds(1))
qed

lemma debit_left_in:
  assumes "lots_ok led" and "debit now inp led = Inr (led', r)" and "l \<in> set (lots led)"
  shows "left_in led' (l_id l) = l_remaining l -
           delta_of (draws (d_amount inp) (debit_candidates now (d_user inp) led)) (l_id l)"
  using left_in_deltas [OF assms(1,3), of led' _ "[]"] debit_lots [OF assms(1,2)]
  by (simp add: delta_negated)

lemma earlier_candidate_exhausted:
  assumes ok: "lots_ok led" and step: "debit now inp led = Inr (led', r)"
    and l: "l \<in> set (lots led)" "spendable now (d_user inp) l"
    and m: "m \<in> set (lots led)" "left_in led' (l_id m) < l_remaining m"
    and key: "debit_key l < debit_key m"
  shows "left_in led' (l_id l) = 0"
proof -
  let ?cs = "debit_candidates now (d_user inp) led"
  let ?ds = "draws (d_amount inp) ?cs"
  have pos: "\<forall>l\<in>set ?cs. 0 < l_remaining l" by (auto simp: spendable_def)
  have dist: "distinct (map l_id ?cs)" using ok by (simp add: lots_ok_def distinct_candidates)
  have amt: "0 \<le> d_amount inp" using step by (auto simp: debit_eq split: if_splits)
  have "delta_of ?ds (l_id m) \<noteq> 0"
    using m debit_left_in [OF ok step m(1)] by simp
  then have m_drawn: "l_id m \<in> fst ` set ?ds" using delta_of_absent by blast
  then obtain c where "c \<in> set ?cs" "l_id c = l_id m" using fst_draws [of "d_amount inp" ?cs] by force
  with ok m(1) have m_in: "m \<in> set ?cs" by (auto simp: lots_ok_def distinct_map inj_on_def)
  then obtain xs ys where cs: "?cs = xs @ m # ys" by (meson split_list)
  have "sorted (map debit_key ?cs)" by (simp add: debit_candidates_def)
  then have "\<forall>y\<in>set ys. debit_key m \<le> debit_key y" by (simp add: cs sorted_append)
  then have "l \<notin> set ys" using key by (meson leD)
  moreover have "l \<noteq> m" using key by auto
  moreover have "l \<in> set ?cs" using l by simp
  ultimately have "l \<in> set xs" by (simp add: cs)
  then have "(l_id l, l_remaining l) \<in> set ?ds"
    using draws_in_order [of xs m ys "d_amount inp" l] pos dist amt m_drawn by (simp add: cs)
  then have "delta_of ?ds (l_id l) = l_remaining l"
    by (rule delta_of_distinct [OF distinct_draws [OF dist]])
  then show ?thesis using debit_left_in [OF ok step l(1)] by simp
qed

end
