(* ===== verification/Refund.thy ===== *)
theory Refund
  imports Debit
begin

text \<open>
  The refund of a debit, \<^verbatim>\<open>apps/api/src/services/credits/refund.ts\<close>.  The allocations come
  with lot rows read before the row locks are taken (\<open>snap\<close>); the rows re-read under
  \<^verbatim>\<open>FOR UPDATE\<close> are those of the ledger the transaction commits on.  The amount goes back to the
  lots the debit drew from, in proportion; what a lot cannot take goes to fresh lots of the same
  kind, merged by kind and expiry.
\<close>

section \<open>Lifetimes of returned credits\<close>

definition day_ms :: millis where "day_ms = 86400000"

definition refund_horizon_days :: int where "refund_horizon_days = 30"

definition plan_refund_boundary :: "millis \<Rightarrow> user_id \<Rightarrow> ledger \<Rightarrow> millis" where
  "plan_refund_boundary now u led =
     (case map_of (period_ends led) u of
        Some p \<Rightarrow> if now < p then p else now + refund_horizon_days * day_ms
      | None \<Rightarrow> now + refund_horizon_days * day_ms)"

definition refund_lot_expiry ::
  "millis \<Rightarrow> user_id \<Rightarrow> ledger \<Rightarrow> credit_kind \<Rightarrow> millis option \<Rightarrow> millis option" where
  "refund_lot_expiry now u led kind src =
     (if kind = PURCHASED then None
      else case src of
             Some e \<Rightarrow> if now < e then Some e else Some (plan_refund_boundary now u led)
           | None \<Rightarrow> Some (plan_refund_boundary now u led))"

record orphan =
  o_kind :: credit_kind
  o_expires :: "millis option"
  o_amount :: int

fun merge_orphan :: "credit_kind \<Rightarrow> millis option \<Rightarrow> int \<Rightarrow> orphan list \<Rightarrow> orphan list" where
  "merge_orphan k e n [] = [\<lparr> o_kind = k, o_expires = e, o_amount = n \<rparr>]"
| "merge_orphan k e n (r # rs) =
     (if o_kind r = k \<and> o_expires r = e then r\<lparr> o_amount := o_amount r + n \<rparr> # rs
      else r # merge_orphan k e n rs)"

definition add_orphan ::
  "millis \<Rightarrow> user_id \<Rightarrow> ledger \<Rightarrow> credit_kind \<Rightarrow> millis option \<Rightarrow> int \<Rightarrow> orphan list \<Rightarrow> orphan list"
where
  "add_orphan now u led kind src amount rs =
     (if amount \<le> 0 then rs
      else merge_orphan kind (refund_lot_expiry now u led kind src) amount rs)"

section \<open>Proportional shares\<close>

text \<open>
  The floors first; then one more for each of the first \<open>remainder\<close> allocations in descending
  order of amount.  The source sorts a copy of the array but increments the shared objects: here
  the sorted positions say which shares grow.
\<close>

fun spread_remainder :: "int \<Rightarrow> nat list \<Rightarrow> int list \<Rightarrow> int list" where
  "spread_remainder rem [] sh = sh"
| "spread_remainder rem (i # is) sh =
     (if rem \<le> 0 then sh else spread_remainder (rem - 1) is (sh[i := sh ! i + 1]))"

definition refund_shares :: "int list \<Rightarrow> int \<Rightarrow> int \<Rightarrow> int list" where
  "refund_shares amounts credits charged =
     (let floors = map (\<lambda>a. (a * credits) div charged) amounts;
          remainder = credits - foldl (\<lambda>s x. s + x) 0 floors;
          order = sort_key (\<lambda>i. - (amounts ! i)) [0..<length amounts]
      in spread_remainder remainder order floors)"

section \<open>The walk over the allocations\<close>

definition included_lots :: "lot list \<Rightarrow> nat \<Rightarrow> ledger \<Rightarrow> (alloc \<times> lot) list" where
  "included_lots snap tx led =
     List.map_filter (\<lambda>a. map_option (Pair a) (find_row l_id (a_lot a) snap))
       (filter (\<lambda>a. a_tx a = tx) (allocs led))"

definition current_expiry :: "lot option \<Rightarrow> lot \<Rightarrow> millis option" where
  "current_expiry cur l =
     (case cur of Some c \<Rightarrow> (case l_expires c of Some e \<Rightarrow> Some e | None \<Rightarrow> l_expires l)
      | None \<Rightarrow> l_expires l)"

definition current_remaining :: "lot option \<Rightarrow> lot \<Rightarrow> int" where
  "current_remaining cur l = (case cur of Some c \<Rightarrow> l_remaining c | None \<Rightarrow> l_remaining l)"

fun refund_walk ::
  "millis \<Rightarrow> user_id \<Rightarrow> nat \<Rightarrow> lot list \<Rightarrow> ((alloc \<times> lot) \<times> int) list \<Rightarrow> orphan list \<Rightarrow> ledger \<Rightarrow>
   orphan list \<times> ledger" where
  "refund_walk now u tx locked [] rs led = (rs, led)"
| "refund_walk now u tx locked (((a, l), share) # rest) rs led =
     (if share \<le> 0 then refund_walk now u tx locked rest rs led
      else
        let current = find_row l_id (a_lot a) locked;
            expires = current_expiry current l;
            remaining = current_remaining current l;
            lot_is_alive = (case expires of None \<Rightarrow> True | Some e \<Rightarrow> now < e)
        in if lot_is_alive then
             let headroom = max 0 (l_granted l - remaining);
                 give_back = min share headroom;
                 led1 = (if 0 < give_back
                         then insert_alloc tx (l_id l) give_back (add_remaining (l_id l) give_back led)
                         else led);
                 overflow = share - give_back
             in refund_walk now u tx locked rest
                  (if 0 < overflow then add_orphan now u led (l_kind l) expires overflow rs else rs)
                  led1
           else refund_walk now u tx locked rest
                  (add_orphan now u led (l_kind l) expires share rs) led)"

fun create_replacements :: "millis \<Rightarrow> user_id \<Rightarrow> nat \<Rightarrow> orphan list \<Rightarrow> ledger \<Rightarrow> ledger" where
  "create_replacements now u tx [] led = led"
| "create_replacements now u tx (r # rs) led =
     create_replacements now u tx rs
       (insert_alloc tx (next_id led) (o_amount r)
          (insert_lot u (o_kind r) REFUND_LOT (o_amount r) (o_expires r) now led))"

section \<open>The refund\<close>

fun tx_type_label :: "tx_type \<Rightarrow> string" where
  "tx_type_label GRANT = ''GRANT''"
| "tx_type_label DEBIT = ''DEBIT''"
| "tx_type_label REFUND = ''REFUND''"
| "tx_type_label EXPIRE = ''EXPIRE''"

definition not_a_debit :: "tx_type \<Rightarrow> credit_error" where
  "not_a_debit ty = NotRefundable (''cannot refund a '' @ tx_type_label ty @ '' transaction'')"

definition no_such_transaction :: credit_error where
  "no_such_transaction = NotRefundable ''no such transaction''"

definition refund_partial ::
  "lot list \<Rightarrow> millis \<Rightarrow> nat \<Rightarrow> int \<Rightarrow> string \<Rightarrow> ledger \<Rightarrow> credit_error + (ledger \<times> nat)" where
  "refund_partial snap now debit_id credits reason led =
     (if credits \<le> 0
      then Inl (NotRefundable ''refund amount must be a positive number of credits'')
      else case find_row t_id debit_id (txs led) of
        None \<Rightarrow> Inl no_such_transaction
      | Some original \<Rightarrow>
          if t_type original \<noteq> DEBIT then Inl (not_a_debit (t_type original))
          else if t_amount original < credits then Inl (OverRefund credits (t_amount original))
          else case find (\<lambda>t. t_reverses t = Some (t_id original)) (txs led) of
            Some existing \<Rightarrow> Inl (AlreadyRefunded (t_id existing))
          | None \<Rightarrow>
              let tx = next_id led;
                  led1 = insert_tx (t_user original) REFUND credits reason (t_scan original)
                           (t_issue original) (Some (t_id original)) None led;
                  als = included_lots snap (t_id original) led;
                  shares = refund_shares (map (a_amount \<circ> fst) als) credits (t_amount original);
                  (orphans, led2) =
                    refund_walk now (t_user original) tx (lots led1) (zip als shares) [] led1
              in Inr (create_replacements now (t_user original) tx orphans led2, tx))"

text \<open>\<^verbatim>\<open>refund\<close>: everything charged; its checks run before the transaction of \<^verbatim>\<open>refundPartial\<close>.\<close>

definition refund ::
  "lot list \<Rightarrow> millis \<Rightarrow> nat \<Rightarrow> string \<Rightarrow> ledger \<Rightarrow> credit_error + (ledger \<times> nat)" where
  "refund snap now debit_id reason led =
     (case find_row t_id debit_id (txs led) of
        None \<Rightarrow> Inl no_such_transaction
      | Some original \<Rightarrow>
          if t_type original \<noteq> DEBIT then Inl (not_a_debit (t_type original))
          else case filter (\<lambda>t. t_reverses t = Some debit_id) (txs led) of
            prior # _ \<Rightarrow> Inl (AlreadyRefunded (t_id prior))
          | [] \<Rightarrow> refund_partial snap now debit_id (t_amount original) reason led)"

section \<open>The shares sum to the refund\<close>

lemma foldl_plus: "foldl (\<lambda>s x. s + x) (n::int) xs = n + sum_list xs"
  by (induction xs arbitrary: n) simp_all

lemma length_spread [simp]: "length (spread_remainder rem is sh) = length sh"
  by (induction rem "is" sh rule: spread_remainder.induct) simp_all

lemma spread_nth:
  assumes "distinct is" and "j < length sh"
  shows "sh ! j \<le> spread_remainder rem is sh ! j \<and>
     spread_remainder rem is sh ! j \<le> sh ! j + (if 0 < rem \<and> j \<in> set is then 1 else 0)"
  using assms
proof (induction rem "is" sh rule: spread_remainder.induct)
  case (2 rem i "is" sh)
  show ?case
  proof (cases "rem \<le> 0")
    case False
    with 2 show ?thesis by (cases "i = j") (force split: if_splits)+
  qed simp
qed simp

lemma sum_list_update_int:
  "i < length xs \<Longrightarrow> sum_list (xs[i := v]) = sum_list xs + (v - xs ! i :: int)"
proof (induction xs arbitrary: i)
  case (Cons x xs)
  then show ?case by (cases i) simp_all
qed simp

lemma sum_spread:
  assumes "set is \<subseteq> {..<length sh}"
  shows "sum_list (spread_remainder rem is sh) =
     sum_list sh + max 0 (min rem (int (length is)))"
  using assms
  by (induction rem "is" sh rule: spread_remainder.induct) (auto simp: sum_list_update_int)

lemma length_refund_shares [simp]: "length (refund_shares as c charged) = length as"
  by (simp add: refund_shares_def Let_def)

lemma refund_shares_sum:
  assumes "0 < c" and "c \<le> charged" and "sum_list as = charged"
  shows "sum_list (refund_shares as c charged) = c"
proof -
  let ?fl = "\<lambda>x. (x * c) div charged"
  have pos: "0 < charged" using assms by simp
  have ne: "as \<noteq> []" using assms by auto
  have lo: "(\<Sum>x\<leftarrow>as. ?fl x) * charged \<le> c * charged"
    using sum_floor_shares_bounds(1) [OF pos, where xs = as and a = "\<lambda>x. x" and c = c] assms(3)
    by (simp add: mult.commute)
  then have lo': "(\<Sum>x\<leftarrow>as. ?fl x) \<le> c" using pos by simp
  have "c * charged < ((\<Sum>x\<leftarrow>as. ?fl x) + int (length as)) * charged"
    using sum_floor_shares_bounds(2) [OF pos ne, where a = "\<lambda>x. x" and c = c] assms(3)
    by (simp add: mult.commute)
  then have hi: "c < (\<Sum>x\<leftarrow>as. ?fl x) + int (length as)"
    using pos mult_less_cancel_right_pos by blast
  show ?thesis
    unfolding refund_shares_def Let_def foldl_plus
    by (subst sum_spread) (use lo' hi in auto)
qed

lemma refund_shares_bound:
  assumes "0 < c" and "c \<le> charged" and "sum_list as = charged" and "\<forall>a\<in>set as. 0 < a"
    and "j < length as"
  shows "0 \<le> refund_shares as c charged ! j \<and> refund_shares as c charged ! j \<le> as ! j"
proof -
  let ?fl = "map (\<lambda>a. (a * c) div charged) as"
  let ?rem = "c - sum_list ?fl"
  let ?order = "sort_key (\<lambda>i. - (as ! i)) [0..<length as]"
  have pos: "0 < charged" and aj: "0 < as ! j" using assms by auto
  have spread: "?fl ! j \<le> refund_shares as c charged ! j"
    "refund_shares as c charged ! j \<le> ?fl ! j + (if 0 < ?rem \<and> j \<in> set ?order then 1 else 0)"
    using spread_nth [of ?order j ?fl ?rem] assms(5)
    by (simp_all add: refund_shares_def Let_def foldl_plus)
  have flj: "?fl ! j = (as ! j * c) div charged" using assms(5) by simp
  have nonneg: "0 \<le> ?fl ! j" unfolding flj using aj assms(1) pos
    by (simp add: pos_imp_zdiv_nonneg_iff)
  show ?thesis
  proof (cases "c = charged")
    case True
    then have "?fl = as" using pos by (simp add: map_idI)
    then have "?rem = 0" using True assms(3) by simp
    with spread nonneg \<open>?fl = as\<close> show ?thesis by simp
  next
    case False
    with assms(2) have "c < charged" by simp
    then have "?fl ! j < as ! j"
      unfolding flj using aj pos by (subst int_div_less_iff) auto
    with spread nonneg show ?thesis by (auto split: if_splits)
  qed
qed

section \<open>A stale read makes no difference\<close>

text \<open>
  The columns of a lot that no operation rewrites, and the only way its boundary moves: a
  boundary is never removed.  An earlier read of the table is a snapshot in this sense.
\<close>

definition same_lot :: "lot \<Rightarrow> lot \<Rightarrow> bool" where
  "same_lot s l \<longleftrightarrow> l_id s = l_id l \<and> l_user s = l_user l \<and> l_kind s = l_kind l \<and>
     l_granted s = l_granted l \<and> (l_expires l = None \<longrightarrow> l_expires s = None)"

definition snapshot_for :: "nat \<Rightarrow> lot list \<Rightarrow> ledger \<Rightarrow> bool" where
  "snapshot_for d snap led \<longleftrightarrow>
     (\<forall>s\<in>set snap. \<exists>l\<in>set (lots led). same_lot s l) \<and>
     (\<forall>a\<in>set (allocs led). a_tx a = d \<longrightarrow> a_lot a \<in> l_id ` set snap)"

lemma snapshot_self: "allocs_ok led \<Longrightarrow> snapshot_for d (lots led) led"
  unfolding snapshot_for_def
proof
  show "\<forall>s\<in>set (lots led). \<exists>l\<in>set (lots led). same_lot s l"
    by (auto simp: same_lot_def)
  assume "allocs_ok led"
  then show "\<forall>a\<in>set (allocs led). a_tx a = d \<longrightarrow> a_lot a \<in> l_id ` set (lots led)"
    by (force simp: allocs_ok_def)
qed

lemma included_lots_eq:
  assumes "\<forall>a\<in>set (allocs led). a_tx a = d \<longrightarrow> a_lot a \<in> l_id ` set snap"
  shows "included_lots snap d led =
     map (\<lambda>a. (a, the (find_row l_id (a_lot a) snap))) (filter (\<lambda>a. a_tx a = d) (allocs led))"
proof -
  have "List.map_filter (\<lambda>a. map_option (Pair a) (find_row l_id (a_lot a) snap)) xs =
      map (\<lambda>a. (a, the (find_row l_id (a_lot a) snap))) xs"
    if "\<forall>a\<in>set xs. a_lot a \<in> l_id ` set snap" for xs
    using that
  proof (induction xs)
    case (Cons a xs)
    then obtain l where "find_row l_id (a_lot a) snap = Some l"
      by (metis find_row_None_iff list.set_intros(1) option.exhaust)
    with Cons show ?case by (simp add: List.map_filter_def)
  qed (simp add: List.map_filter_def)
  note this [of "filter (\<lambda>a. a_tx a = d) (allocs led)"]
  with assms show ?thesis by (simp add: included_lots_def)
qed

lemma refund_walk_stale:
  assumes "\<forall>a\<in>set as. \<exists>c. find_row l_id (a_lot a) locked = Some c \<and>
     l_id (f a) = l_id c \<and> l_kind (f a) = l_kind c \<and> l_granted (f a) = l_granted c \<and>
     (l_expires c = None \<longrightarrow> l_expires (f a) = None)"
  shows "refund_walk now u tx locked (zip (map (\<lambda>a. (a, f a)) as) sh) rs led =
     refund_walk now u tx locked
       (zip (map (\<lambda>a. (a, the (find_row l_id (a_lot a) locked))) as) sh) rs led"
  using assms
proof (induction as arbitrary: sh rs led)
  case (Cons a as)
  then obtain c where c: "find_row l_id (a_lot a) locked = Some c" "l_id (f a) = l_id c"
    "l_kind (f a) = l_kind c" "l_granted (f a) = l_granted c"
    "l_expires c = None \<longrightarrow> l_expires (f a) = None" by auto
  have e: "current_expiry (Some c) (f a) = current_expiry (Some c) c"
    using c(5) by (auto simp: current_expiry_def split: option.splits)
  have IH: "refund_walk now u tx locked (zip (map (\<lambda>a. (a, f a)) as) sh) rs led =
     refund_walk now u tx locked
       (zip (map (\<lambda>a. (a, the (find_row l_id (a_lot a) locked))) as) sh) rs led" for sh rs led
    using Cons by simp
  show ?case
    by (cases sh) (simp_all add: Let_def IH c e current_remaining_def)
qed simp

lemma refund_partial_stale:
  assumes ok: "lots_ok led" "allocs_ok led" and snap: "snapshot_for d snap led"
  shows "refund_partial snap now d credits reason led =
           refund_partial (lots led) now d credits reason led"
proof -
  let ?as = "filter (\<lambda>a. a_tx a = d) (allocs led)"
  have each: "\<exists>c. find_row l_id (a_lot a) (lots led) = Some c \<and>
      l_id s = l_id c \<and> l_kind s = l_kind c \<and> l_granted s = l_granted c \<and>
      (l_expires c = None \<longrightarrow> l_expires s = None)"
    if a: "a \<in> set ?as" and s: "s = the (find_row l_id (a_lot a) snap)" for a s
  proof -
    have "a_lot a \<in> l_id ` set snap" using snap a by (simp add: snapshot_for_def)
    then obtain r where r: "find_row l_id (a_lot a) snap = Some r"
      by (metis find_row_None_iff option.exhaust)
    with s have "s \<in> set snap" "l_id s = a_lot a" using find_row_SomeD [OF r] by auto
    with snap obtain l where "l \<in> set (lots led)" "same_lot s l" "l_id s = a_lot a"
      by (auto simp: snapshot_for_def)
    then show ?thesis using find_row_unique [of l_id "lots led" l] ok(1)
      by (auto simp: same_lot_def lots_ok_def)
  qed
  have own: "\<forall>a\<in>set (allocs led). a_tx a = d \<longrightarrow> a_lot a \<in> l_id ` set (lots led)"
    using snapshot_self [OF ok(2)] by (simp add: snapshot_for_def)
  have fst_eq: "map (a_amount \<circ> fst) (included_lots snap d led) =
      map (a_amount \<circ> fst) (included_lots (lots led) d led)"
    using snap own by (simp add: included_lots_eq snapshot_for_def)
  have walk: "refund_walk now u tx (lots led) (zip (included_lots snap d led) sh) [] led1 =
      refund_walk now u tx (lots led) (zip (included_lots (lots led) d led) sh) [] led1" for u tx sh led1
    using refund_walk_stale [of ?as "lots led" "\<lambda>a. the (find_row l_id (a_lot a) snap)"] each snap own
    by (simp add: included_lots_eq snapshot_for_def)
  show ?thesis
  proof (cases "find_row t_id d (txs led)")
    case None
    then show ?thesis by (simp add: refund_partial_def)
  next
    case (Some original)
    then have "t_id original = d" using find_row_SomeD by fastforce
    then show ?thesis
      by (simp only: refund_partial_def Some option.case Let_def fst_eq insert_tx_simps walk)
  qed
qed

end
