(* ===== verification/Refund_Inv.thy ===== *)
theory Refund_Inv
  imports Refund
begin

text \<open>
  The refund in closed form -- what goes back to each lot, what is owed beyond the lots, the
  replacement lots -- and the facts that follow: the ledger stays well-formed, the movement is
  exactly the requested amount, and no plan credit outlives or dies before a live boundary.
\<close>

section \<open>What goes back where\<close>

definition give_back :: "millis \<Rightarrow> lot list \<Rightarrow> alloc \<Rightarrow> lot \<Rightarrow> int \<Rightarrow> int" where
  "give_back now locked a l share =
     (let current = find_row l_id (a_lot a) locked in
      if 0 < share \<and> (case current_expiry current l of None \<Rightarrow> True | Some e \<Rightarrow> now < e)
      then max 0 (min share (l_granted l - current_remaining current l)) else 0)"

definition gives :: "millis \<Rightarrow> lot list \<Rightarrow> ((alloc \<times> lot) \<times> int) list \<Rightarrow> (nat \<times> int) list" where
  "gives now locked items =
     filter (\<lambda>p. 0 < snd p) (map (\<lambda>((a, l), s). (l_id l, give_back now locked a l s)) items)"

definition owed ::
  "millis \<Rightarrow> lot list \<Rightarrow> ((alloc \<times> lot) \<times> int) list \<Rightarrow> (credit_kind \<times> millis option \<times> int) list"
where
  "owed now locked items =
     map (\<lambda>((a, l), s). (l_kind l, current_expiry (find_row l_id (a_lot a) locked) l,
            max 0 s - give_back now locked a l s)) items"

definition collect_orphans ::
  "millis \<Rightarrow> user_id \<Rightarrow> ledger \<Rightarrow> (credit_kind \<times> millis option \<times> int) list \<Rightarrow> orphan list \<Rightarrow> orphan list"
where
  "collect_orphans now u led ows rs =
     foldl (\<lambda>rs (k, e, n). add_orphan now u led k e n rs) rs ows"

lemma collect_orphans_simps [simp]:
  "collect_orphans now u led [] rs = rs"
  "collect_orphans now u led ((k, e, n) # ows) rs =
     collect_orphans now u led ows (add_orphan now u led k e n rs)"
  by (simp_all add: collect_orphans_def)

lemma add_orphan_period:
  "period_ends led = period_ends led' \<Longrightarrow> add_orphan now u led k e n rs = add_orphan now u led' k e n rs"
  by (simp add: add_orphan_def refund_lot_expiry_def plan_refund_boundary_def split: option.splits)

lemma collect_orphans_period:
  "period_ends led = period_ends led' \<Longrightarrow>
   collect_orphans now u led ows rs = collect_orphans now u led' ows rs"
proof (induction ows arbitrary: rs)
  case (Cons p ows)
  then show ?case by (cases p) (simp add: add_orphan_period [of led led'])
qed simp

lemma add_orphan_nonpos [simp]: "n \<le> 0 \<Longrightarrow> add_orphan now u led k e n rs = rs"
  by (simp add: add_orphan_def)

lemma refund_walk_step:
  "refund_walk now u tx locked (((a, l), s) # rest) rs led =
     (let g = give_back now locked a l s in
      refund_walk now u tx locked rest
        (add_orphan now u led (l_kind l) (current_expiry (find_row l_id (a_lot a) locked) l)
           (max 0 s - g) rs)
        (if 0 < g then insert_alloc tx (l_id l) g (add_remaining (l_id l) g led) else led))"
proof -
  let ?cur = "find_row l_id (a_lot a) locked"
  let ?alive = "case current_expiry ?cur l of None \<Rightarrow> True | Some e \<Rightarrow> now < e"
  have orph: "(if 0 < n then add_orphan now u led k e n rs else rs) = add_orphan now u led k e n rs"
    for k e n by simp
  consider "s \<le> 0" | "0 < s" "?alive" | "0 < s" "\<not> ?alive" by linarith
  then show ?thesis
  proof cases
    case 2
    then have g: "min s (max 0 (l_granted l - current_remaining ?cur l)) = give_back now locked a l s"
      by (auto simp: give_back_def min_def max_def)
    from 2 have c: "(s \<le> 0) = False" "?alive = True" "max 0 s = s" by simp_all
    show ?thesis by (simp only: refund_walk.simps Let_def c g if_True if_False orph)
  next
    case 3
    then have "give_back now locked a l s = 0" by (simp add: give_back_def)
    with 3 show ?thesis by (simp add: Let_def)
  qed (simp add: Let_def give_back_def)
qed

lemma refund_walk_eq:
  "refund_walk now u tx locked items rs led =
     (collect_orphans now u led (owed now locked items) rs,
      led\<lparr> lots := apply_deltas (gives now locked items) (lots led),
           allocs := allocs led @ drawn_allocs tx (gives now locked items) \<rparr>)"
proof (induction items arbitrary: rs led)
  case Nil
  then show ?case by (simp add: gives_def owed_def drawn_allocs_def)
next
  case (Cons p items)
  obtain a l s where p: "p = ((a, l), s)" by (cases p) auto
  let ?g = "give_back now locked a l s"
  define led1 where "led1 = (if 0 < ?g
    then insert_alloc tx (l_id l) ?g (add_remaining (l_id l) ?g led) else led)"
  have gs: "gives now locked (p # items) =
      (if 0 < ?g then [(l_id l, ?g)] else []) @ gives now locked items"
    by (simp add: gives_def p)
  have ow: "owed now locked (p # items) =
      (l_kind l, current_expiry (find_row l_id (a_lot a) locked) l, max 0 s - ?g)
        # owed now locked items"
    by (simp add: owed_def p)
  have led1: "led1\<lparr> lots := apply_deltas (gives now locked items) (lots led1),
           allocs := allocs led1 @ drawn_allocs tx (gives now locked items) \<rparr> =
      led\<lparr> lots := apply_deltas (gives now locked (p # items)) (lots led),
           allocs := allocs led @ drawn_allocs tx (gives now locked (p # items)) \<rparr>"
    by (simp add: gs led1_def drawn_allocs_def insert_alloc_def add_remaining_def)
  have per: "period_ends led1 = period_ends led" by (simp add: led1_def)
  have "refund_walk now u tx locked (p # items) rs led = refund_walk now u tx locked items
      (add_orphan now u led (l_kind l) (current_expiry (find_row l_id (a_lot a) locked) l)
         (max 0 s - ?g) rs) led1"
    by (simp only: p refund_walk_step Let_def led1_def)
  also have "\<dots> = (collect_orphans now u led (owed now locked (p # items)) rs,
      led\<lparr> lots := apply_deltas (gives now locked (p # items)) (lots led),
           allocs := allocs led @ drawn_allocs tx (gives now locked (p # items)) \<rparr>)"
    by (simp only: Cons.IH led1 ow collect_orphans_simps collect_orphans_period [OF per])
  finally show ?case .
qed

text \<open>The replacement lots and their allocations.\<close>

fun replacement_rows :: "nat \<Rightarrow> millis \<Rightarrow> user_id \<Rightarrow> orphan list \<Rightarrow> lot list" where
  "replacement_rows i now u [] = []"
| "replacement_rows i now u (r # rs) =
     \<lparr> l_id = i, l_user = u, l_kind = o_kind r, l_source = REFUND_LOT, l_granted = o_amount r,
       l_remaining = o_amount r, l_expires = o_expires r, l_created = now \<rparr>
     # replacement_rows (Suc i) now u rs"

fun replacement_draws :: "nat \<Rightarrow> orphan list \<Rightarrow> (nat \<times> int) list" where
  "replacement_draws i [] = []"
| "replacement_draws i (r # rs) = (i, o_amount r) # replacement_draws (Suc i) rs"

lemma create_replacements_eq:
  "create_replacements now u tx rs led =
     led\<lparr> lots := lots led @ replacement_rows (next_id led) now u rs,
          allocs := allocs led @ drawn_allocs tx (replacement_draws (next_id led) rs),
          next_id := next_id led + length rs \<rparr>"
proof (induction rs arbitrary: led)
  case (Cons r rs)
  show ?case
    by (simp add: Cons.IH drawn_allocs_def) (simp add: insert_alloc_def insert_lot_def)
qed (simp add: drawn_allocs_def)

lemma replacement_rows_mem:
  "l \<in> set (replacement_rows i now u rs) \<Longrightarrow>
     i \<le> l_id l \<and> l_id l < i + length rs \<and> l_user l = u \<and> l_remaining l = l_granted l \<and>
     l_source l = REFUND_LOT \<and>
     (\<exists>r\<in>set rs. l_kind l = o_kind r \<and> l_expires l = o_expires r \<and> l_granted l = o_amount r)"
  by (induction i now u rs rule: replacement_rows.induct) force+

lemma replacement_draws_mem:
  "(j, n) \<in> set (replacement_draws i rs) \<Longrightarrow>
     i \<le> j \<and> (\<exists>l\<in>set (replacement_rows i now u rs). l_id l = j) \<and> (\<exists>r\<in>set rs. n = o_amount r)"
  by (induction i now u rs rule: replacement_rows.induct) force+

lemma replacement_ids: "map l_id (replacement_rows i now u rs) = [i..<i + length rs]"
proof (induction rs arbitrary: i)
  case (Cons r rs)
  have "[i..<i + length (r # rs)] = i # [Suc i..<Suc i + length rs]"
    by (subst upt_conv_Cons) auto
  with Cons show ?case by (simp del: upt_Suc)
qed simp

lemma replacement_draw_ids: "map fst (replacement_draws i rs) = [i..<i + length rs]"
proof (induction rs arbitrary: i)
  case (Cons r rs)
  have "[i..<i + length (r # rs)] = i # [Suc i..<Suc i + length rs]"
    by (subst upt_conv_Cons) auto
  with Cons show ?case by (simp del: upt_Suc)
qed simp

lemma replacement_sums:
  "(\<Sum>(j, n)\<leftarrow>replacement_draws i rs. n) = (\<Sum>r\<leftarrow>rs. o_amount r)"
  "(\<Sum>l\<leftarrow>replacement_rows i now v rs. if l_user l = u then l_remaining l else 0) =
     (if u = v then (\<Sum>r\<leftarrow>rs. o_amount r) else 0)"
  by (induction rs arbitrary: i) auto

section \<open>Orphans\<close>

text \<open>Every orphan is positive and carries an expiry that fits its kind.\<close>

definition orphan_ok :: "millis \<Rightarrow> orphan \<Rightarrow> bool" where
  "orphan_ok now r \<longleftrightarrow> 0 < o_amount r \<and>
     (case o_kind r of PURCHASED \<Rightarrow> o_expires r = None
      | PLAN \<Rightarrow> (case o_expires r of None \<Rightarrow> False | Some e \<Rightarrow> now < e))"

lemma refund_lot_expiry_ok:
  "(case k of PURCHASED \<Rightarrow> refund_lot_expiry now u led k src = None
    | PLAN \<Rightarrow> (case refund_lot_expiry now u led k src of None \<Rightarrow> False | Some e \<Rightarrow> now < e))"
  by (cases k)
    (auto simp: refund_lot_expiry_def plan_refund_boundary_def refund_horizon_days_def day_ms_def
      split: option.splits)

lemma merge_orphan_mem:
  assumes "r \<in> set (merge_orphan k e n rs)"
  shows "r \<in> set rs \<or> (o_kind r = k \<and> o_expires r = e \<and>
     (o_amount r = n \<or> (\<exists>r'\<in>set rs. o_amount r = o_amount r' + n)))"
  using assms by (induction k e n rs rule: merge_orphan.induct) (auto split: if_splits)

lemma merge_orphan_sum: "(\<Sum>r\<leftarrow>merge_orphan k e n rs. o_amount r) = (\<Sum>r\<leftarrow>rs. o_amount r) + n"
  by (induction k e n rs rule: merge_orphan.induct) auto

lemma add_orphan_ok:
  "\<forall>r\<in>set rs. orphan_ok now r \<Longrightarrow> \<forall>r\<in>set (add_orphan now u led k src n rs). orphan_ok now r"
proof
  fix r
  assume rs: "\<forall>r\<in>set rs. orphan_ok now r" and r: "r \<in> set (add_orphan now u led k src n rs)"
  show "orphan_ok now r"
  proof (cases "n \<le> 0 \<or> r \<in> set rs")
    case True
    with rs r show ?thesis by (auto simp: add_orphan_def split: if_splits)
  next
    case False
    with r have "o_kind r = k" "o_expires r = refund_lot_expiry now u led k src"
      "o_amount r = n \<or> (\<exists>r'\<in>set rs. o_amount r = o_amount r' + n)"
      using merge_orphan_mem [of r k "refund_lot_expiry now u led k src" n rs]
      by (auto simp: add_orphan_def)
    moreover from this(3) have "0 < o_amount r" using rs False by (auto simp: orphan_ok_def)
    ultimately show ?thesis
      using refund_lot_expiry_ok [where now = now and u = u and led = led and src = src and k = k]
      by (cases k) (simp_all add: orphan_ok_def)
  qed
qed

lemma collect_orphans_ok:
  "\<forall>r\<in>set rs. orphan_ok now r \<Longrightarrow> \<forall>r\<in>set (collect_orphans now u led ows rs). orphan_ok now r"
proof (induction ows arbitrary: rs)
  case (Cons p ows)
  obtain k e n where "p = (k, e, n)" by (cases p)
  then show ?case using Cons.IH [OF add_orphan_ok [OF Cons.prems]] by simp
qed simp

lemma collect_orphans_sum:
  "(\<Sum>r\<leftarrow>collect_orphans now u led ows rs. o_amount r) =
     (\<Sum>r\<leftarrow>rs. o_amount r) + (\<Sum>(k, e, n)\<leftarrow>ows. max 0 n)"
proof (induction ows arbitrary: rs)
  case (Cons p ows)
  then show ?case by (cases p) (simp add: add_orphan_def merge_orphan_sum)
qed simp

lemma give_back_bounds:
  "0 \<le> give_back now locked a l s" "give_back now locked a l s \<le> max 0 s"
  by (auto simp: give_back_def Let_def)

lemma sum_gives_owed:
  "(\<Sum>(i, n)\<leftarrow>gives now locked items. n) + (\<Sum>(k, e, n)\<leftarrow>owed now locked items. max 0 n) =
     (\<Sum>(al, s)\<leftarrow>items. max 0 s)"
proof (induction items)
  case (Cons p items)
  obtain a l s where p: "p = ((a, l), s)" by (cases p) auto
  have "max 0 (max 0 s - give_back now locked a l s) = max 0 s - give_back now locked a l s"
    using give_back_bounds [where now = now and locked = locked and a = a and l = l and s = s]
    by simp
  with Cons give_back_bounds [where now = now and locked = locked and a = a and l = l and s = s]
  show ?case by (auto simp: gives_def owed_def p)
qed (simp add: gives_def owed_def)

section \<open>The result of a refund\<close>

text \<open>The allocations of the debit, each with its lot and its share.\<close>

definition debit_allocs :: "nat \<Rightarrow> ledger \<Rightarrow> alloc list" where
  "debit_allocs d led = filter (\<lambda>a. a_tx a = d) (allocs led)"

definition alloc_lot :: "ledger \<Rightarrow> alloc \<Rightarrow> lot" where
  "alloc_lot led a = the (find_row l_id (a_lot a) (lots led))"

definition refund_items :: "nat \<Rightarrow> int \<Rightarrow> int \<Rightarrow> ledger \<Rightarrow> ((alloc \<times> lot) \<times> int) list" where
  "refund_items d c charged led =
     zip (map (\<lambda>a. (a, alloc_lot led a)) (debit_allocs d led))
         (refund_shares (map a_amount (debit_allocs d led)) c charged)"

lemma alloc_lot_props:
  assumes ok: "ledger_ok led" and t: "find_row t_id d (txs led) = Some t"
    and a: "a \<in> set (debit_allocs d led)"
  shows "find_row l_id (a_lot a) (lots led) = Some (alloc_lot led a)" "alloc_lot led a \<in> set (lots led)"
    "l_id (alloc_lot led a) = a_lot a" "l_user (alloc_lot led a) = t_user t"
proof -
  note inv = ledger_okD [OF ok]
  from a inv(3) obtain t' l where l: "t' \<in> set (txs led)" "t_id t' = d" "l \<in> set (lots led)"
    "l_id l = a_lot a" "t_user t' = l_user l"
    by (auto simp: debit_allocs_def allocs_ok_def)
  from find_row_SomeD [OF t] l(1,2) inv(2) have "t' = t"
    by (auto simp: txs_ok_def distinct_map inj_on_def)
  moreover have "find_row l_id (a_lot a) (lots led) = Some l"
    using find_row_unique [of l_id "lots led" l] l inv(1) by (simp add: lots_ok_def)
  ultimately show "find_row l_id (a_lot a) (lots led) = Some (alloc_lot led a)"
    "alloc_lot led a \<in> set (lots led)" "l_id (alloc_lot led a) = a_lot a"
    "l_user (alloc_lot led a) = t_user t"
    using l by (simp_all add: alloc_lot_def)
qed

lemma debit_allocs_sum:
  assumes "ledger_ok led" and "find_row t_id d (txs led) = Some t" and "t_type t = DEBIT"
  shows "(\<Sum>a\<leftarrow>debit_allocs d led. a_amount a) = t_amount t"
  using ledger_okD(4) [OF assms(1)] find_row_SomeD [OF assms(2)] assms(3)
  by (auto simp: debit_allocs_def sum_list_filter_if covered_def allocated_def)

lemma refund_items_facts:
  assumes ok: "ledger_ok led" and t: "find_row t_id d (txs led) = Some t" "t_type t = DEBIT"
    and c: "0 < c" "c \<le> t_amount t"
  shows "(\<Sum>(al, s)\<leftarrow>refund_items d c (t_amount t) led. max 0 s) = c" (is ?sum)
    and "\<forall>((a, l), s)\<in>set (refund_items d c (t_amount t) led).
           a \<in> set (debit_allocs d led) \<and> l = alloc_lot led a \<and> 0 \<le> s \<and> s \<le> a_amount a" (is ?all)
    and "distinct (map (\<lambda>((a, l), s). l_id l) (refund_items d c (t_amount t) led))" (is ?dist)
proof -
  note inv = ledger_okD [OF ok]
  let ?as = "debit_allocs d led"
  let ?sh = "refund_shares (map a_amount ?as) c (t_amount t)"
  have sum: "sum_list (map a_amount ?as) = t_amount t" by (rule debit_allocs_sum [OF ok t])
  have pos: "\<forall>x\<in>set (map a_amount ?as). 0 < x" using inv(3) by (auto simp: debit_allocs_def allocs_ok_def)
  have bound: "0 \<le> ?sh ! j \<and> ?sh ! j \<le> a_amount (?as ! j)" if "j < length ?as" for j
    using refund_shares_bound [OF c sum pos, of j] that by simp
  have "map (\<lambda>(al, s). max 0 s) (refund_items d c (t_amount t) led) = ?sh"
    by (rule nth_equalityI) (use bound in \<open>auto simp: refund_items_def\<close>)
  then show ?sum using refund_shares_sum [OF c sum] by simp
  show ?all
  proof clarify
    fix a l s
    assume "((a, l), s) \<in> set (refund_items d c (t_amount t) led)"
    then obtain j where "j < length ?as" "a = ?as ! j" "l = alloc_lot led a" "s = ?sh ! j"
      by (auto simp: refund_items_def set_zip)
    with bound [of j] show "a \<in> set ?as \<and> l = alloc_lot led a \<and> 0 \<le> s \<and> s \<le> a_amount a"
      by simp
  qed
  have "distinct (map a_lot ?as)"
    using inv(3) by (auto simp: debit_allocs_def allocs_ok_def distinct_map inj_on_def)
  moreover have "map (\<lambda>((a, l), s). l_id l) (refund_items d c (t_amount t) led) = map a_lot ?as"
    by (rule nth_equalityI)
      (use alloc_lot_props(3) [OF ok t(1)] in \<open>auto simp: refund_items_def\<close>)
  ultimately show ?dist by simp
qed

lemma gives_mem:
  assumes "(i, k) \<in> set (gives now locked items)"
  obtains a l s where "((a, l), s) \<in> set items" "i = l_id l" "k = give_back now locked a l s" "0 < k"
  using assms by (auto simp: gives_def)

lemma distinct_gives:
  assumes "distinct (map (\<lambda>((a, l), s). l_id l) items)"
  shows "distinct (map fst (gives now locked items))"
proof -
  have "map fst (map (\<lambda>((a, l), s). (l_id l, give_back now locked a l s)) items) =
      map (\<lambda>((a, l), s). l_id l) items" by auto
  with assms have "distinct (map fst (map (\<lambda>((a, l), s). (l_id l, give_back now locked a l s)) items))"
    by (simp only:)
  then show ?thesis unfolding gives_def by (rule distinct_map_filter)
qed

lemma refund_InrE:
  assumes ok: "ledger_ok led" and snap: "snapshot_for d snap led"
    and step: "refund_partial snap now d c reason led = Inr (led', tx)"
  obtains t gs rs where
    "find_row t_id d (txs led) = Some t" "t_type t = DEBIT" "0 < c" "c \<le> t_amount t"
    "\<forall>x\<in>set (txs led). t_reverses x \<noteq> Some d"
    "led' = (insert_tx (t_user t) REFUND c reason (t_scan t) (t_issue t) (Some d) None led)
       \<lparr> lots := apply_deltas gs (lots led) @
                 replacement_rows (Suc (next_id led)) now (t_user t) rs,
         allocs := allocs led @
                 drawn_allocs (next_id led) (gs @ replacement_draws (Suc (next_id led)) rs),
         next_id := Suc (next_id led) + length rs \<rparr>"
    "tx = next_id led"
    "(\<Sum>(i, k)\<leftarrow>gs. k) + (\<Sum>r\<leftarrow>rs. o_amount r) = c" "distinct (map fst gs)"
    "\<forall>(i, k)\<in>set gs. 0 < k \<and>
       (\<exists>a\<in>set (debit_allocs d led). a_lot a = i \<and> k \<le> a_amount a) \<and>
       (\<exists>l\<in>set (lots led). l_id l = i \<and> l_user l = t_user t \<and> alive now l \<and>
          l_remaining l + k \<le> l_granted l)"
    "\<forall>r\<in>set rs. orphan_ok now r"
proof -
  note inv = ledger_okD [OF ok]
  have step': "refund_partial (lots led) now d c reason led = Inr (led', tx)"
    using step refund_partial_stale [OF inv(1) inv(3) snap] by simp
  from step' obtain t where t: "find_row t_id d (txs led) = Some t" "t_type t = DEBIT"
    and c: "0 < c" "c \<le> t_amount t" and td: "t_id t = d"
    and none: "find (\<lambda>x. t_reverses x = Some d) (txs led) = None"
    by (auto simp: refund_partial_def split: option.splits if_splits prod.splits dest: find_row_SomeD)
  let ?its = "refund_items d c (t_amount t) led"
  let ?gs = "gives now (lots led) ?its"
  let ?led1 = "insert_tx (t_user t) REFUND c reason (t_scan t) (t_issue t) (Some d) None led"
  let ?rs = "collect_orphans now (t_user t) ?led1 (owed now (lots led) ?its) []"
  have own: "\<forall>a\<in>set (allocs led). a_tx a = d \<longrightarrow> a_lot a \<in> l_id ` set (lots led)"
    using snapshot_self [OF inv(3)] by (simp add: snapshot_for_def)
  have inc: "included_lots (lots led) d led = map (\<lambda>a. (a, alloc_lot led a)) (debit_allocs d led)"
    by (simp add: included_lots_eq [OF own] debit_allocs_def alloc_lot_def)
  have amounts: "map (a_amount \<circ> fst) (map (\<lambda>a. (a, alloc_lot led a)) (debit_allocs d led)) =
      map a_amount (debit_allocs d led)" by simp
  have res: "refund_partial (lots led) now d c reason led =
      Inr (create_replacements now (t_user t) (next_id led) ?rs
        (?led1\<lparr> lots := apply_deltas ?gs (lots led),
               allocs := allocs led @ drawn_allocs (next_id led) ?gs \<rparr>), next_id led)"
    using c t(2)
    by (simp only: refund_partial_def t(1) option.case td none inc Let_def amounts
        refund_items_def [symmetric] refund_walk_eq insert_tx_simps split_conv) simp
  note facts = refund_items_facts [OF ok t c]
  have gs: "0 < k \<and> (\<exists>a\<in>set (debit_allocs d led). a_lot a = i \<and> k \<le> a_amount a) \<and>
       (\<exists>l\<in>set (lots led). l_id l = i \<and> l_user l = t_user t \<and> alive now l \<and>
          l_remaining l + k \<le> l_granted l)" if "(i, k) \<in> set ?gs" for i k
  proof -
    from that obtain a l s where m: "((a, l), s) \<in> set ?its" "i = l_id l"
      "k = give_back now (lots led) a l s" "0 < k" by (rule gives_mem)
    with facts(2) have m2: "a \<in> set (debit_allocs d led)" "l = alloc_lot led a" "s \<le> a_amount a" by auto
    note al = alloc_lot_props [OF ok t(1) m2(1), folded m2(2)]
    have k: "0 < s" "alive now l" "k \<le> s" "k \<le> l_granted l - l_remaining l"
      using m(3,4) al(1) by (auto simp: give_back_def Let_def alive_def current_expiry_def
          current_remaining_def split: if_splits option.splits)
    then show ?thesis using m m2 al by fastforce
  qed
  have "\<forall>r\<in>set ?rs. orphan_ok now r" by (rule collect_orphans_ok) simp
  moreover have "(\<Sum>(i, k)\<leftarrow>?gs. k) + (\<Sum>r\<leftarrow>?rs. o_amount r) = c"
    using facts(1) by (simp add: collect_orphans_sum sum_gives_owed)
  moreover have "led' = ?led1\<lparr> lots := apply_deltas ?gs (lots led) @
        replacement_rows (Suc (next_id led)) now (t_user t) ?rs,
      allocs := allocs led @ drawn_allocs (next_id led) (?gs @ replacement_draws (Suc (next_id led)) ?rs),
      next_id := Suc (next_id led) + length ?rs \<rparr>" "tx = next_id led"
    using step' [unfolded res] by (auto simp: create_replacements_eq drawn_allocs_def)
  moreover have "\<forall>x\<in>set (txs led). t_reverses x \<noteq> Some d" using none by (auto simp: find_None_iff)
  ultimately show thesis
    using that [OF t c] gs distinct_gives [OF facts(3)] by blast
qed

end
