(* ===== verification/Refund_Ok.thy ===== *)
theory Refund_Ok
  imports Refund_Inv
begin

text \<open>
  A refund keeps the ledger well-formed, returns exactly the requested credits as spendable
  ones, and undoes a debit lot by lot when nothing happened in between.
\<close>

lemma drawn_allocs_append: "drawn_allocs tx (xs @ ys) = drawn_allocs tx xs @ drawn_allocs tx ys"
  by (simp add: drawn_allocs_def)

lemma refund_ok:
  assumes ok: "ledger_ok led" and snap: "snapshot_for d snap led"
    and step: "refund_partial snap now d c reason led = Inr (led', tx)"
  shows "ledger_ok led'"
proof -
  note inv = ledger_okD [OF ok]
  from ok snap step obtain t :: credit_tx and gs rs where
    t: "find_row t_id d (txs led) = Some t" "t_type t = DEBIT" and c: "0 < c" "c \<le> t_amount t"
    and fresh: "\<forall>x\<in>set (txs led). t_reverses x \<noteq> Some d"
    and led': "led' = (insert_tx (t_user t) REFUND c reason (t_scan t) (t_issue t) (Some d) None led)
       \<lparr> lots := apply_deltas gs (lots led) @
                 replacement_rows (Suc (next_id led)) now (t_user t) rs,
         allocs := allocs led @
                 drawn_allocs (next_id led) (gs @ replacement_draws (Suc (next_id led)) rs),
         next_id := Suc (next_id led) + length rs \<rparr>"
    and sum: "(\<Sum>(i, k)\<leftarrow>gs. k) + (\<Sum>r\<leftarrow>rs. o_amount r) = c" and dist: "distinct (map fst gs)"
    and gs: "\<forall>(i, k)\<in>set gs. 0 < k \<and>
       (\<exists>a\<in>set (debit_allocs d led). a_lot a = i \<and> k \<le> a_amount a) \<and>
       (\<exists>l\<in>set (lots led). l_id l = i \<and> l_user l = t_user t \<and> alive now l \<and>
          l_remaining l + k \<le> l_granted l)"
    and rs: "\<forall>r\<in>set rs. orphan_ok now r"
    by (rule refund_InrE)
  let ?n = "next_id led"
  let ?new = "replacement_rows (Suc ?n) now (t_user t) rs"
  let ?ds = "gs @ replacement_draws (Suc ?n) rs"
  have td: "t \<in> set (txs led)" "t_id t = d" using find_row_SomeD [OF t(1)] by auto
  have uniq_id: "l = l'" if "l \<in> set (lots led)" "l' \<in> set (lots led)" "l_id l = l_id l'" for l l'
    using inv(1) that by (auto simp: lots_ok_def distinct_map inj_on_def)
  have given: "0 \<le> delta_of gs (l_id l) \<and> l_remaining l + delta_of gs (l_id l) \<le> l_granted l"
    if l: "l \<in> set (lots led)" for l
  proof (cases "l_id l \<in> fst ` set gs")
    case True
    then obtain k where k: "(l_id l, k) \<in> set gs" by auto
    with gs obtain m where "0 < k" "m \<in> set (lots led)" "l_id m = l_id l" "l_remaining m + k \<le> l_granted m"
      by blast
    with uniq_id [of m l] l show ?thesis using delta_of_distinct [OF dist k] by simp
  next
    case False
    then show ?thesis using inv(1) l by (simp add: delta_of_absent lots_ok_def)
  qed
  have new: "0 < l_remaining l \<and> ?n < l_id l \<and> l_id l < Suc ?n + length rs \<and>
      l_remaining l = l_granted l" if "l \<in> set ?new" for l
    using replacement_rows_mem [OF that] rs by (auto simp: orphan_ok_def)
  have owner: "\<forall>(i, k)\<in>set gs. \<exists>r\<in>set (lots led). l_id r = i \<and> l_user r = t_user t"
    using gs by fastforce
  have rids: "?n < i" if "(i, k) \<in> set (replacement_draws (Suc ?n) rs)" for i k
    using replacement_draws_mem [OF that, of now "t_user t"] by simp
  have gids: "i < ?n" if "(i, k) \<in> set gs" for i k
    using owner that inv(1) by (fastforce simp: lots_ok_def)
  have oldlot: "\<exists>l'\<in>set (lots led'). l_id l' = l_id l \<and> l_user l' = l_user l"
    if "l \<in> set (lots led)" for l
  proof (intro bexI conjI)
    show "l\<lparr> l_remaining := l_remaining l + delta_of gs (l_id l) \<rparr> \<in> set (lots led')"
      using that by (simp add: led' apply_deltas_eq)
  qed simp_all
  have oldtx: "x \<in> set (txs led) \<Longrightarrow> x \<in> set (txs led')" for x by (simp add: led')
  have newtx: "\<exists>x\<in>set (txs led'). t_id x = ?n \<and> t_user x = t_user t" by (simp add: led')
  show ?thesis
  proof
    have "distinct (map l_id (lots led'))"
      using inv(1) new by (force simp: led' lots_ok_def replacement_ids)
    moreover have "l_id l < next_id led' \<and> 0 \<le> l_remaining l \<and> l_remaining l \<le> l_granted l"
      if "l \<in> set (lots led')" for l
    proof -
      from that consider "l \<in> set ?new" | m where "m \<in> set (lots led)"
        "l = m\<lparr> l_remaining := l_remaining m + delta_of gs (l_id m) \<rparr>"
        by (auto simp: led' apply_deltas_eq)
      then show ?thesis
      proof cases
        case 1
        then show ?thesis using new [OF 1] by (simp add: led')
      next
        case 2
        then show ?thesis using given [OF 2(1)] inv(1) by (fastforce simp: led' lots_ok_def)
      qed
    qed
    ultimately show "lots_ok led'" by (simp add: lots_ok_def)
    show "txs_ok led'" using inv(2) c by (fastforce simp: txs_ok_def led')
    show "allocs_ok led'"
      unfolding allocs_ok_def
    proof
      have keys: "map (\<lambda>a. (a_tx a, a_lot a)) (allocs led') =
          map (\<lambda>a. (a_tx a, a_lot a)) (allocs led) @ map (\<lambda>i. (?n, i)) (map fst ?ds)"
      proof -
        have "allocs led' = allocs led @ drawn_allocs ?n ?ds" by (simp add: led')
        then show ?thesis using drawn_allocs_keys [of ?n ?ds] by (simp only: map_append)
      qed
      have "distinct (map fst ?ds)"
        using dist gids by (fastforce simp: replacement_draw_ids)
      then have "distinct (map (\<lambda>i. (?n, i)) (map fst ?ds))"
        by (simp add: distinct_map inj_on_def del: map_map map_append)
      moreover
      have "(?n, i) \<notin> set (map (\<lambda>a. (a_tx a, a_lot a)) (allocs led))" for i
        using fresh_not_allocated [OF inv(3,2)] by fastforce
      then have "set (map (\<lambda>a. (a_tx a, a_lot a)) (allocs led)) \<inter> set (map (\<lambda>i. (?n, i)) is) = {}"
        for "is" by (auto simp del: set_map simp: in_set_conv_nth)
      moreover have "distinct (map (\<lambda>a. (a_tx a, a_lot a)) (allocs led))"
        using inv(3) by (simp add: allocs_ok_def)
      ultimately show "distinct (map (\<lambda>a. (a_tx a, a_lot a)) (allocs led'))"
        unfolding keys distinct_append by blast
      show "\<forall>a\<in>set (allocs led'). 0 < a_amount a \<and> (\<exists>t\<in>set (txs led'). \<exists>l\<in>set (lots led').
              t_id t = a_tx a \<and> l_id l = a_lot a \<and> t_user t = l_user l)"
      proof
        fix a
        assume "a \<in> set (allocs led')"
        then consider (old) "a \<in> set (allocs led)" | (give) "a_tx a = ?n" "(a_lot a, a_amount a) \<in> set gs"
          | (new) "a_tx a = ?n" "(a_lot a, a_amount a) \<in> set (replacement_draws (Suc ?n) rs)"
          by (auto simp: led' drawn_allocs_set)
        then show "0 < a_amount a \<and> (\<exists>t\<in>set (txs led'). \<exists>l\<in>set (lots led').
              t_id t = a_tx a \<and> l_id l = a_lot a \<and> t_user t = l_user l)"
        proof cases
          case old
          with inv(3) obtain x l where "0 < a_amount a" "x \<in> set (txs led)" "l \<in> set (lots led)"
            "t_id x = a_tx a" "l_id l = a_lot a" "t_user x = l_user l"
            by (auto simp: allocs_ok_def)
          with oldlot [of l] oldtx [of x] show ?thesis by metis
        next
          case give
          with gs obtain l where "0 < a_amount a" "l \<in> set (lots led)" "l_id l = a_lot a"
            "l_user l = t_user t" by blast
          with oldlot [of l] newtx give(1) show ?thesis by metis
        next
          case new
          from replacement_draws_mem [OF new(2), of now "t_user t"] obtain l r where
            l: "l \<in> set ?new" "l_id l = a_lot a" and r: "r \<in> set rs" "a_amount a = o_amount r" by auto
          have "l_user l = t_user t" using replacement_rows_mem [OF l(1)] by simp
          moreover have "l \<in> set (lots led')" using l(1) by (simp add: led')
          moreover have "0 < a_amount a" using r rs by (auto simp: orphan_ok_def)
          ultimately show ?thesis using new(1) l(2) newtx by metis
        qed
      qed
    qed
    have al: "allocated i led' = allocated i led + (if i = ?n then c else 0)" for i
      using allocated_drawn [of led' led ?n ?ds i] sum replacement_sums(1) [of "Suc ?n" rs]
      by (simp add: led')
    show "covered led'"
      using inv(4) inv(2) allocated_fresh [OF inv(3,2)]
      by (auto simp: covered_def txs_ok_def al) (auto simp: led')
    show "reversals_ok led'"
      using inv(5) td t c fresh unfolding reversals_ok_def
      by (fastforce simp: led' List.map_filter_def)
    show "balanced led'"
      unfolding balanced_def
    proof
      fix u
      have "held u led' = held u (led\<lparr> lots := apply_deltas gs (lots led) \<rparr>) +
          (if u = t_user t then (\<Sum>r\<leftarrow>rs. o_amount r) else 0)"
        by (simp add: held_def led' replacement_sums(2))
      also have "\<dots> = held u led + (if u = t_user t then c else 0)"
        using held_apply_deltas [OF _ owner] inv(1) sum by (simp add: lots_ok_def)
      also have "\<dots> = moved u led'"
        using inv(6) by (simp add: balanced_def led' moved_def signed_amount_def)
      finally show "held u led' = moved u led'" .
    qed
  qed
qed

section \<open>What the user can spend afterwards\<close>

text \<open>A batch on live lots of one user, followed by new rows, moves the spendable total.\<close>

lemma available_after_batch:
  assumes ok: "lots_ok led" "lots_ok led'"
    and lots': "lots led' = apply_deltas ds (lots led) @ new"
    and live: "\<forall>(i, d)\<in>set ds. \<exists>r\<in>set (lots led). l_id r = i \<and> l_user r = w \<and> alive now r"
  shows "total_available led' now v = total_available led now v
    + (if v = w then (\<Sum>(i, d)\<leftarrow>ds. d) else 0)
    + (\<Sum>l\<leftarrow>new. if l_user l = v \<and> alive now l then l_remaining l else 0)"
proof -
  have owned: "\<forall>(i, d)\<in>set ds. \<exists>r\<in>set (lots led). l_id r = i \<and> l_user r = w"
    using live by fastforce
  have dead: "delta_of ds (l_id l) = 0" if l: "l \<in> set (lots led)" "\<not> alive now l" for l
  proof (rule ccontr)
    assume "delta_of ds (l_id l) \<noteq> 0"
    then have "l_id l \<in> fst ` set ds" using delta_of_absent by blast
    with live obtain r where "r \<in> set (lots led)" "l_id r = l_id l" "alive now r" by fastforce
    with l ok(1) show False by (auto simp: lots_ok_def distinct_map inj_on_def)
  qed
  have "(\<Sum>l\<leftarrow>lots led. if l_user l = v then delta_of ds (l_id l) else 0) =
      held v (led\<lparr> lots := apply_deltas ds (lots led) \<rparr>) - held v led"
    unfolding held_def apply_deltas_eq
    by (simp add: o_def sum_list_subtractf [symmetric])
      (auto intro!: arg_cong [where f = sum_list] map_cong)
  also have "\<dots> = (if v = w then (\<Sum>(i, d)\<leftarrow>ds. d) else 0)"
    using held_apply_deltas [OF _ owned] ok(1) by (simp add: lots_ok_def)
  finally have moved: "(\<Sum>l\<leftarrow>lots led. if l_user l = v then delta_of ds (l_id l) else 0) =
      (if v = w then (\<Sum>(i, d)\<leftarrow>ds. d) else 0)" .
  have "(\<Sum>l\<leftarrow>apply_deltas ds (lots led). if l_user l = v \<and> alive now l then l_remaining l else 0) =
      (\<Sum>l\<leftarrow>lots led. (if l_user l = v \<and> alive now l then l_remaining l else 0) +
                     (if l_user l = v then delta_of ds (l_id l) else 0))"
    unfolding apply_deltas_eq map_map o_def
    by (intro arg_cong [where f = sum_list] map_cong) (auto simp: dead)
  then show ?thesis
    using ok moved
    by (subst (1 2) total_available_alive) (auto simp: lots_ok_def lots' sum_list_addf)
qed

lemma refund_available:
  assumes ok: "ledger_ok led" and snap: "snapshot_for d snap led"
    and step: "refund_partial snap now d c reason led = Inr (led', tx)"
    and t: "find_row t_id d (txs led) = Some t"
  shows "total_available led' now v = total_available led now v + (if v = t_user t then c else 0)"
proof -
  note ok' = refund_ok [OF ok snap step]
  from ok snap step obtain t' gs rs where
    t': "find_row t_id d (txs led) = Some t'"
    and led': "led' = (insert_tx (t_user t') REFUND c reason (t_scan t') (t_issue t') (Some d) None led)
       \<lparr> lots := apply_deltas gs (lots led) @
                 replacement_rows (Suc (next_id led)) now (t_user t') rs,
         allocs := allocs led @
                 drawn_allocs (next_id led) (gs @ replacement_draws (Suc (next_id led)) rs),
         next_id := Suc (next_id led) + length rs \<rparr>"
    and sum: "(\<Sum>(i, k)\<leftarrow>gs. k) + (\<Sum>r\<leftarrow>rs. o_amount r) = c"
    and gs: "\<forall>(i, k)\<in>set gs. 0 < k \<and>
       (\<exists>a\<in>set (debit_allocs d led). a_lot a = i \<and> k \<le> a_amount a) \<and>
       (\<exists>l\<in>set (lots led). l_id l = i \<and> l_user l = t_user t' \<and> alive now l \<and>
          l_remaining l + k \<le> l_granted l)"
    and rs: "\<forall>r\<in>set rs. orphan_ok now r"
    by (rule refund_InrE)
  let ?new = "replacement_rows (Suc (next_id led)) now (t_user t') rs"
  have tt: "t' = t" using t t' by simp
  have lv: "alive now l" if "l \<in> set ?new" for l
  proof -
    from replacement_rows_mem [OF that] obtain r where "r \<in> set rs" "l_expires l = o_expires r" by auto
    with rs have "orphan_ok now r" and e: "l_expires l = o_expires r" by auto
    then show ?thesis by (cases "o_kind r") (auto simp: alive_def orphan_ok_def split: option.splits)
  qed
  have "(\<Sum>l\<leftarrow>?new. if l_user l = v \<and> alive now l then l_remaining l else 0) =
      (\<Sum>l\<leftarrow>?new. if l_user l = v then l_remaining l else 0)"
    by (intro arg_cong [where f = sum_list] map_cong) (auto simp: lv)
  moreover have "\<forall>(i, d)\<in>set gs. \<exists>r\<in>set (lots led). l_id r = i \<and> l_user r = t_user t \<and> alive now r"
    using gs tt by fastforce
  ultimately show ?thesis
    using available_after_batch [OF ledger_okD(1) [OF ok] ledger_okD(1) [OF ok'],
        where ds = gs and new = ?new and w = "t_user t" and now = now and v = v] sum
    by (simp add: led' replacement_sums(2) tt)
qed

lemma refund_new_lots:
  assumes ok: "ledger_ok led" and snap: "snapshot_for d snap led"
    and step: "refund_partial snap now d c reason led = Inr (led', tx)"
    and l: "l \<in> set (lots led')" "l_id l \<notin> l_id ` set (lots led)"
  shows "l_source l = REFUND_LOT \<and> 0 < l_remaining l \<and>
     (case l_kind l of PURCHASED \<Rightarrow> l_expires l = None
      | PLAN \<Rightarrow> (case l_expires l of None \<Rightarrow> False | Some e \<Rightarrow> now < e))"
proof -
  from ok snap step obtain t :: credit_tx and gs rs where
    led': "led' = (insert_tx (t_user t) REFUND c reason (t_scan t) (t_issue t) (Some d) None led)
       \<lparr> lots := apply_deltas gs (lots led) @
                 replacement_rows (Suc (next_id led)) now (t_user t) rs,
         allocs := allocs led @
                 drawn_allocs (next_id led) (gs @ replacement_draws (Suc (next_id led)) rs),
         next_id := Suc (next_id led) + length rs \<rparr>"
    and rs: "\<forall>r\<in>set rs. orphan_ok now r"
    by (rule refund_InrE)
  from l have "l \<in> set (replacement_rows (Suc (next_id led)) now (t_user t) rs)"
    by (force simp: led' apply_deltas_eq)
  from replacement_rows_mem [OF this] obtain r where
    "r \<in> set rs" and l: "l_source l = REFUND_LOT" "l_remaining l = o_amount r"
      "l_kind l = o_kind r" "l_expires l = o_expires r" by auto
  with rs have "orphan_ok now r" by blast
  then show ?thesis by (cases "o_kind r") (simp_all add: orphan_ok_def l)
qed

lemma refund_old_lots:
  assumes ok: "ledger_ok led" and snap: "snapshot_for d snap led"
    and step: "refund_partial snap now d c reason led = Inr (led', tx)"
    and l: "l \<in> set (lots led)"
  shows "\<exists>k\<ge>0. l\<lparr> l_remaining := l_remaining l + k \<rparr> \<in> set (lots led') \<and>
     (0 < k \<longrightarrow> alive now l \<and> (\<exists>a\<in>set (allocs led). a_tx a = d \<and> a_lot a = l_id l \<and> k \<le> a_amount a))"
proof -
  from ok snap step obtain t :: credit_tx and gs rs where
    led': "led' = (insert_tx (t_user t) REFUND c reason (t_scan t) (t_issue t) (Some d) None led)
       \<lparr> lots := apply_deltas gs (lots led) @
                 replacement_rows (Suc (next_id led)) now (t_user t) rs,
         allocs := allocs led @
                 drawn_allocs (next_id led) (gs @ replacement_draws (Suc (next_id led)) rs),
         next_id := Suc (next_id led) + length rs \<rparr>" and dist: "distinct (map fst gs)"
    and gs: "\<forall>(i, k)\<in>set gs. 0 < k \<and>
       (\<exists>a\<in>set (debit_allocs d led). a_lot a = i \<and> k \<le> a_amount a) \<and>
       (\<exists>l\<in>set (lots led). l_id l = i \<and> l_user l = t_user t \<and> alive now l \<and>
          l_remaining l + k \<le> l_granted l)"
    by (rule refund_InrE)
  have mem: "l\<lparr> l_remaining := l_remaining l + delta_of gs (l_id l) \<rparr> \<in> set (lots led')"
    using l by (auto simp: led' apply_deltas_eq)
  show ?thesis
  proof (cases "l_id l \<in> fst ` set gs")
    case True
    then obtain k where k: "(l_id l, k) \<in> set gs" by auto
    with gs obtain m a where m: "0 < k" "m \<in> set (lots led)" "l_id m = l_id l" "alive now m"
      "a \<in> set (debit_allocs d led)" "a_lot a = l_id l" "k \<le> a_amount a" by blast
    then have "m = l" using ledger_okD(1) [OF ok] l by (auto simp: lots_ok_def distinct_map inj_on_def)
    with m mem delta_of_distinct [OF dist k] show ?thesis
      by (intro exI [of _ k]) (auto simp: debit_allocs_def)
  next
    case False
    then show ?thesis using mem by (intro exI [of _ 0]) (simp add: delta_of_absent)
  qed
qed

lemma refund_permanent:
  assumes "permanent led" and "ledger_ok led" and "snapshot_for d snap led"
    and "refund_partial snap now d c reason led = Inr (led', tx)"
  shows "permanent led'"
proof -
  from assms(2-4) obtain t :: credit_tx and gs rs where
    led': "led' = (insert_tx (t_user t) REFUND c reason (t_scan t) (t_issue t) (Some d) None led)
       \<lparr> lots := apply_deltas gs (lots led) @
                 replacement_rows (Suc (next_id led)) now (t_user t) rs,
         allocs := allocs led @
                 drawn_allocs (next_id led) (gs @ replacement_draws (Suc (next_id led)) rs),
         next_id := Suc (next_id led) + length rs \<rparr>"
    and rs: "\<forall>r\<in>set rs. orphan_ok now r"
    by (rule refund_InrE)
  show ?thesis
    using assms(1) rs unfolding permanent_def
    by (auto simp: led' apply_deltas_eq orphan_ok_def dest!: replacement_rows_mem)
qed

end
