(* ===== verification/Expiry.thy ===== *)
theory Expiry
  imports Refund_Ok
begin

text \<open>
  The renewal sweep, \<^verbatim>\<open>apps/api/src/services/credits/expiry.ts\<close>.  \<open>as_of\<close> is the sweep's
  instant and \<open>wall\<close> the clock; a sweep at a renewal boundary has \<open>as_of\<close> ahead of \<open>wall\<close>.
\<close>

definition swept :: "user_id \<Rightarrow> millis \<Rightarrow> lot \<Rightarrow> bool" where
  "swept u as_of l \<longleftrightarrow> l_user l = u \<and> 0 < l_remaining l \<and>
     (case l_expires l of None \<Rightarrow> False | Some e \<Rightarrow> e \<le> as_of)"

definition expire_renewed_lots ::
  "millis \<Rightarrow> user_id \<Rightarrow> millis \<Rightarrow> ledger \<Rightarrow> credit_error + (ledger \<times> (nat \<times> int))" where
  "expire_renewed_lots wall u as_of led =
     (let dead = sort_key l_id (filter (swept u as_of) (lots led)) in
      if length dead = 0 then Inr (led, (0, 0))
      else
        let destroyed = foldl (\<lambda>n l. n + l_remaining l) 0 dead;
            ids = map l_id dead;
            zeroed = map (\<lambda>l. if l_id l \<in> set ids then l\<lparr> l_remaining := 0 \<rparr> else l) (lots led);
            dead_at = min as_of wall;
            clamped = map (\<lambda>l. if l_id l \<in> set ids \<and>
                                 (case l_expires l of None \<Rightarrow> False | Some e \<Rightarrow> dead_at < e)
                               then l\<lparr> l_expires := Some dead_at \<rparr> else l) zeroed
        in Inr (insert_tx u EXPIRE destroyed ''expire:renewal'' None None None None
                  (led\<lparr> lots := clamped \<rparr>), (length dead, destroyed)))"

definition credits_expiring_before :: "ledger \<Rightarrow> user_id \<Rightarrow> millis \<Rightarrow> int" where
  "credits_expiring_before led u boundary =
     foldl (\<lambda>n l. n + l_remaining l) 0 (filter (swept u boundary) (lots led))"

section \<open>The sweep in closed form\<close>

definition bury :: "millis \<Rightarrow> lot \<Rightarrow> lot" where
  "bury dead_at l = l\<lparr> l_remaining := 0,
     l_expires := (case l_expires l of None \<Rightarrow> None | Some e \<Rightarrow> Some (min e dead_at)) \<rparr>"

lemma bury_simps [simp]:
  "l_id (bury t l) = l_id l" "l_user (bury t l) = l_user l" "l_kind (bury t l) = l_kind l"
  "l_granted (bury t l) = l_granted l" "l_remaining (bury t l) = 0" "l_source (bury t l) = l_source l"
  "l_created (bury t l) = l_created l"
  "l_expires (bury t l) = (case l_expires l of None \<Rightarrow> None | Some e \<Rightarrow> Some (min e t))"
  by (simp_all add: bury_def)

lemma expire_eq:
  assumes ok: "lots_ok led"
  shows "expire_renewed_lots wall u as_of led =
     (let dead = filter (swept u as_of) (lots led) in
      if dead = [] then Inr (led, (0, 0))
      else Inr (insert_tx u EXPIRE (credits_expiring_before led u as_of) ''expire:renewal''
                  None None None None
                  (led\<lparr> lots := map (\<lambda>l. if swept u as_of l then bury (min as_of wall) l else l)
                                (lots led) \<rparr>),
                (length dead, credits_expiring_before led u as_of)))"
proof -
  let ?dead = "filter (swept u as_of) (lots led)"
  have ids: "(l_id l \<in> l_id ` {x \<in> set (lots led). swept u as_of x}) = swept u as_of l"
    if "l \<in> set (lots led)" for l
    using ok that by (auto simp: lots_ok_def distinct_map inj_on_def)
  have sum: "foldl (\<lambda>n l. n + l_remaining l) 0 (sort_key l_id ?dead) =
      credits_expiring_before led u as_of"
    unfolding credits_expiring_before_def foldl_remaining
    using sum_list_mset_cong [of "sort_key l_id ?dead" ?dead l_remaining] by simp
  have empty: "(length (sort_key l_id ?dead) = 0) = (?dead = [])" by simp
  have rows: "map ((\<lambda>l. if l_id l \<in> l_id ` {x \<in> set (lots led). swept u as_of x} \<and>
          (case l_expires l of None \<Rightarrow> False | Some e \<Rightarrow> min as_of wall < e)
        then l\<lparr> l_expires := Some (min as_of wall) \<rparr> else l) \<circ>
      (\<lambda>l. if l_id l \<in> l_id ` {x \<in> set (lots led). swept u as_of x}
           then l\<lparr> l_remaining := 0 \<rparr> else l)) (lots led) =
    map (\<lambda>l. if swept u as_of l then bury (min as_of wall) l else l) (lots led)"
    by (rule map_cong) (auto simp: ids bury_def min_def split: option.splits)
  show ?thesis
    unfolding expire_renewed_lots_def Let_def empty
    using sum rows by simp
qed

lemma sum_swept:
  "(\<Sum>l\<leftarrow>rows. if l_user l = v then l_remaining (if swept u as_of l then bury t l else l) else 0) =
   (\<Sum>l\<leftarrow>rows. if l_user l = v then l_remaining l else 0) -
   (if v = u then (\<Sum>l\<leftarrow>filter (swept u as_of) rows. l_remaining l) else 0)"
  by (induction rows) (auto simp: swept_def)

lemma expiring_eq:
  "credits_expiring_before led u b = (\<Sum>l\<leftarrow>filter (swept u b) (lots led). l_remaining l)"
  by (simp add: credits_expiring_before_def foldl_remaining)

lemma expiring_pos: "filter (swept u b) (lots led) \<noteq> [] \<Longrightarrow> 0 < credits_expiring_before led u b"
proof -
  assume "filter (swept u b) (lots led) \<noteq> []"
  then obtain l where l: "l \<in> set (filter (swept u b) (lots led))" by (meson list.set_sel(1))
  then have "0 < l_remaining l" by (simp add: swept_def)
  also have "l_remaining l \<le> credits_expiring_before led u b"
    unfolding expiring_eq by (rule member_le_sum_list_int [OF _ l]) (auto simp: swept_def)
  finally show ?thesis .
qed

lemma expire_InrE:
  assumes "lots_ok led" and "expire_renewed_lots wall u as_of led = Inr (led', n, c)"
  obtains (none) "filter (swept u as_of) (lots led) = []" "led' = led" "n = 0" "c = 0"
  | (some) "filter (swept u as_of) (lots led) \<noteq> []" "c = credits_expiring_before led u as_of"
      "0 < c" "n = length (filter (swept u as_of) (lots led))"
      "led' = insert_tx u EXPIRE c ''expire:renewal'' None None None None
         (led\<lparr> lots := map (\<lambda>l. if swept u as_of l then bury (min as_of wall) l else l) (lots led) \<rparr>)"
  using assms(2) expiring_pos [of u as_of led]
  by (auto simp: expire_eq [OF assms(1)] Let_def split: if_splits)

lemma expire_ok:
  assumes ok: "ledger_ok led" and step: "expire_renewed_lots wall u as_of led = Inr (led', r)"
  shows "ledger_ok led'"
proof -
  note inv = ledger_okD [OF ok]
  obtain n c where r: "r = (n, c)" by (cases r)
  let ?f = "\<lambda>l. if swept u as_of l then bury (min as_of wall) l else l"
  from inv(1) step [unfolded r] show ?thesis
  proof (cases rule: expire_InrE)
    case some
    let ?mid = "led\<lparr> lots := map ?f (lots led) \<rparr>"
    have ids: "map l_id (map ?f (lots led)) = map l_id (lots led)" by auto
    have "distinct (map l_id (lots ?mid))" using inv(1) ids by (simp add: lots_ok_def del: map_map)
    then have "lots_ok ?mid" using inv(1) unfolding lots_ok_def by (fastforce simp del: map_map)
    moreover have "txs_ok ?mid" "covered ?mid" "reversals_ok ?mid"
      using inv by (simp_all add: txs_ok_def covered_def reversals_ok_def allocated_def)
    moreover have "allocs_ok ?mid"
    proof -
      have "\<exists>l'\<in>set (lots ?mid). l_id l' = l_id l \<and> l_user l' = l_user l" if "l \<in> set (lots led)" for l
        using that by (intro bexI [of _ "?f l"]) auto
      with inv(3) show ?thesis unfolding allocs_ok_def by simp metis
    qed
    moreover have "held v led' = moved v led'" for v
    proof -
      have "held v led' = held v led - (if v = u then c else 0)"
        unfolding held_def some(5) some(2) expiring_eq using sum_swept [of v u as_of _ "lots led"]
        by (simp add: o_def if_distrib [of l_user] cong: if_cong)
      moreover have "moved v led' = moved v led - (if v = u then c else 0)"
        by (simp add: some(5) moved_def signed_amount_def)
      ultimately show ?thesis using inv(6) by (simp add: balanced_def)
    qed
    ultimately show ?thesis unfolding some(5) using some(3)
      by (intro ledger_okI inv_intros) (simp_all add: balanced_def some(5))
  qed (use ok in simp)
qed

text \<open>The row a lot becomes: buried if swept, untouched otherwise.\<close>

lemma expire_rows:
  assumes "lots_ok led" and "expire_renewed_lots wall u as_of led = Inr (led', r)"
  shows "lots led' = map (\<lambda>l. if swept u as_of l then bury (min as_of wall) l else l) (lots led)"
proof -
  obtain n c where r: "r = (n, c)" by (cases r)
  from assms [unfolded r] show ?thesis
  proof (cases rule: expire_InrE)
    case none
    then have "\<not> swept u as_of l" if "l \<in> set (lots led)" for l
      using that by (auto simp: filter_empty_conv)
    then show ?thesis using none(2) by (simp add: map_idI)
  qed simp
qed

lemma expire_permanent:
  assumes "permanent led" and "lots_ok led" and "expire_renewed_lots wall u as_of led = Inr (led', r)"
  shows "permanent led'"
  using assms(1) unfolding permanent_def expire_rows [OF assms(2,3)] by auto

lemma swept_buried_dead:
  assumes "lots_ok led" and "expire_renewed_lots wall u as_of led = Inr (led', r)"
    and "l' \<in> set (lots led')" and "l_id l' = l_id l" and "l \<in> set (lots led)" and "swept u as_of l"
    and "wall \<le> now"
  shows "l_remaining l' = 0 \<and> \<not> alive now l'"
proof -
  from assms(1) expire_rows [OF assms(1,2)] assms(3-5) have "l' = bury (min as_of wall) l"
    using assms(6) by (auto simp: lots_ok_def distinct_map inj_on_def split: if_splits)
  with assms(6,7) show ?thesis by (auto simp: alive_def swept_def split: option.splits)
qed

section \<open>Reading earlier: the ledger only grows\<close>

text \<open>
  What every operation keeps of the rows already there.  It makes an earlier read of the lots a
  \<open>snapshot_for\<close> every debit that existed then.
\<close>

definition later :: "ledger \<Rightarrow> ledger \<Rightarrow> bool" where
  "later led led' \<longleftrightarrow> next_id led \<le> next_id led' \<and>
     (\<forall>s\<in>set (lots led). \<exists>l\<in>set (lots led'). same_lot s l) \<and>
     (\<exists>new. allocs led' = allocs led @ new \<and> (\<forall>a\<in>set new. next_id led \<le> a_tx a)) \<and>
     (\<exists>new. txs led' = txs led @ new)"

lemma same_lot_trans: "same_lot a b \<Longrightarrow> same_lot b c \<Longrightarrow> same_lot a c"
  by (auto simp: same_lot_def)

lemma same_lot_refl [simp]: "same_lot a a"
  by (simp add: same_lot_def)

lemma later_refl [simp]: "later led led"
  by (auto simp: later_def intro: same_lot_refl)

lemma later_trans:
  assumes "later a b" and "later b c"
  shows "later a c"
proof -
  from assms(1) obtain n1 m1 where 1: "next_id a \<le> next_id b"
    "\<forall>s\<in>set (lots a). \<exists>l\<in>set (lots b). same_lot s l" "allocs b = allocs a @ n1"
    "\<forall>x\<in>set n1. next_id a \<le> a_tx x" "txs b = txs a @ m1" by (auto simp: later_def)
  from assms(2) obtain n2 m2 where 2: "next_id b \<le> next_id c"
    "\<forall>s\<in>set (lots b). \<exists>l\<in>set (lots c). same_lot s l" "allocs c = allocs b @ n2"
    "\<forall>x\<in>set n2. next_id b \<le> a_tx x" "txs c = txs b @ m2" by (auto simp: later_def)
  show ?thesis
    unfolding later_def
  proof (intro conjI exI [of _ "n1 @ n2"] exI [of _ "m1 @ m2"])
    show "\<forall>s\<in>set (lots a). \<exists>l\<in>set (lots c). same_lot s l"
      using 1(2) 2(2) same_lot_trans by meson
  qed (use 1 2 in auto)
qed

lemma later_snapshot:
  assumes "later led led'" and "allocs_ok led" and "d < next_id led"
  shows "snapshot_for d (lots led) led'"
  unfolding snapshot_for_def
proof (intro conjI ballI impI)
  show "\<And>s. s \<in> set (lots led) \<Longrightarrow> \<exists>l\<in>set (lots led'). same_lot s l"
    using assms(1) by (simp add: later_def)
  fix a
  assume "a \<in> set (allocs led')" and "a_tx a = d"
  with assms(1,3) have "a \<in> set (allocs led)" by (fastforce simp: later_def)
  with assms(2) show "a_lot a \<in> l_id ` set (lots led)" by (force simp: allocs_ok_def)
qed

lemma same_lot_delta: "same_lot l (l\<lparr> l_remaining := n \<rparr>)"
  by (simp add: same_lot_def)

lemma later_batch:
  assumes "lots led' = apply_deltas ds (lots led) @ rows" and "allocs led' = allocs led @ drawn_allocs (next_id led) es"
    and "next_id led \<le> next_id led'" and "txs led' = txs led @ ts"
  shows "later led led'"
proof -
  have "\<exists>l\<in>set (lots led'). same_lot s l" if "s \<in> set (lots led)" for s
    using that same_lot_delta [of s "l_remaining s + delta_of ds (l_id s)"]
    by (auto simp: assms(1) apply_deltas_eq)
  moreover have "\<forall>a\<in>set (drawn_allocs (next_id led) es). next_id led \<le> a_tx a"
    by (simp add: drawn_allocs_set)
  ultimately show ?thesis using assms(2-4) by (auto simp: later_def)
qed

lemma later_debit:
  assumes "lots_ok led" and "debit now inp led = Inr (led', r)"
  shows "later led led'"
  using assms(2,1) by (rule debit_InrE) (auto intro!: later_batch [where rows = "[]"])

lemma later_refund:
  assumes "ledger_ok led" and "snapshot_for d snap led"
    and "refund_partial snap now d c reason led = Inr (led', r)"
  shows "later led led'"
  using assms by (rule refund_InrE) (auto intro!: later_batch)

lemma later_grant:
  assumes "grant_lot now inp led = Inr (led', r)"
  shows "later led led'"
  using assms by (rule grant_lot_InrD) (auto simp: later_def intro: same_lot_refl)

lemma later_audit [simp]: "later led (led'\<lparr> audit_rows := a \<rparr>) = later led led'"
  by (simp add: later_def)

lemma later_adjust:
  assumes "adjust_credits now inp led = Inr (led', r)"
  shows "later led led'"
  using assms by (rule adjust_credits_InrD) (auto intro: later_grant)

lemma later_expire:
  assumes ok: "lots_ok led" and step: "expire_renewed_lots wall u as_of led = Inr (led', r)"
  shows "later led led'"
proof -
  obtain n c where r: "r = (n, c)" by (cases r)
  have "\<exists>l\<in>set (lots led'). same_lot s l" if "s \<in> set (lots led)" for s
    using that unfolding expire_rows [OF assms]
    by (intro bexI [of _ "if swept u as_of s then bury (min as_of wall) s else s"])
      (auto simp: same_lot_def split: option.splits)
  with ok step [unfolded r] show ?thesis
    by (cases rule: expire_InrE) (auto simp: later_def)
qed

end
