(* ===== verification/Retry.thy ===== *)
theory Retry
  imports Prelude
begin

text \<open>
  Bounded retry of a transaction that lost a conflict, \<^verbatim>\<open>apps/api/src/db/retry.ts\<close>.  The
  transaction is a function of the attempt number and the database: which attempts conflict is
  decided outside.  The jittered delay between attempts changes no state and is left out.
\<close>

text \<open>A caught value: an object with optional string \<open>code\<close> and \<open>message\<close>, or anything else.\<close>

datatype caught = Thrown_Other | Thrown (err_code: "string option") (err_message: "string option")

definition retryable_states :: "string list" where
  "retryable_states = [''40001'', ''40P01'']"

definition max_attempts :: nat where "max_attempts = 5"

definition js_includes :: "string \<Rightarrow> string \<Rightarrow> bool" where
  "js_includes s sub \<longleftrightarrow> list_ex (\<lambda>i. take (length sub) (drop i s) = sub) [0..<Suc (length s)]"

fun is_retryable :: "caught \<Rightarrow> bool" where
  "is_retryable Thrown_Other = False"
| "is_retryable (Thrown code msg) =
     (if (case code of Some c \<Rightarrow> c \<in> set retryable_states | None \<Rightarrow> False) then True
      else case msg of Some m \<Rightarrow> list_ex (\<lambda>c. js_includes m c) retryable_states | None \<Rightarrow> False)"

datatype 'e retry_error = Rethrown 'e | StillConflicting string nat "'e option"

text \<open>The loop from \<open>attempt\<close> with \<open>fuel\<close> attempts left; \<open>max_attempts\<close> of them at most.\<close>

fun retry_from ::
  "(nat \<Rightarrow> 's \<Rightarrow> (caught + 'a) \<times> 's) \<Rightarrow> string \<Rightarrow> nat \<Rightarrow> nat \<Rightarrow> caught option \<Rightarrow> 's \<Rightarrow>
   (caught retry_error + 'a) \<times> 's" where
  "retry_from fn label attempt 0 lst s = (Inl (StillConflicting label max_attempts lst), s)"
| "retry_from fn label attempt (Suc fuel) lst s =
     (case fn attempt s of
        (Inr v, s') \<Rightarrow> (Inr v, s')
      | (Inl e, s') \<Rightarrow>
          if \<not> is_retryable e then (Inl (Rethrown e), s')
          else retry_from fn label (Suc attempt) fuel (Some e) s')"

definition with_retry ::
  "(nat \<Rightarrow> 's \<Rightarrow> (caught + 'a) \<times> 's) \<Rightarrow> string \<Rightarrow> 's \<Rightarrow> (caught retry_error + 'a) \<times> 's" where
  "with_retry fn label s = retry_from fn label 1 max_attempts None s"

text \<open>
  A transaction is atomic: an attempt that throws leaves the database as it was.  Then the
  retried transaction is its first attempt that does not conflict.
\<close>

definition atomic_attempts :: "(nat \<Rightarrow> 's \<Rightarrow> (caught + 'a) \<times> 's) \<Rightarrow> bool" where
  "atomic_attempts fn \<longleftrightarrow> (\<forall>i s e s'. fn i s = (Inl e, s') \<longrightarrow> s' = s)"

definition conflicts :: "(nat \<Rightarrow> 's \<Rightarrow> (caught + 'a) \<times> 's) \<Rightarrow> 's \<Rightarrow> nat \<Rightarrow> bool" where
  "conflicts fn s i \<longleftrightarrow> (case fst (fn i s) of Inl e \<Rightarrow> is_retryable e | Inr v \<Rightarrow> False)"

lemma retry_from_first:
  assumes "atomic_attempts fn"
    and "\<forall>i. attempt \<le> i \<and> i < k \<longrightarrow> conflicts fn s i" and "\<not> conflicts fn s k"
    and "attempt \<le> k" and "k < attempt + fuel"
  shows "retry_from fn label attempt fuel lst s =
     (case fn k s of (Inr v, s') \<Rightarrow> (Inr v, s') | (Inl e, s') \<Rightarrow> (Inl (Rethrown e), s'))"
  using assms(2-)
proof (induction fuel arbitrary: attempt lst)
  case (Suc fuel)
  show ?case
  proof (cases "attempt = k")
    case True
    with Suc.prems(2) show ?thesis
      by (auto simp: conflicts_def split: prod.splits sum.splits)
  next
    case False
    with Suc.prems have "conflicts fn s attempt" by simp
    then obtain e s' where e: "fn attempt s = (Inl e, s')" "is_retryable e"
      by (auto simp: conflicts_def split: sum.splits) (metis prod.collapse)
    with assms(1) have "s' = s" by (auto simp: atomic_attempts_def)
    with e Suc.IH [of "Suc attempt" "Some e"] Suc.prems False show ?thesis by auto
  qed
qed simp

lemma retry_from_exhausted:
  assumes "atomic_attempts fn" and "\<forall>i. attempt \<le> i \<and> i < attempt + fuel \<longrightarrow> conflicts fn s i"
  shows "\<exists>e. retry_from fn label attempt fuel lst s = (Inl (StillConflicting label max_attempts e), s)"
  using assms(2)
proof (induction fuel arbitrary: attempt lst)
  case (Suc fuel)
  then have "conflicts fn s attempt" by simp
  then obtain e s' where e: "fn attempt s = (Inl e, s')" "is_retryable e"
    by (auto simp: conflicts_def split: sum.splits) (metis prod.collapse)
  with assms(1) have "s' = s" by (auto simp: atomic_attempts_def)
  with e Suc.IH [of "Suc attempt" "Some e"] Suc.prems show ?case by auto
qed simp

text \<open>Whatever an attempt keeps, the retried transaction keeps.\<close>

lemma retry_from_invariant:
  assumes "\<And>i s. P s \<Longrightarrow> P (snd (fn i s))" and "P s"
  shows "P (snd (retry_from fn label attempt fuel lst s))"
  using assms(2)
proof (induction fuel arbitrary: attempt lst s)
  case (Suc fuel)
  show ?case
  proof (cases "fn attempt s")
    case (Pair r s')
    with assms(1) [OF Suc.prems, of attempt] have "P s'" by simp
    with Suc.IH Pair show ?thesis by (cases r) auto
  qed
qed simp

lemma with_retry_invariant:
  "(\<And>i s. P s \<Longrightarrow> P (snd (fn i s))) \<Longrightarrow> P s \<Longrightarrow> P (snd (with_retry fn label s))"
  by (simp add: with_retry_def retry_from_invariant)

end
