(* ===== verification/Ledger_System.thy ===== *)
theory Ledger_System
  imports Expiry Retry
begin

text \<open>
  The credit service as a whole: any sequence of its operations, each a retried transaction,
  each refund reading its allocations from an earlier state of the database than the one it
  commits on.  The contract every operation meets is the locale \<open>ledger_operation\<close>; the runs of
  the service are built on its interpretations.
\<close>

section \<open>The contract of an operation\<close>

locale ledger_operation =
  fixes op :: "ledger \<Rightarrow> credit_error + (ledger \<times> 'r)"
    and pre :: "ledger \<Rightarrow> bool"
  assumes keeps_ok: "ledger_ok led \<Longrightarrow> pre led \<Longrightarrow> op led = Inr (led', r) \<Longrightarrow> ledger_ok led'"
    and grows: "ledger_ok led \<Longrightarrow> pre led \<Longrightarrow> op led = Inr (led', r) \<Longrightarrow> later led led'"
begin

lemma keeps_snapshots:
  assumes "ledger_ok led" and "pre led" and "op led = Inr (led', r)" and "ledger_ok old"
    and "later old led" and "d < next_id old"
  shows "snapshot_for d (lots old) led'"
  using assms grows ledger_okD(3) later_snapshot later_trans by meson

end

text \<open>An operation that also never gives a purchased credit an expiry.\<close>

locale permanent_operation = ledger_operation +
  assumes keeps_permanent:
    "ledger_ok led \<Longrightarrow> pre led \<Longrightarrow> permanent led \<Longrightarrow> op led = Inr (led', r) \<Longrightarrow> permanent led'"
begin

lemma keeps_both:
  "ledger_ok led \<and> permanent led \<Longrightarrow> pre led \<Longrightarrow> op led = Inr (led', r) \<Longrightarrow>
   ledger_ok led' \<and> permanent led'"
  using keeps_ok keeps_permanent by blast

end

interpretation grant: ledger_operation "grant_lot now inp" "\<lambda>_. True" for now inp
  by unfold_locales (auto intro: grant_lot_ok later_grant)

interpretation free: permanent_operation "grant_free_allocation now u" "\<lambda>_. True" for now u
  by unfold_locales
    (auto simp: grant_free_allocation_def intro: grant_lot_ok later_grant
      dest: grant_lot_permanent [rotated 2])

interpretation adjust: permanent_operation "adjust_credits now inp" "\<lambda>_. True" for now inp
  by unfold_locales (auto intro: adjust_credits_ok later_adjust adjust_credits_permanent)

interpretation debit: permanent_operation "debit now inp" "\<lambda>_. True" for now inp
  by unfold_locales (auto intro: debit_ok later_debit debit_permanent dest: ledger_okD)

interpretation refunding: permanent_operation "refund_partial snap now d c reason" "snapshot_for d snap"
  for snap now d c reason
  by unfold_locales (auto intro: refund_ok later_refund refund_permanent)

interpretation expire: permanent_operation "expire_renewed_lots wall u as_of" "\<lambda>_. True" for wall u as_of
  by unfold_locales (auto intro: expire_ok later_expire expire_permanent dest: ledger_okD)

section \<open>Runs of the service\<close>

datatype ledger_cmd =
    Grant_Cmd grant_input
  | Free_Cmd user_id
  | Adjust_Cmd adjust_input
  | Debit_Cmd debit_input
  | Refund_Partial_Cmd nat nat int string
  | Refund_Cmd nat nat string
  | Expire_Cmd user_id millis

text \<open>
  The service's states are the committed ledgers, newest first.  A refund names how many commits
  old its unlocked read is; the debit has to be there to be found by that read.
\<close>

definition discard_result :: "credit_error + (ledger \<times> 'r) \<Rightarrow> credit_error + ledger" where
  "discard_result r = (case r of Inl e \<Rightarrow> Inl e | Inr (led, _) \<Rightarrow> Inr led)"

definition read_debit :: "nat \<Rightarrow> ledger list \<Rightarrow> nat \<Rightarrow> ledger option" where
  "read_debit age hist d =
     (if age < length hist \<and> d \<in> t_id ` set (txs (hist ! age)) then Some (hist ! age) else None)"

fun exec_cmd :: "millis \<Rightarrow> ledger_cmd \<Rightarrow> ledger list \<Rightarrow> credit_error + ledger" where
  "exec_cmd now (Grant_Cmd inp) hist = discard_result (grant_lot now inp (hd hist))"
| "exec_cmd now (Free_Cmd u) hist = discard_result (grant_free_allocation now u (hd hist))"
| "exec_cmd now (Adjust_Cmd inp) hist = discard_result (adjust_credits now inp (hd hist))"
| "exec_cmd now (Debit_Cmd inp) hist = discard_result (debit now inp (hd hist))"
| "exec_cmd now (Refund_Partial_Cmd age d c reason) hist =
     (case read_debit age hist d of
        None \<Rightarrow> Inl no_such_transaction
      | Some old \<Rightarrow> discard_result (refund_partial (lots old) now d c reason (hd hist)))"
| "exec_cmd now (Refund_Cmd age d reason) hist =
     (case read_debit age hist d of
        None \<Rightarrow> Inl no_such_transaction
      | Some old \<Rightarrow> discard_result (refund (lots old) now d reason (hd hist)))"
| "exec_cmd now (Expire_Cmd u as_of) hist =
     discard_result (expire_renewed_lots now u as_of (hd hist))"

text \<open>A command that throws commits nothing.\<close>

fun run_service :: "(millis \<times> ledger_cmd) list \<Rightarrow> ledger list \<Rightarrow> ledger list" where
  "run_service [] hist = hist"
| "run_service ((now, cmd) # cmds) hist =
     run_service cmds (case exec_cmd now cmd hist of Inl e \<Rightarrow> hist | Inr led \<Rightarrow> led # hist)"

definition history_ok :: "ledger list \<Rightarrow> bool" where
  "history_ok hist \<longleftrightarrow> hist \<noteq> [] \<and> (\<forall>led\<in>set hist. ledger_ok led \<and> later led (hd hist))"

lemma discard_InrE:
  assumes "discard_result r = Inr led"
  obtains x where "r = Inr (led, x)"
  using assms by (auto simp: discard_result_def split: sum.splits)

lemma history_snapshot:
  assumes "history_ok hist" and "read_debit age hist d = Some old"
  shows "snapshot_for d (lots old) (hd hist)"
proof -
  from assms(2) have old: "old \<in> set hist" "d \<in> t_id ` set (txs old)"
    by (auto simp: read_debit_def split: if_splits)
  with assms(1) have "ledger_ok old" "later old (hd hist)" by (auto simp: history_ok_def)
  with old(2) show ?thesis
    by (intro later_snapshot) (auto dest: ledger_okD simp: ledger_ok_def txs_ok_def)
qed

lemma refund_as_partial:
  assumes "refund snap now d reason led = Inr (led', r)"
  shows "\<exists>c. refund_partial snap now d c reason led = Inr (led', r)"
  using assms by (auto simp: refund_def split: option.splits if_splits list.splits)

lemma exec_keeps:
  assumes hist: "history_ok hist" and step: "exec_cmd now cmd hist = Inr led'"
  shows "ledger_ok led' \<and> later (hd hist) led'"
proof -
  from hist have ok: "ledger_ok (hd hist)" by (simp add: history_ok_def)
  show ?thesis
  proof (cases cmd)
    case (Grant_Cmd inp)
    with step grant.keeps_ok [OF ok] grant.grows [OF ok] show ?thesis by (auto elim!: discard_InrE)
  next
    case (Free_Cmd u)
    with step free.keeps_ok [OF ok] free.grows [OF ok] show ?thesis by (auto elim!: discard_InrE)
  next
    case (Adjust_Cmd inp)
    with step adjust.keeps_ok [OF ok] adjust.grows [OF ok] show ?thesis by (auto elim!: discard_InrE)
  next
    case (Debit_Cmd inp)
    with step debit.keeps_ok [OF ok] debit.grows [OF ok] show ?thesis by (auto elim!: discard_InrE)
  next
    case (Refund_Partial_Cmd age d c reason)
    with step obtain old r where "read_debit age hist d = Some old"
      "refund_partial (lots old) now d c reason (hd hist) = Inr (led', r)"
      by (auto elim!: discard_InrE split: option.splits)
    with refunding.keeps_ok [OF ok] refunding.grows [OF ok] history_snapshot [OF hist]
    show ?thesis by blast
  next
    case (Refund_Cmd age d reason)
    with step obtain old r where old: "read_debit age hist d = Some old"
      and "refund (lots old) now d reason (hd hist) = Inr (led', r)"
      by (auto elim!: discard_InrE split: option.splits)
    then obtain c where "refund_partial (lots old) now d c reason (hd hist) = Inr (led', r)"
      using refund_as_partial by blast
    with old refunding.keeps_ok [OF ok] refunding.grows [OF ok] history_snapshot [OF hist]
    show ?thesis by blast
  next
    case (Expire_Cmd u as_of)
    with step expire.keeps_ok [OF ok] expire.grows [OF ok] show ?thesis by (auto elim!: discard_InrE)
  qed
qed

lemma exec_history: "history_ok hist \<Longrightarrow> exec_cmd now cmd hist = Inr led' \<Longrightarrow> history_ok (led' # hist)"
  using exec_keeps [of hist now cmd led'] by (auto simp: history_ok_def intro: later_trans)

lemma run_history: "history_ok hist \<Longrightarrow> history_ok (run_service cmds hist)"
proof (induction cmds hist rule: run_service.induct)
  case (2 now cmd cmds hist)
  then show ?case using exec_history by (auto split: sum.splits)
qed simp

lemma history_start: "history_ok [empty_ledger us ps]"
  by (simp add: history_ok_def empty_ledger_ok)

text \<open>Commands that cannot make a purchased lot expire: every one but a raw grant that asks for it.\<close>

fun permanent_cmd :: "ledger_cmd \<Rightarrow> bool" where
  "permanent_cmd (Grant_Cmd inp) = (g_kind inp = PURCHASED \<longrightarrow> g_expires inp = None)"
| "permanent_cmd _ = True"

lemma exec_permanent:
  assumes hist: "history_ok hist" and step: "exec_cmd now cmd hist = Inr led'"
    and perm: "permanent (hd hist)" and cmd: "permanent_cmd cmd"
  shows "permanent led'"
proof -
  from hist have ok: "ledger_ok (hd hist)" by (simp add: history_ok_def)
  show ?thesis
  proof (cases cmd)
    case (Grant_Cmd inp)
    with step cmd perm show ?thesis by (auto elim!: discard_InrE intro: grant_lot_permanent)
  next
    case (Free_Cmd u)
    with step free.keeps_permanent [OF ok _ perm] show ?thesis by (auto elim!: discard_InrE)
  next
    case (Adjust_Cmd inp)
    with step adjust.keeps_permanent [OF ok _ perm] show ?thesis by (auto elim!: discard_InrE)
  next
    case (Debit_Cmd inp)
    with step debit.keeps_permanent [OF ok _ perm] show ?thesis by (auto elim!: discard_InrE)
  next
    case (Refund_Partial_Cmd age d c reason)
    with step obtain old r where "read_debit age hist d = Some old"
      "refund_partial (lots old) now d c reason (hd hist) = Inr (led', r)"
      by (auto elim!: discard_InrE split: option.splits)
    with refunding.keeps_permanent [OF ok _ perm] history_snapshot [OF hist] show ?thesis by blast
  next
    case (Refund_Cmd age d reason)
    with step obtain old r where old: "read_debit age hist d = Some old"
      and "refund (lots old) now d reason (hd hist) = Inr (led', r)"
      by (auto elim!: discard_InrE split: option.splits)
    then obtain c where "refund_partial (lots old) now d c reason (hd hist) = Inr (led', r)"
      using refund_as_partial by blast
    with old refunding.keeps_permanent [OF ok _ perm] history_snapshot [OF hist]
    show ?thesis by blast
  next
    case (Expire_Cmd u as_of)
    with step expire.keeps_permanent [OF ok _ perm] show ?thesis by (auto elim!: discard_InrE)
  qed
qed

lemma run_permanent:
  assumes "history_ok hist" and "permanent (hd hist)" and "\<forall>(now, cmd)\<in>set cmds. permanent_cmd cmd"
  shows "permanent (hd (run_service cmds hist))"
  using assms
proof (induction cmds hist rule: run_service.induct)
  case (2 now cmd cmds hist)
  then show ?case using exec_history exec_permanent by (auto split: sum.splits)
qed simp

section \<open>A transaction under retry\<close>

text \<open>
  A service operation run as \<^verbatim>\<open>withRetry(() => db.$transaction(...))\<close>: an attempt that conflicts
  throws the database's error and rolls back.
\<close>

definition transaction_attempt ::
  "(nat \<Rightarrow> caught option) \<Rightarrow> (ledger \<Rightarrow> credit_error + (ledger \<times> 'r)) \<Rightarrow>
   nat \<Rightarrow> ledger \<Rightarrow> (caught + (credit_error + 'r)) \<times> ledger" where
  "transaction_attempt conflict op i led =
     (case conflict i of
        Some e \<Rightarrow> (Inl e, led)
      | None \<Rightarrow> (case op led of Inl e \<Rightarrow> (Inr (Inl e), led) | Inr (led', r) \<Rightarrow> (Inr (Inr r), led')))"

lemma attempt_atomic: "atomic_attempts (transaction_attempt conflict op)"
  by (auto simp: atomic_attempts_def transaction_attempt_def split: option.splits sum.splits)

end
