(* ===== verification/Scan_Machine.thy ===== *)
theory Scan_Machine
  imports Ledger_System
begin

text \<open>
  The resumable scan state machine, \<^verbatim>\<open>apps/worker/src/orchestrator/state-machine.ts\<close>, and the
  writes of a scan row that bypass it: the cancel route of \<^verbatim>\<open>apps/api/src/routes/scans.routes.ts\<close>.
  Every write is one conditional \<open>UPDATE\<close>; whether it matched decides who won.  The world holds
  the scans, the credit ledger, the queues' accepted jobs and the published events, in order.
\<close>

section \<open>State\<close>

datatype intent_source = SUPPLIED | SKIPPED | DEFAULTED

record scan =
  s_id :: string
  s_user :: user_id
  s_state :: scan_state
  s_requested :: "module_type list"
  s_results :: "(module_type \<times> module_state) list"
  s_charged :: int
  s_started :: "millis option"
  s_completed :: "millis option"
  s_deadline :: "millis option"
  s_failure :: "string option"

record phase_job =
  p_scan :: string
  p_phase :: scan_state
  p_modules :: "module_type list"
  p_attempt :: nat
  p_transitioned :: bool

datatype scan_event =
    State_Event string scan_state int
  | Questionnaire_Event string millis
  | Module_Started_Event string module_type
  | Module_Complete_Event string module_type module_state
  | Failed_Event string int

fun event_scan :: "scan_event \<Rightarrow> string" where
  "event_scan (State_Event i _ _) = i"
| "event_scan (Questionnaire_Event i _) = i"
| "event_scan (Module_Started_Event i _) = i"
| "event_scan (Module_Complete_Event i _ _) = i"
| "event_scan (Failed_Event i _) = i"

record world =
  w_scans :: "scan list"
  w_ledger :: ledger
  w_intents :: "(string \<times> intent_source) list"
  w_phase_jobs :: "phase_job list"
  w_deadline_jobs :: "(string \<times> millis) list"
  w_events :: "scan_event list"

section \<open>The table\<close>

fun allowed :: "scan_state \<Rightarrow> scan_state list" where
  "allowed QUEUED = [RUNNING_PHASE_1, CANCELLED, FAILED, TIMED_OUT]"
| "allowed RUNNING_PHASE_1 = [AWAITING_QUESTIONNAIRE, RUNNING_PHASE_2, CANCELLED, FAILED, TIMED_OUT]"
| "allowed AWAITING_QUESTIONNAIRE = [RUNNING_PHASE_2, CANCELLED, FAILED, TIMED_OUT]"
| "allowed RUNNING_PHASE_2 = [RUNNING_PHASE_3, CANCELLED, FAILED, TIMED_OUT]"
| "allowed RUNNING_PHASE_3 = [RUNNING_MASTER, CANCELLED, FAILED, TIMED_OUT]"
| "allowed RUNNING_MASTER = [RUNNING_DOCS, CANCELLED, FAILED, TIMED_OUT]"
| "allowed RUNNING_DOCS = [COMPLETED, CANCELLED, FAILED, TIMED_OUT]"
| "allowed COMPLETED = []"
| "allowed FAILED = []"
| "allowed CANCELLED = []"
| "allowed TIMED_OUT = []"

definition phase_order :: "scan_state list" where
  "phase_order = [RUNNING_PHASE_1, RUNNING_PHASE_2, RUNNING_PHASE_3, RUNNING_MASTER, RUNNING_DOCS]"

definition is_terminal :: "scan_state \<Rightarrow> bool" where
  "is_terminal s \<longleftrightarrow> s \<in> set scan_states_terminal"

definition can_transition :: "scan_state \<Rightarrow> scan_state \<Rightarrow> bool" where
  "can_transition from to \<longleftrightarrow> to \<in> set (allowed from)"

fun progress_percent_for :: "scan_state \<Rightarrow> int" where
  "progress_percent_for QUEUED = 0"
| "progress_percent_for RUNNING_PHASE_1 = 15"
| "progress_percent_for AWAITING_QUESTIONNAIRE = 15"
| "progress_percent_for RUNNING_PHASE_2 = 40"
| "progress_percent_for RUNNING_PHASE_3 = 60"
| "progress_percent_for RUNNING_MASTER = 80"
| "progress_percent_for RUNNING_DOCS = 92"
| "progress_percent_for COMPLETED = 100"
| "progress_percent_for FAILED = 100"
| "progress_percent_for CANCELLED = 100"
| "progress_percent_for TIMED_OUT = 100"

definition next_phase :: "scan_state \<Rightarrow> scan_state option" where
  "next_phase s =
     (if is_terminal s then None
      else let i = index_of s phase_order in
        if i = -1 then None
        else if nat (i + 1) < length phase_order then Some (phase_order ! nat (i + 1))
        else Some COMPLETED)"

section \<open>Transitions\<close>

datatype refusal = ILLEGAL | LOST_RACE

datatype transition_outcome =
    Moved scan_state scan_state
  | Not_Moved refusal "scan_state option"

fun moved_ok :: "transition_outcome \<Rightarrow> bool" where
  "moved_ok (Moved _ _) = True"
| "moved_ok (Not_Moved _ _) = False"

text \<open>The columns a caller may write with the state (\<^verbatim>\<open>extra\<close>).\<close>

datatype scan_field = Set_Deadline "millis option" | Set_Failure string

fun write_field :: "scan_field \<Rightarrow> scan \<Rightarrow> scan" where
  "write_field (Set_Deadline d) s = s\<lparr> s_deadline := d \<rparr>"
| "write_field (Set_Failure r) s = s\<lparr> s_failure := Some r \<rparr>"

record terminal_transition =
  tt_scan :: string
  tt_from :: scan_state
  tt_to :: scan_state

text \<open>An observer may throw after it has written; what it wrote stands and the throw is swallowed.\<close>

type_synonym observer = "terminal_transition \<Rightarrow> world \<Rightarrow> world \<times> bool"

definition notify_terminal :: "observer list \<Rightarrow> terminal_transition \<Rightarrow> world \<Rightarrow> world" where
  "notify_terminal observers info w = foldl (\<lambda>w' ob. fst (ob info w')) w observers"

definition scan_state_of :: "string \<Rightarrow> world \<Rightarrow> scan_state option" where
  "scan_state_of i w = map_option s_state (find_row s_id i (w_scans w))"

text \<open>\<^verbatim>\<open>updateMany({ where: { id, state } })\<close>: the rows written and how many.\<close>

definition guarded_update ::
  "string \<Rightarrow> (scan \<Rightarrow> bool) \<Rightarrow> (scan \<Rightarrow> scan) \<Rightarrow> world \<Rightarrow> nat \<times> world" where
  "guarded_update i guard f w =
     (length (filter (\<lambda>s. s_id s = i \<and> guard s) (w_scans w)),
      w\<lparr> w_scans := map (\<lambda>s. if s_id s = i \<and> guard s then f s else s) (w_scans w) \<rparr>)"

definition transition_data ::
  "millis \<Rightarrow> scan_state \<Rightarrow> scan_state \<Rightarrow> scan_field list \<Rightarrow> scan \<Rightarrow> scan" where
  "transition_data now from to extra s =
     (let s1 = foldl (\<lambda>s f. write_field f s) (s\<lparr> s_state := to \<rparr>) extra;
          s2 = (if to = RUNNING_PHASE_1 \<and> from = QUEUED then s1\<lparr> s_started := Some now \<rparr> else s1)
      in if is_terminal to then s2\<lparr> s_completed := Some now \<rparr> else s2)"

definition transition ::
  "observer list \<Rightarrow> millis \<Rightarrow> string \<Rightarrow> scan_state \<Rightarrow> scan_state \<Rightarrow> scan_field list \<Rightarrow> world \<Rightarrow>
   transition_outcome \<times> world" where
  "transition observers now i from to extra w =
     (if \<not> can_transition from to then (Not_Moved ILLEGAL (Some from), w)
      else
        let (count, w1) =
              guarded_update i (\<lambda>s. s_state s = from) (transition_data now from to extra) w
        in if count = 1 then
             (Moved from to,
              if is_terminal to
              then notify_terminal observers \<lparr> tt_scan = i, tt_from = from, tt_to = to \<rparr> w1
              else w1)
           else (Not_Moved LOST_RACE (scan_state_of i w1), w1))"

definition transition_before_deadline ::
  "millis \<Rightarrow> string \<Rightarrow> scan_state \<Rightarrow> scan_state \<Rightarrow> millis \<Rightarrow> world \<Rightarrow> transition_outcome \<times> world"
where
  "transition_before_deadline clock i from to deadline_ms w =
     (if \<not> can_transition from to then (Not_Moved ILLEGAL (Some from), w)
      else
        let (count, w1) =
              guarded_update i
                (\<lambda>s. s_state s = from \<and>
                     (case s_started s of None \<Rightarrow> False | Some t \<Rightarrow> clock < t + deadline_ms))
                (\<lambda>s. s\<lparr> s_state := to \<rparr>) w
        in if count = 1 then (Moved from to, w1)
           else (Not_Moved LOST_RACE (scan_state_of i w1), w1))"

section \<open>The table is a phase order with four exits\<close>

lemma is_terminal_iff [simp]:
  "is_terminal s \<longleftrightarrow> s = COMPLETED \<or> s = FAILED \<or> s = CANCELLED \<or> s = TIMED_OUT"
  by (simp add: is_terminal_def scan_states_terminal_def)

lemma can_transition_terminal: "is_terminal s \<Longrightarrow> \<not> can_transition s t"
  by (cases s) (auto simp: can_transition_def)

lemma can_transition_exit:
  "\<not> is_terminal s \<Longrightarrow> t \<in> {CANCELLED, FAILED, TIMED_OUT} \<Longrightarrow> can_transition s t"
  by (cases s) (auto simp: can_transition_def)

lemma can_transition_progress:
  "can_transition s t \<Longrightarrow> progress_percent_for s \<le> progress_percent_for t"
  by (cases s) (auto simp: can_transition_def)

lemma can_transition_irrefl: "\<not> can_transition s s"
  by (cases s) (auto simp: can_transition_def)

lemma can_transition_not_queued: "\<not> can_transition s QUEUED"
  by (cases s) (auto simp: can_transition_def)

lemma next_phase_allowed: "next_phase s = Some t \<Longrightarrow> can_transition s t"
  by (cases s) (auto simp: next_phase_def phase_order_def can_transition_def Let_def)

section \<open>What a transition does to a row\<close>

lemma write_fields [simp]:
  "s_id (foldl (\<lambda>s f. write_field f s) s fs) = s_id s"
  "s_state (foldl (\<lambda>s f. write_field f s) s fs) = s_state s"
  "s_started (foldl (\<lambda>s f. write_field f s) s fs) = s_started s"
  "s_completed (foldl (\<lambda>s f. write_field f s) s fs) = s_completed s"
  "s_user (foldl (\<lambda>s f. write_field f s) s fs) = s_user s"
  "s_requested (foldl (\<lambda>s f. write_field f s) s fs) = s_requested s"
  "s_results (foldl (\<lambda>s f. write_field f s) s fs) = s_results s"
  "s_charged (foldl (\<lambda>s f. write_field f s) s fs) = s_charged s"
proof (induction fs arbitrary: s)
  case (Cons f fs)
  { case 1 with Cons show ?case by (cases f) simp_all }
  { case 2 with Cons show ?case by (cases f) simp_all }
  { case 3 with Cons show ?case by (cases f) simp_all }
  { case 4 with Cons show ?case by (cases f) simp_all }
  { case 5 with Cons show ?case by (cases f) simp_all }
  { case 6 with Cons show ?case by (cases f) simp_all }
  { case 7 with Cons show ?case by (cases f) simp_all }
  { case 8 with Cons show ?case by (cases f) simp_all }
qed simp_all

lemma transition_data_simps [simp]:
  "s_id (transition_data now from to extra s) = s_id s"
  "s_state (transition_data now from to extra s) = to"
  "s_user (transition_data now from to extra s) = s_user s"
  "s_requested (transition_data now from to extra s) = s_requested s"
  "s_results (transition_data now from to extra s) = s_results s"
  "s_charged (transition_data now from to extra s) = s_charged s"
  "s_started (transition_data now from to extra s) =
     (if to = RUNNING_PHASE_1 \<and> from = QUEUED then Some now else s_started s)"
  "s_completed (transition_data now from to extra s) =
     (if is_terminal to then Some now else s_completed s)"
  by (simp_all add: transition_data_def Let_def)

text \<open>On a table with unique ids a guarded update matches the row or nothing.\<close>

definition scans_ok :: "world \<Rightarrow> bool" where
  "scans_ok w \<longleftrightarrow> distinct (map s_id (w_scans w))"

lemma guarded_count:
  assumes "scans_ok w"
  shows "fst (guarded_update i g f w) =
     (case find_row s_id i (w_scans w) of None \<Rightarrow> 0 | Some s \<Rightarrow> if g s then 1 else 0)"
proof -
  have "length (filter (\<lambda>s. s_id s = i \<and> g s) rows) =
      (case find_row s_id i rows of None \<Rightarrow> 0 | Some s \<Rightarrow> if g s then 1 else 0)"
    if "distinct (map s_id rows)" for rows
    using that
  proof (induction rows)
    case (Cons r rows)
    show ?case
    proof (cases "s_id r = i")
      case True
      with Cons.prems have "filter (\<lambda>s. s_id s = i \<and> g s) rows = []"
        by (auto simp: filter_empty_conv image_iff)
      then have "length (filter (\<lambda>s. s_id s = i \<and> g s) rows) = 0" by (simp only: list.size)
      with True show ?thesis by (simp add: find_row_def)
    next
      case False
      with Cons show ?thesis by (simp add: find_row_def)
    qed
  qed (simp add: find_row_def)
  with assms show ?thesis by (simp add: guarded_update_def scans_ok_def)
qed

lemma guarded_find:
  assumes "\<And>s. s_id (f s) = s_id s"
  shows "find_row s_id j (w_scans (snd (guarded_update i g f w))) =
     map_option (\<lambda>s. if j = i \<and> g s then f s else s) (find_row s_id j (w_scans w))"
proof -
  have "find_row s_id j (map (\<lambda>s. if s_id s = i \<and> g s then f s else s) rows) =
      map_option (\<lambda>s. if j = i \<and> g s then f s else s) (find_row s_id j rows)" for rows
    by (induction rows) (auto simp: find_row_def assms)
  then show ?thesis by (simp add: guarded_update_def)
qed

lemma guarded_ids [simp]:
  assumes "\<And>s. s_id (f s) = s_id s"
  shows "scans_ok (snd (guarded_update i g f w)) = scans_ok w"
proof -
  from assms have "map s_id (map (\<lambda>s. if s_id s = i \<and> g s then f s else s) (w_scans w)) =
      map s_id (w_scans w)" by simp
  then show ?thesis by (simp add: guarded_update_def scans_ok_def del: map_map)
qed

lemma guarded_others [simp]:
  "w_ledger (snd (guarded_update i g f w)) = w_ledger w"
  "w_intents (snd (guarded_update i g f w)) = w_intents w"
  "w_phase_jobs (snd (guarded_update i g f w)) = w_phase_jobs w"
  "w_deadline_jobs (snd (guarded_update i g f w)) = w_deadline_jobs w"
  "w_events (snd (guarded_update i g f w)) = w_events w"
  by (simp_all add: guarded_update_def)

lemma transition_eq:
  assumes "scans_ok w"
  shows "transition observers now i from to extra w =
    (if \<not> can_transition from to then (Not_Moved ILLEGAL (Some from), w)
     else case find_row s_id i (w_scans w) of
       None \<Rightarrow> (Not_Moved LOST_RACE None, w)
     | Some s \<Rightarrow>
         if s_state s = from then
           let w1 = snd (guarded_update i (\<lambda>s. s_state s = from)
                           (transition_data now from to extra) w)
           in (Moved from to,
               if is_terminal to
               then notify_terminal observers \<lparr> tt_scan = i, tt_from = from, tt_to = to \<rparr> w1
               else w1)
         else (Not_Moved LOST_RACE (Some (s_state s)), w))"
proof -
  let ?G = "guarded_update i (\<lambda>s. s_state s = from) (transition_data now from to extra) w"
  have same: "snd ?G = w" if "fst ?G \<noteq> 1"
  proof -
    have "\<forall>s\<in>set (w_scans w). \<not> (s_id s = i \<and> s_state s = from)"
    proof (rule ccontr)
      assume "\<not> ?thesis"
      then obtain s where "s \<in> set (w_scans w)" "s_id s = i" "s_state s = from" by auto
      with assms that find_row_unique [of s_id "w_scans w" s] guarded_count [OF assms]
      show False by (auto simp: scans_ok_def)
    qed
    then have "map (\<lambda>s. if s_id s = i \<and> s_state s = from
        then transition_data now from to extra s else s) (w_scans w) = w_scans w"
      by (auto intro!: map_idI)
    then show ?thesis by (simp add: guarded_update_def)
  qed
  show ?thesis
    using guarded_count [OF assms, of i "\<lambda>s. s_state s = from" "transition_data now from to extra"] same
    by (cases ?G) (auto simp: transition_def Let_def scan_state_of_def split: option.splits)
qed

end
