(* ===== verification/Scan_Settlement.thy ===== *)
theory Scan_Settlement
  imports Scan_Machine Fingerprint
begin

text \<open>
  What ends a scan and gives back the undelivered share of its charge: the terminal observer
  (\<^verbatim>\<open>terminal-refund.ts\<close>), the timeout sweep (\<^verbatim>\<open>timeout.ts\<close>, with the refunder of
  \<^verbatim>\<open>timeout-scheduler.ts\<close>) and the cancel route (\<^verbatim>\<open>scans.routes.ts\<close>).  Each moves the scan
  under the guard first and refunds only after it won.
\<close>

section \<open>The undelivered share\<close>

definition is_delivered :: "module_state \<Rightarrow> bool" where
  "is_delivered s \<longleftrightarrow> s \<in> set module_states_scored"

definition delivered_modules :: "scan \<Rightarrow> module_type list" where
  "delivered_modules s = map fst (filter (\<lambda>r. is_delivered (snd r)) (s_results s))"

definition undelivered_modules :: "scan \<Rightarrow> module_type list" where
  "undelivered_modules s = filter (\<lambda>m. m \<notin> set (delivered_modules s)) (s_requested s)"

definition undelivered_refund :: "scan \<Rightarrow> int" where
  "undelivered_refund s =
     refund_for_undelivered (s_charged s) (int (length (s_requested s)))
       (int (length (delivered_modules s)))"

definition scan_debit :: "string \<Rightarrow> ledger \<Rightarrow> credit_tx option" where
  "scan_debit i led = find (\<lambda>t. t_scan t = Some i \<and> t_type t = DEBIT) (txs led)"

text \<open>The refunder: no debit row means nothing was charged; a refused refund is thrown.\<close>

definition refund_scan_charge ::
  "millis \<Rightarrow> string \<Rightarrow> int \<Rightarrow> string \<Rightarrow> world \<Rightarrow> credit_error + world" where
  "refund_scan_charge now i credits reason w =
     (case scan_debit i (w_ledger w) of
        None \<Rightarrow> Inr w
      | Some d \<Rightarrow>
          (case refund_partial (lots (w_ledger w)) now (t_id d) credits reason (w_ledger w) of
             Inl e \<Rightarrow> Inl e
           | Inr (led, _) \<Rightarrow> Inr (w\<lparr> w_ledger := led \<rparr>)))"

section \<open>The terminal observer\<close>

definition refundable_terminals :: "scan_state list" where
  "refundable_terminals = [FAILED, COMPLETED]"

definition terminal_refund_observer :: "millis \<Rightarrow> observer" where
  "terminal_refund_observer now info w =
     (if tt_to info \<notin> set refundable_terminals then (w, False)
      else case find_row s_id (tt_scan info) (w_scans w) of
        None \<Rightarrow> (w, False)
      | Some s \<Rightarrow>
          let credits = undelivered_refund s in
          if credits \<le> 0 then (w, False)
          else case refund_scan_charge now (tt_scan info) credits
                      ((if tt_to info = FAILED then ''platform-failure'' else ''undelivered-module'')
                        @ '':'' @ tt_scan info) w of
            Inl e \<Rightarrow> (w, False)
          | Inr w' \<Rightarrow> (w', False))"

section \<open>The timeout sweep\<close>

definition sweepable :: "scan_state list" where
  "sweepable = [QUEUED, RUNNING_PHASE_1, AWAITING_QUESTIONNAIRE, RUNNING_PHASE_2, RUNNING_PHASE_3,
     RUNNING_MASTER, RUNNING_DOCS]"

record timeout_outcome =
  x_scan :: string
  x_timed_out :: bool
  x_delivered :: "module_type list"
  x_undelivered :: "module_type list"
  x_refunded :: int

datatype sweep_error = Scan_Vanished string | Refund_Refused credit_error

definition timeout_failure :: "nat \<Rightarrow> nat \<Rightarrow> string" where
  "timeout_failure delivered requested =
     ''The audit exceeded its maximum permitted duration. '' @ decimal delivered @ '' of '' @
     decimal requested @ '' areas were delivered and charged for; the rest were refunded.''"

text \<open>
  One scan.  The row read by the batch is only the guard; the amounts come from the row re-read
  in the transaction of the guarded move.
\<close>

definition terminate ::
  "observer list \<Rightarrow> millis \<Rightarrow> scan \<Rightarrow> world \<Rightarrow> (sweep_error + timeout_outcome) \<times> world" where
  "terminate observers now seen w =
     (if is_terminal (s_state seen) then
        (Inr \<lparr> x_scan = s_id seen, x_timed_out = False, x_delivered = delivered_modules seen,
               x_undelivered = undelivered_modules seen, x_refunded = 0 \<rparr>, w)
      else case find_row s_id (s_id seen) (w_scans w) of
        None \<Rightarrow> (Inl (Scan_Vanished (s_id seen)), w)
      | Some fresh \<Rightarrow>
          let credits = undelivered_refund fresh;
              (outcome, w1) = transition observers now (s_id seen) (s_state seen) TIMED_OUT
                 [Set_Failure (timeout_failure (length (delivered_modules fresh))
                    (length (s_requested fresh)))] w;
              result = (\<lambda>t r. \<lparr> x_scan = s_id seen, x_timed_out = t,
                 x_delivered = delivered_modules fresh,
                 x_undelivered = undelivered_modules fresh, x_refunded = r \<rparr>)
          in if \<not> moved_ok outcome then (Inr (result False 0), w1)
             else
               case (if 0 < credits then refund_scan_charge now (s_id seen) credits
                       (''timeout:'' @ decimal (length (undelivered_modules fresh)) @
                        ''-areas-undelivered'') w1
                     else Inr w1) of
                 Inl e \<Rightarrow> (Inl (Refund_Refused e), w1)
               | Inr w2 \<Rightarrow>
                   (Inr (result True credits),
                    w2\<lparr> w_events := w_events w2 @ [Failed_Event (s_id seen) credits] \<rparr>))"

text \<open>
  The sweep.  \<open>before\<close> is what other processes commit just before a scan's turn; the planned
  passes go through the port's functions.  A throw ends the sweep with what it had done.
\<close>

record sweep_port =
  sp_with_plan :: "string list \<Rightarrow> world \<Rightarrow> string list"
  sp_expired :: "world \<Rightarrow> (string \<times> string) list"
  sp_prepare :: "string \<Rightarrow> world \<Rightarrow> world"
  sp_self_heal :: "world \<Rightarrow> world"

fun sweep_each ::
  "observer list \<Rightarrow> millis \<Rightarrow> (string \<Rightarrow> world \<Rightarrow> world) \<Rightarrow> scan list \<Rightarrow> timeout_outcome list \<Rightarrow>
   world \<Rightarrow> (sweep_error option \<times> timeout_outcome list) \<times> world" where
  "sweep_each obs now before [] done w = ((None, done), w)"
| "sweep_each obs now before (s # ss) done w =
     (case terminate obs now s (before (s_id s) w) of
        (Inl e, w') \<Rightarrow> ((Some e, done), w')
      | (Inr x, w') \<Rightarrow> sweep_each obs now before ss (done @ [x]) w')"

fun sweep_planned ::
  "observer list \<Rightarrow> millis \<Rightarrow> (string \<Rightarrow> world \<Rightarrow> world) \<Rightarrow> (string \<Rightarrow> world \<Rightarrow> world) \<Rightarrow>
   scan list \<Rightarrow> (string \<times> string) list \<Rightarrow> timeout_outcome list \<Rightarrow>
   world \<Rightarrow> (sweep_error option \<times> timeout_outcome list) \<times> world" where
  "sweep_planned obs now before prepare rows [] done w = ((None, done), w)"
| "sweep_planned obs now before prepare rows ((i, plan) # es) done w =
     (case js_map_of (map (\<lambda>r. (s_id r, r)) rows) i of
        None \<Rightarrow> sweep_planned obs now before prepare rows es done w
      | Some s \<Rightarrow>
          (case terminate obs now s (prepare plan (before (s_id s) w)) of
             (Inl e, w') \<Rightarrow> ((Some e, done), w')
           | (Inr x, w') \<Rightarrow> sweep_planned obs now before prepare rows es (done @ [x]) w'))"

definition started_before :: "millis \<Rightarrow> scan \<Rightarrow> bool" where
  "started_before cutoff s \<longleftrightarrow>
     s_state s \<in> set sweepable \<and> (case s_started s of None \<Rightarrow> False | Some t \<Rightarrow> t < cutoff)"

text \<open>The planned pass selects by plan deadline; its own start filter is the year 9999.\<close>

definition far_future :: millis where "far_future = 253402300799000"

definition sweep_timed_out_scans ::
  "observer list \<Rightarrow> millis \<Rightarrow> millis \<Rightarrow> nat \<Rightarrow> (string \<Rightarrow> world \<Rightarrow> world) \<Rightarrow> sweep_port option \<Rightarrow>
   world \<Rightarrow> (sweep_error option \<times> timeout_outcome list) \<times> world" where
  "sweep_timed_out_scans obs now max_duration batch before planned w =
     (let candidates = filter (started_before (now - max_duration)) (w_scans w);
          with_plan = (case planned of None \<Rightarrow> []
                       | Some p \<Rightarrow> sp_with_plan p (map s_id candidates) w);
          legacy = filter (\<lambda>c. s_id c \<notin> set with_plan) candidates
      in case sweep_each obs now before (take batch legacy) [] w of
           ((Some e, done), w1) \<Rightarrow> ((Some e, done), w1)
         | ((None, done), w1) \<Rightarrow>
             (case planned of None \<Rightarrow> ((None, done), w1)
              | Some p \<Rightarrow>
                  let expired = sp_expired p w1;
                      rows = filter (\<lambda>s. s_id s \<in> set (map fst expired) \<and> started_before far_future s)
                               (w_scans w1)
                  in case sweep_planned obs now before (sp_prepare p) rows expired done w1 of
                       ((Some e, done2), w2) \<Rightarrow> ((Some e, done2), w2)
                     | ((None, done2), w2) \<Rightarrow> ((None, done2), sp_self_heal p w2)))"

section \<open>The cancel route\<close>

datatype cancel_response = Cancel_Not_Found | Cancel_Already_Terminal | Cancel_Done

definition cancel_scan :: "millis \<Rightarrow> string \<Rightarrow> user_id \<Rightarrow> world \<Rightarrow> cancel_response \<times> world" where
  "cancel_scan now i u w =
     (let (count, w1) =
            guarded_update i (\<lambda>s. s_user s = u \<and> \<not> is_terminal (s_state s))
              (\<lambda>s. s\<lparr> s_state := CANCELLED, s_completed := Some now \<rparr>) w
      in if count = 0 then
           (if find (\<lambda>s. s_id s = i \<and> s_user s = u) (w_scans w1) = None then Cancel_Not_Found
            else Cancel_Already_Terminal, w1)
         else case find_row s_id i (w_scans w1) of
           None \<Rightarrow> (Cancel_Done, w1)
         | Some s \<Rightarrow>
             let credits = undelivered_refund s in
             if 0 < credits then
               (Cancel_Done,
                case refund_scan_charge now i credits
                        (''cancelled:'' @ decimal (length (s_results s)) @ ''-of-'' @
                         decimal (length (s_requested s)) @ ''-modules-ran'') w1 of
                  Inl e \<Rightarrow> w1
                | Inr w2 \<Rightarrow> w2)
             else (Cancel_Done, w1))"

end
