(* ===== verification/Scan_Settlement_Props.thy ===== *)
theory Scan_Settlement_Props
  imports Scan_Settlement
begin

text \<open>
  What the exits of a scan guarantee: the guarded move decides, the refund follows the move, and
  a scan that has ended is not touched again by any of them.
\<close>

section \<open>A refund of a scan's charge\<close>

definition world_ok :: "world \<Rightarrow> bool" where
  "world_ok w \<longleftrightarrow> scans_ok w \<and> ledger_ok (w_ledger w)"

text \<open>The charge of a scan: its debit is there, for the charged amount, and not refunded yet.\<close>

definition charge_open :: "world \<Rightarrow> scan \<Rightarrow> credit_tx \<Rightarrow> bool" where
  "charge_open w s d \<longleftrightarrow> scan_debit (s_id s) (w_ledger w) = Some d \<and> t_user d = s_user s \<and>
     t_amount d = s_charged s \<and> (\<forall>t\<in>set (txs (w_ledger w)). t_reverses t \<noteq> Some (t_id d))"

lemma refund_partial_succeeds:
  assumes ok: "ledger_ok led" and snap: "snapshot_for d snap led"
    and t: "find_row t_id d (txs led) = Some t" "t_type t = DEBIT"
    and c: "0 < c" "c \<le> t_amount t" and fresh: "\<forall>x\<in>set (txs led). t_reverses x \<noteq> Some d"
  shows "\<exists>led'. refund_partial snap now d c reason led = Inr (led', next_id led)"
proof -
  have td: "t_id t = d" using find_row_SomeD [OF t(1)] by simp
  have "find (\<lambda>x. t_reverses x = Some d) (txs led) = None" using fresh by (auto simp: find_None_iff)
  with t c td show ?thesis by (auto simp: refund_partial_def Let_def split: prod.splits)
qed

lemma scan_debit_row:
  assumes "ledger_ok led" and "scan_debit i led = Some d"
  shows "find_row t_id (t_id d) (txs led) = Some d" "t_type d = DEBIT" "d \<in> set (txs led)"
proof -
  from assms(2) have d: "d \<in> set (txs led)" "t_type d = DEBIT"
    by (auto simp: scan_debit_def find_Some_iff in_set_conv_nth)
  with ledger_okD(2) [OF assms(1)] show "find_row t_id (t_id d) (txs led) = Some d"
    "t_type d = DEBIT" "d \<in> set (txs led)"
    by (simp_all add: find_row_unique txs_ok_def)
qed

lemma refund_charge_effect:
  assumes ok: "world_ok w" and open': "charge_open w s d" and c: "0 < c" "c \<le> s_charged s"
  obtains led' where "refund_scan_charge now (s_id s) c reason w = Inr (w\<lparr> w_ledger := led' \<rparr>)"
    "ledger_ok led'"
    "\<And>v. total_available led' now v = total_available (w_ledger w) now v + (if v = s_user s then c else 0)"
proof -
  have led: "ledger_ok (w_ledger w)" using ok by (simp add: world_ok_def)
  from open' have d: "scan_debit (s_id s) (w_ledger w) = Some d" "t_user d = s_user s"
    "t_amount d = s_charged s" by (simp_all add: charge_open_def)
  note row = scan_debit_row [OF led d(1)]
  note snap = snapshot_self [OF ledger_okD(3) [OF led], of "t_id d"]
  from open' c d(3) obtain led' where
    step: "refund_partial (lots (w_ledger w)) now (t_id d) c reason (w_ledger w) =
      Inr (led', next_id (w_ledger w))"
    using refund_partial_succeeds [OF led snap row(1,2), of c now reason]
    by (auto simp: charge_open_def)
  show thesis
    by (rule that [of led'])
      (use step refund_ok [OF led snap step] refund_available [OF led snap step row(1)] d in
        \<open>simp_all add: refund_scan_charge_def\<close>)
qed

lemma refund_charge_scans:
  "refund_scan_charge now i c reason w = Inr w' \<Longrightarrow> w_scans w' = w_scans w \<and> w_events w' = w_events w"
  by (auto simp: refund_scan_charge_def split: option.splits sum.splits)

lemma undelivered_refund_bounds:
  "0 \<le> undelivered_refund s" "0 < s_charged s \<Longrightarrow> undelivered_refund s \<le> s_charged s"
  using refund_for_undelivered_bounds [of "int (length (delivered_modules s))" "s_charged s"
      "int (length (s_requested s))"]
  by (simp_all add: undelivered_refund_def)

lemma undelivered_refund_charged: "0 < undelivered_refund s \<Longrightarrow> 0 < s_charged s"
  using refund_for_undelivered_bounds(2) [of "int (length (delivered_modules s))" "s_charged s"
      "int (length (s_requested s))"]
  by (simp add: undelivered_refund_def)

lemma observer_scans [simp]: "w_scans (fst (terminal_refund_observer now info w)) = w_scans w"
  by (auto simp: terminal_refund_observer_def Let_def split: option.splits sum.splits
      dest: refund_charge_scans)

lemma observer_timed_out [simp]:
  "tt_to info = TIMED_OUT \<Longrightarrow> terminal_refund_observer now info w = (w, False)"
  by (simp add: terminal_refund_observer_def refundable_terminals_def)

lemma notify_one [simp]: "notify_terminal [ob] info w = fst (ob info w)"
  by (simp add: notify_terminal_def)

section \<open>A scan that has ended stays ended\<close>

lemma transition_ended:
  assumes ok: "scans_ok w" and s: "find_row s_id i (w_scans w) = Some s" "is_terminal (s_state s)"
  shows "snd (transition obs now i from to extra w) = w \<and>
         \<not> moved_ok (fst (transition obs now i from to extra w))"
  using s can_transition_terminal [of "from" to] can_transition_terminal [of "s_state s" to]
  by (cases "s_state s = from") (simp_all add: transition_eq [OF ok] del: is_terminal_iff)

lemma cancel_ended:
  assumes ok: "scans_ok w" and s: "find_row s_id i (w_scans w) = Some s" "is_terminal (s_state s)"
  shows "snd (cancel_scan now i u w) = w"
proof -
  let ?g = "\<lambda>s. s_user s = u \<and> \<not> is_terminal (s_state s)"
  let ?f = "\<lambda>s. s\<lparr> s_state := CANCELLED, s_completed := Some now \<rparr>"
  have "\<not> (s_id r = i \<and> ?g r)" if "r \<in> set (w_scans w)" for r
    using ok s that find_row_unique [of s_id "w_scans w" r]
    by (auto simp: scans_ok_def simp del: is_terminal_iff)
  then have "map (\<lambda>s. if s_id s = i \<and> ?g s then ?f s else s) (w_scans w) = w_scans w"
    by (intro map_idI) metis
  then have "snd (guarded_update i ?g ?f w) = w" by (simp add: guarded_update_def)
  moreover have "fst (guarded_update i ?g ?f w) = 0"
    using guarded_count [OF ok, of i ?g ?f] s by (simp del: is_terminal_iff)
  ultimately show ?thesis
    by (cases "guarded_update i ?g ?f w") (simp add: cancel_scan_def)
qed

lemma terminate_ended:
  assumes ok: "scans_ok w" and s: "find_row s_id (s_id seen) (w_scans w) = Some s" "is_terminal (s_state s)"
  shows "\<exists>x. terminate obs now seen w = (Inr x, w) \<and> \<not> x_timed_out x \<and> x_refunded x = 0"
proof (cases "is_terminal (s_state seen)")
  case False
  let ?t = "transition obs now (s_id seen) (s_state seen) TIMED_OUT
    [Set_Failure (timeout_failure (length (delivered_modules s)) (length (s_requested s)))] w"
  have "snd ?t = w \<and> \<not> moved_ok (fst ?t)" by (rule transition_ended [OF ok s])
  then obtain o' where "?t = (o', w)" "\<not> moved_ok o'" by (cases ?t) auto
  with False s(1) show ?thesis by (simp add: terminate_def Let_def del: is_terminal_iff)
qed (simp add: terminate_def)

section \<open>The sweep's termination of one scan\<close>

lemma terminate_moved:
  assumes ok: "world_ok w" and fresh: "find_row s_id (s_id seen) (w_scans w) = Some fresh"
    and state: "s_state fresh = s_state seen" "\<not> is_terminal (s_state seen)"
    and charge: "undelivered_refund fresh = 0 \<or> charge_open w fresh d"
  obtains w' x where
    "terminate [terminal_refund_observer now] now seen w = (Inr x, w')"
    "x_timed_out x" "x_refunded x = undelivered_refund fresh" "ledger_ok (w_ledger w')"
    "map_option s_state (find_row s_id (s_id seen) (w_scans w')) = Some TIMED_OUT" "scans_ok w'"
    "\<And>v. total_available (w_ledger w') now v = total_available (w_ledger w) now v +
       (if v = s_user fresh then undelivered_refund fresh else 0)"
proof -
  have id: "s_id fresh = s_id seen" using find_row_SomeD [OF fresh] by simp
  let ?extra = "[Set_Failure (timeout_failure (length (delivered_modules fresh)) (length (s_requested fresh)))]"
  let ?f = "transition_data now (s_state seen) TIMED_OUT ?extra"
  let ?w1 = "snd (guarded_update (s_id seen) (\<lambda>s. s_state s = s_state seen) ?f w)"
  let ?c = "undelivered_refund fresh"
  have scans: "scans_ok w" and led: "ledger_ok (w_ledger w)" using ok by (simp_all add: world_ok_def)
  have tr: "transition [terminal_refund_observer now] now (s_id seen) (s_state seen) TIMED_OUT ?extra w =
      (Moved (s_state seen) TIMED_OUT, ?w1)"
    using fresh state can_transition_exit [of "s_state seen" TIMED_OUT]
    by (simp add: transition_eq [OF scans] Let_def)
  have ok1: "world_ok ?w1" using scans led by (simp add: world_ok_def)
  have row1: "map_option s_state (find_row s_id (s_id seen) (w_scans ?w1)) = Some TIMED_OUT"
    using fresh state by (simp add: guarded_find)
  show thesis
  proof (cases "0 < ?c")
    case True
    then have open': "charge_open ?w1 fresh d" using charge by (simp add: charge_open_def)
    have c: "?c \<le> s_charged fresh"
      using undelivered_refund_bounds(2) [OF undelivered_refund_charged [OF True]] .
    from refund_charge_effect [OF ok1 open' True c] obtain led' where
      led': "refund_scan_charge now (s_id fresh) ?c
          (''timeout:'' @ decimal (length (undelivered_modules fresh)) @ ''-areas-undelivered'') ?w1 =
        Inr (?w1\<lparr> w_ledger := led' \<rparr>)" "ledger_ok led'"
      "\<And>v. total_available led' now v = total_available (w_ledger ?w1) now v + (if v = s_user fresh then ?c else 0)"
      by blast
    let ?w' = "?w1\<lparr> w_ledger := led', w_events := w_events w @ [Failed_Event (s_id seen) ?c] \<rparr>"
    have "terminate [terminal_refund_observer now] now seen w =
        (Inr \<lparr> x_scan = s_id seen, x_timed_out = True, x_delivered = delivered_modules fresh,
               x_undelivered = undelivered_modules fresh, x_refunded = ?c \<rparr>, ?w')"
      using True led'(1) state(2)
      by (simp add: terminate_def fresh tr Let_def id del: is_terminal_iff)
    then show thesis
      by (rule that) (use led'(2,3) row1 ok1 in \<open>simp_all add: world_ok_def scans_ok_def\<close>)
  next
    case False
    then have "?c = 0" using undelivered_refund_bounds(1) [of fresh] by simp
    then have "terminate [terminal_refund_observer now] now seen w =
        (Inr \<lparr> x_scan = s_id seen, x_timed_out = True, x_delivered = delivered_modules fresh,
               x_undelivered = undelivered_modules fresh, x_refunded = ?c \<rparr>,
         ?w1\<lparr> w_events := w_events w @ [Failed_Event (s_id seen) ?c] \<rparr>)"
      using state(2) by (simp add: terminate_def fresh tr Let_def del: is_terminal_iff)
    then show thesis
      by (rule that) (use \<open>?c = 0\<close> row1 ok1 in \<open>simp_all add: world_ok_def scans_ok_def\<close>)
  qed
qed

section \<open>A scan still queued is never swept\<close>

text \<open>\<open>startedAt\<close> is written by the move out of \<open>QUEUED\<close> only.\<close>

definition queued_unstarted :: "world \<Rightarrow> bool" where
  "queued_unstarted w \<longleftrightarrow> (\<forall>s\<in>set (w_scans w). s_state s = QUEUED \<longrightarrow> s_started s = None)"

lemma transition_queued_unstarted:
  assumes ok: "scans_ok w" and inv: "queued_unstarted w"
  shows "queued_unstarted (snd (transition [terminal_refund_observer now'] now i from to extra w))"
proof -
  have step: "queued_unstarted (snd (guarded_update i (\<lambda>s. s_state s = from)
      (transition_data now from to extra) w))" if "can_transition from to"
    using inv that can_transition_not_queued [of "from"]
    by (auto simp: queued_unstarted_def guarded_update_def split: if_splits)
  show ?thesis
    using inv step by (auto simp: transition_eq [OF ok] Let_def queued_unstarted_def split: option.splits)
qed

lemma started_not_queued:
  "queued_unstarted w \<Longrightarrow> s \<in> set (w_scans w) \<Longrightarrow> started_before cutoff s \<Longrightarrow> s_state s \<noteq> QUEUED"
  by (auto simp: queued_unstarted_def started_before_def split: option.splits)

lemma transition_other:
  assumes "scans_ok w" and "j \<noteq> i \<or> (\<exists>s. find_row s_id j (w_scans w) = Some s \<and> s_state s \<noteq> from)"
  shows "find_row s_id j (w_scans (snd (transition [terminal_refund_observer now'] now i from to extra w))) =
    find_row s_id j (w_scans w)"
proof -
  have "find_row s_id j (w_scans (snd (guarded_update i (\<lambda>s. s_state s = from)
      (transition_data now from to extra) w))) = find_row s_id j (w_scans w)"
    using assms(2) by (cases "find_row s_id j (w_scans w)") (auto simp: guarded_find)
  then show ?thesis
    by (auto simp: transition_eq [OF assms(1)] Let_def split: option.splits)
qed

lemma transition_scans_ok [simp]:
  "scans_ok w \<Longrightarrow> scans_ok (snd (transition [terminal_refund_observer now'] now i from to extra w))"
  by (auto simp: transition_eq Let_def scans_ok_def split: option.splits)
    (auto simp: guarded_ids [unfolded scans_ok_def])

lemma terminate_scans:
  assumes ok: "scans_ok w"
  shows "w_scans (snd (terminate obs now seen w)) = w_scans w \<or>
    (\<exists>extra. w_scans (snd (terminate obs now seen w)) =
       w_scans (snd (transition obs now (s_id seen) (s_state seen) TIMED_OUT extra w)))"
proof (cases "is_terminal (s_state seen) \<or> find_row s_id (s_id seen) (w_scans w) = None")
  case True
  then show ?thesis by (auto simp: terminate_def)
next
  case False
  then obtain fresh where fresh: "find_row s_id (s_id seen) (w_scans w) = Some fresh" by auto
  let ?t = "transition obs now (s_id seen) (s_state seen) TIMED_OUT
    [Set_Failure (timeout_failure (length (delivered_modules fresh)) (length (s_requested fresh)))] w"
  have "w_scans (snd (terminate obs now seen w)) = w_scans (snd ?t)"
    using False fresh
    by (cases ?t)
      (auto simp: terminate_def Let_def dest: refund_charge_scans split: sum.splits simp del: is_terminal_iff)
  then show ?thesis by blast
qed

lemma sweep_each_queued:
  assumes "scans_ok w" and "find_row s_id j (w_scans w) = Some s" and "s_state s = QUEUED"
    and "\<forall>c\<in>set cs. s_state c \<noteq> QUEUED"
  shows "find_row s_id j (w_scans (snd (sweep_each [terminal_refund_observer now] now (\<lambda>_ w. w) cs acc w)))
     = Some s"
  using assms
proof (induction cs arbitrary: acc w)
  case (Cons c cs)
  let ?w' = "snd (terminate [terminal_refund_observer now] now c w)"
  have ok: "scans_ok ?w'" and row: "find_row s_id j (w_scans ?w') = Some s"
    using terminate_scans [OF Cons.prems(1), of "[terminal_refund_observer now]" now c] Cons.prems
      transition_other [OF Cons.prems(1), of j _ "s_state c"]
    by (auto simp: scans_ok_def dest: transition_scans_ok [unfolded scans_ok_def])
  show ?case
    using row Cons.IH [OF ok row Cons.prems(3)] Cons.prems(4)
    by (cases "terminate [terminal_refund_observer now] now c w") (auto split: sum.splits)
qed simp

end
