(* ===== verification/Credit_Theorems.thy ===== *)
theory Credit_Theorems
  imports Ledger_System Scan_Settlement_Props
begin

text \<open>
  The properties of the credit ledger: what a debit, a refund and the expiry sweep do to what a
  user can spend, and what holds of every ledger the service can commit.
\<close>

section \<open>A ledger for the examples\<close>

text \<open>Fifty free credits that expire at 500 and a purchase of a hundred, of one user.\<close>

definition sample_ledger :: ledger where
  "sample_ledger =
     insert_lot ''u'' PURCHASED PURCHASE 100 None 2
       (insert_tx ''u'' GRANT 100 ''buy'' None None None None
         (insert_lot ''u'' PLAN FREE_GRANT 50 (Some 500) 1
           (insert_tx ''u'' GRANT 50 ''free'' None None None None (empty_ledger [''u''] []))))"

lemma sample_ledger_ok: "ledger_ok sample_ledger"
  unfolding sample_ledger_def by (intro grant_rows_ok empty_ledger_ok) simp_all

definition sample_debit :: debit_input where
  "sample_debit = \<lparr> d_user = ''u'', d_amount = 80, d_reason = ''scan'', d_scan = Some ''s'', d_issue = None \<rparr>"

text \<open>The ledger after the example debit: its transaction has id 4.\<close>

definition sample_spent :: ledger where
  "sample_spent = (case debit 10 sample_debit sample_ledger of Inl e \<Rightarrow> sample_ledger | Inr (led, r) \<Rightarrow> led)"

lemma sample_step: "debit 10 sample_debit sample_ledger = Inr (sample_spent, (4, 80))"
proof -
  have "(case debit 10 sample_debit sample_ledger of Inl e \<Rightarrow> False | Inr (led, r) \<Rightarrow> r = (4, 80))" by code_simp
  then show ?thesis unfolding sample_spent_def by (auto split: sum.splits)
qed

lemma sample_spent_ok: "ledger_ok sample_spent"
  using debit_ok [OF sample_ledger_ok sample_step] .

section \<open>Reading the balance\<close>

text \<open>The batched balance query gives every user it is asked for, once each, exactly the balance
  the single query gives.\<close>

lemma balances_agree:
  "balances_of led now us = map (\<lambda>u. (u, balance_of led now u)) (uniq us)"
proof (cases "us = []")
  case False
  have "filter (\<lambda>l. l_user l = u)
      (filter (\<lambda>l. l_user l \<in> set us \<and> spendable now (l_user l) l) (lots led)) =
      filter (spendable now u) (lots led)" if "u \<in> set us" for u
    using that by (auto simp: spendable_def intro: filter_cong)
  then show ?thesis using False by (auto simp: balances_of_def balance_of_def Let_def)
qed (simp add: balances_of_def uniq_def)

section \<open>Debits\<close>

text \<open>C9: A debit is refused exactly for an amount that is not positive or above what the user can
  spend now, naming the shortfall.  Otherwise it takes exactly the amount from what that user can
  spend, leaves every other user alone, accounts for every credit with an allocation, and keeps the
  ledger's invariant.\<close>

theorem debit_outcome:
  assumes "ledger_ok led"
  shows "case debit now inp led of
       Inl e \<Rightarrow> (d_amount inp \<le> 0 \<and> e = BadDebitAmount) \<or>
         (0 < d_amount inp \<and> total_available led now (d_user inp) < d_amount inp \<and>
          e = InsufficientCredits (d_amount inp) (total_available led now (d_user inp)))
     | Inr (led', i, n) \<Rightarrow> 0 < n \<and> n = d_amount inp \<and> n \<le> total_available led now (d_user inp) \<and>
         ledger_ok led' \<and> allocated i led' = n \<and>
         (\<forall>v. total_available led' now v =
            total_available led now v - (if v = d_user inp then n else 0))"
proof (cases "debit now inp led")
  case (Inl e)
  then show ?thesis by (auto simp: debit_eq Let_def split: if_splits)
next
  case (Inr r)
  obtain led' i n where r: "r = (led', i, n)" by (cases r)
  note step = Inr [unfolded r]
  note ok' = debit_ok [OF assms step]
  have facts: "n = d_amount inp" "0 < d_amount inp" "d_amount inp \<le> total_available led now (d_user inp)"
    "i = next_id led" "txs led' = txs (insert_tx (d_user inp) DEBIT (d_amount inp) (d_reason inp)
       (d_scan inp) (d_issue inp) None None led)"
    using step ledger_okD(1) [OF assms] by (auto elim!: debit_InrE)
  then have "\<exists>t\<in>set (txs led'). t_id t = i \<and> t_type t = DEBIT \<and> t_amount t = n" by auto
  then have "allocated i led' = n" using ledger_okD(4) [OF ok'] by (auto simp: covered_def)
  then show ?thesis
    using facts ok' debit_available [OF assms step] by (simp add: step)
qed

theorem debit_outcome_witness:
  "case debit 10 sample_debit sample_ledger of
     Inl e \<Rightarrow> False
   | Inr (led', i, n) \<Rightarrow> n = 80 \<and> ledger_ok led' \<and> total_available led' 10 ''u'' = 70"
proof -
  have "total_available sample_ledger 10 ''u'' = 150" by code_simp
  with debit_outcome [OF sample_ledger_ok, where now = 10 and inp = sample_debit] show ?thesis
    by (cases "debit 10 sample_debit sample_ledger") (auto simp: sample_debit_def)
qed

text \<open>A debit spends in the order of the lots' deadlines (plan before purchased, older first, where
  the deadlines tie): if it took anything from a lot, every spendable lot that comes before it is
  empty afterwards.\<close>

lemma debit_spends_expiring_first:
  assumes "lots_ok led" and "debit now inp led = Inr (led', r)"
    and "l \<in> set (lots led)" and "spendable now (d_user inp) l"
    and "m \<in> set (lots led)" and "left_in led' (l_id m) < l_remaining m"
    and "debit_key l < debit_key m"
  shows "left_in led' (l_id l) = 0"
  using assms by (rule earlier_candidate_exhausted)

section \<open>Refunds\<close>

text \<open>C17: A refund is refused exactly when the amount is not positive, the transaction is unknown, not a
  debit, smaller than the amount, or already reversed.  Otherwise it raises what the debited user can
  spend now by exactly the amount, changes nobody else, and keeps the ledger's invariant, however old
  the unlocked read of the lots was.\<close>

theorem refund_outcome:
  assumes "ledger_ok led" and "snapshot_for d snap led"
  shows "case refund_partial snap now d c reason led of
       Inl e \<Rightarrow> c \<le> 0 \<or> (\<exists>t\<in>set (txs led). t_reverses t = Some d) \<or>
         (case find_row t_id d (txs led) of
            None \<Rightarrow> e = no_such_transaction
          | Some t \<Rightarrow> t_type t \<noteq> DEBIT \<or> t_amount t < c)
     | Inr (led', tx) \<Rightarrow> 0 < c \<and> ledger_ok led' \<and> \<not> (\<exists>t\<in>set (txs led). t_reverses t = Some d) \<and>
         (case find_row t_id d (txs led) of
            None \<Rightarrow> False
          | Some t \<Rightarrow> t_type t = DEBIT \<and> c \<le> t_amount t \<and>
              (\<forall>v. total_available led' now v =
                 total_available led now v + (if v = t_user t then c else 0)))"
proof (cases "refund_partial snap now d c reason led")
  case (Inl e)
  then show ?thesis
    by (auto simp: refund_partial_def find_None_iff find_Some_iff Let_def dest!: find_row_SomeD
        split: if_splits option.splits prod.splits dest: nth_mem)
next
  case (Inr r)
  obtain led' tx where r: "r = (led', tx)" by (cases r)
  note step = Inr [unfolded r]
  obtain t where t: "find_row t_id d (txs led) = Some t" "t_type t = DEBIT" "0 < c" "c \<le> t_amount t"
    "\<forall>x\<in>set (txs led). t_reverses x \<noteq> Some d" using step assms by (elim refund_InrE)
  then show ?thesis
    using refund_ok [OF assms step] refund_available [OF assms step t(1)] by (auto simp: step)
qed

theorem refund_outcome_witness:
  "case refund_partial (lots sample_spent) 10 4 30 ''why'' sample_spent of
     Inl e \<Rightarrow> False
   | Inr (led', tx) \<Rightarrow> total_available led' 10 ''u'' = 100"
proof -
  have facts: "total_available sample_spent 10 ''u'' = 70"
    "map_option (\<lambda>t. (t_type t, t_amount t, t_user t)) (find_row t_id 4 (txs sample_spent)) =
       Some (DEBIT, 80, ''u'')"
    "list_all (\<lambda>t. t_reverses t \<noteq> Some 4) (txs sample_spent)" by code_simp+
  then obtain t where t: "find_row t_id 4 (txs sample_spent) = Some t" "t_type t = DEBIT"
    "t_amount t = 80" "t_user t = ''u''" by auto
  have none: "\<not> (\<exists>t\<in>set (txs sample_spent). t_reverses t = Some 4)"
    using facts(3) by (simp add: list_all_iff)
  from refund_outcome [OF sample_spent_ok snapshot_self [OF ledger_okD(3) [OF sample_spent_ok]],
      where now = 10 and d = 4 and c = 30 and reason = "''why''"] facts(1) t none
  show ?thesis
    by (cases "refund_partial (lots sample_spent) 10 4 30 ''why'' sample_spent") auto
qed

text \<open>Credits a refund cannot put back into the lot they came from come back in a new refund lot
  that can be spent now: a purchased one never expires, a plan one expires strictly later than now.
  A lot that has expired is never refilled, and no lot gets back more than this debit took from it.\<close>

lemma refund_lot_lifetimes:
  assumes "ledger_ok led" and "snapshot_for d snap led"
    and "refund_partial snap now d c reason led = Inr (led', tx)" and "l \<in> set (lots led')"
  shows "case find_row l_id (l_id l) (lots led) of
       None \<Rightarrow> l_source l = REFUND_LOT \<and> 0 < l_remaining l \<and> alive now l \<and>
         (l_expires l = None \<longleftrightarrow> l_kind l = PURCHASED)
     | Some old \<Rightarrow> l = old \<or> (alive now old \<and> l_expires l = l_expires old \<and> l_remaining old < l_remaining l \<and>
         (\<exists>a\<in>set (allocs led). a_tx a = d \<and> a_lot a = l_id l \<and>
            l_remaining l - l_remaining old \<le> a_amount a))"
proof (cases "find_row l_id (l_id l) (lots led)")
  case None
  then have "l_id l \<notin> l_id ` set (lots led)" by (simp add: find_row_None_iff)
  with refund_new_lots [OF assms] show ?thesis
    unfolding None by (cases "l_kind l") (auto simp: alive_def split: option.splits)
next
  case (Some old)
  then have old: "old \<in> set (lots led)" "l_id old = l_id l" by (auto dest: find_row_SomeD)
  obtain k where k: "k \<ge> 0" "old\<lparr> l_remaining := l_remaining old + k \<rparr> \<in> set (lots led')"
    "0 < k \<longrightarrow> alive now old \<and> (\<exists>a\<in>set (allocs led). a_tx a = d \<and> a_lot a = l_id old \<and> k \<le> a_amount a)"
    using refund_old_lots [OF assms(1-3) old(1)] by blast
  have "distinct (map l_id (lots led'))"
    using ledger_okD(1) [OF refund_ok [OF assms(1-3)]] by (simp add: lots_ok_def)
  then have l: "l = old\<lparr> l_remaining := l_remaining old + k \<rparr>"
    using assms(4) k(2) old(2) by (auto simp: distinct_map inj_on_def)
  show ?thesis
  proof (cases "k = 0")
    case True
    then show ?thesis unfolding Some by (simp add: l)
  next
    case False
    with k(1,3) show ?thesis unfolding Some by (auto simp: l)
  qed
qed

text \<open>The refund of the example debit at 600, when the fifty plan credits have expired.\<close>

definition sample_late :: ledger where
  "sample_late = (case refund_partial (lots sample_spent) 600 4 80 ''late'' sample_spent of
     Inl e \<Rightarrow> sample_spent | Inr (led, r) \<Rightarrow> led)"

lemma sample_late_step: "refund_partial (lots sample_spent) 600 4 80 ''late'' sample_spent = Inr (sample_late, 5)"
proof -
  have "(case refund_partial (lots sample_spent) 600 4 80 ''late'' sample_spent of
      Inl e \<Rightarrow> False | Inr (led, r) \<Rightarrow> r = 5)" by code_simp
  then show ?thesis unfolding sample_late_def by (auto split: sum.splits)
qed

text \<open>The unlocked read of the lots a refund starts from may be stale: any read taken since the debit
  was committed gives the same refund as a read taken now.\<close>

lemma stale_read_same_refund:
  assumes "history_ok hist" and "read_debit age hist d = Some old"
  shows "refund_partial (lots old) now d c reason (hd hist) =
     refund_partial (lots (hd hist)) now d c reason (hd hist)"
proof -
  have "ledger_ok (hd hist)" using assms(1) by (simp add: history_ok_def)
  then show ?thesis
    using refund_partial_stale [OF _ _ history_snapshot [OF assms]] ledger_okD by blast
qed

lemma sample_history: "history_ok [sample_spent, sample_ledger]"
  using sample_spent_ok sample_ledger_ok later_debit [OF ledger_okD(1) [OF sample_ledger_ok] sample_step]
  by (simp add: history_ok_def)

text \<open>C33: A debit followed at the same instant by its full refund succeeds and restores what every user
  can spend.\<close>

theorem debit_refund_roundtrip:
  assumes "ledger_ok led" and "debit now inp led = Inr (led1, d, n)"
  shows "\<exists>led2. refund (lots led1) now d reason led1 = Inr (led2, next_id led1) \<and> ledger_ok led2 \<and>
     (\<forall>v. total_available led2 now v = total_available led now v)"
proof -
  note ok1 = debit_ok [OF assms]
  note snap = snapshot_self [OF ledger_okD(3) [OF ok1]]
  from assms(2) ledger_okD(1) [OF assms(1)] have d: "d = next_id led" "0 < d_amount inp"
    "txs led1 = txs (insert_tx (d_user inp) DEBIT (d_amount inp) (d_reason inp)
       (d_scan inp) (d_issue inp) None None led)"
    by (auto elim!: debit_InrE)
  define t where "t = last (txs led1)"
  have t: "t \<in> set (txs led1)" "t_id t = d" "t_type t = DEBIT" "t_amount t = d_amount inp" "t_user t = d_user inp"
    using d by (simp_all add: t_def)
  have find: "find_row t_id d (txs led1) = Some t"
    using ledger_okD(2) [OF ok1] t(1,2) find_row_unique unfolding txs_ok_def by metis
  have fresh: "\<forall>x\<in>set (txs led1). t_reverses x \<noteq> Some d"
    using ledger_okD(2,5) [OF assms(1)] d(1,3) by (fastforce simp: reversals_ok_def txs_ok_def)
  obtain led2 where step: "refund_partial (lots led1) now d (d_amount inp) reason led1 = Inr (led2, next_id led1)"
    using refund_partial_succeeds [OF ok1 snap find t(3) d(2) _ fresh] t(4) by auto
  have "filter (\<lambda>x. t_reverses x = Some d) (txs led1) = []" using fresh by (auto simp: filter_empty_conv)
  then have "refund (lots led1) now d reason led1 = Inr (led2, next_id led1)"
    using step find t(3,4) by (simp add: refund_def)
  moreover have "total_available led2 now v = total_available led now v" for v
    using refund_available [OF ok1 snap step find] debit_available [OF assms] t(5) by simp
  ultimately show ?thesis using refund_ok [OF ok1 snap step] by blast
qed

theorem debit_refund_roundtrip_witness:
  "\<exists>led2. refund (lots sample_spent) 10 4 ''undo'' sample_spent = Inr (led2, next_id sample_spent) \<and>
     total_available led2 10 ''u'' = total_available sample_ledger 10 ''u''"
  using debit_refund_roundtrip [OF sample_ledger_ok sample_step] by blast

text \<open>A debit is refunded at most once: once a refund of it is committed, every later attempt, of any
  amount and after any run of the service, is refused.\<close>

lemma refund_at_most_once:
  assumes "history_ok hist" and "exec_cmd now (Refund_Partial_Cmd age d c reason) hist = Inr led'"
  shows "\<exists>e. refund_partial snap now2 d c2 reason2 (hd (run_service cmds (led' # hist))) = Inl e"
proof -
  let ?hist = "run_service cmds (led' # hist)"
  obtain old tx where old: "read_debit age hist d = Some old"
    and step: "refund_partial (lots old) now d c reason (hd hist) = Inr (led', tx)"
    using assms(2) by (auto split: option.splits elim: discard_InrE)
  have ok: "ledger_ok (hd hist)" using assms(1) by (simp add: history_ok_def)
  have "Some d \<in> t_reverses ` set (txs led')"
    by (rule refund_InrE [OF ok history_snapshot [OF assms(1) old] step]) simp
  then obtain t where t: "t \<in> set (txs led')" "t_reverses t = Some d" by (metis imageE)
  have "later led' (hd ?hist)"
  proof -
    have start: "history_ok (led' # hist)" using exec_history assms by blast
    have grow: "x \<in> set h \<Longrightarrow> x \<in> set (run_service cs h)" for x cs h
      by (induction cs h rule: run_service.induct) (auto split: sum.splits)
    have "led' \<in> set ?hist" by (rule grow) simp
    with run_history [OF start, of cmds] show ?thesis by (simp add: history_ok_def)
  qed
  then have "t \<in> set (txs (hd ?hist))" "t_reverses t = Some d" using t by (auto simp: later_def)
  then have ne: "find (\<lambda>t. t_reverses t = Some d) (txs (hd ?hist)) \<noteq> None"
    by (auto simp: find_None_iff)
  have refused: "\<exists>e. refund_partial snap now2 d c2 reason2 led = Inl e"
    if "find (\<lambda>t. t_reverses t = Some d) (txs led) \<noteq> None" for led
  proof (cases "find_row t_id d (txs led)")
    case (Some o')
    then have id: "t_id o' = d" by (blast dest: find_row_SomeD)
    from that obtain y where "find (\<lambda>t. t_reverses t = Some d) (txs led) = Some y" by blast
    with Some id show ?thesis by (simp add: refund_partial_def)
  qed (simp add: refund_partial_def)
  show ?thesis using refused [OF ne] .
qed

section \<open>Expiry\<close>

text \<open>Credits the renewal sweep destroyed do not come back: a later refund of a debit that had drawn
  on the swept lot leaves that lot empty and dead, so the refunded credits go to another lot.\<close>

lemma swept_credits_stay_gone:
  assumes "ledger_ok led" and "expire_renewed_lots wall u as_of led = Inr (led1, r)"
    and "l \<in> set (lots led)" and "swept u as_of l" and "wall \<le> now"
    and "snapshot_for d snap led1" and "refund_partial snap now d c reason led1 = Inr (led2, tx)"
  shows "left_in led2 (l_id l) = 0 \<and> \<not> alive now (bury (min as_of wall) l)"
proof -
  note inv = ledger_okD(1) [OF assms(1)] and ok1 = expire_ok [OF assms(1,2)]
  let ?b = "bury (min as_of wall) l"
  have b: "?b \<in> set (lots led1)"
    using assms(3,4) expire_rows [OF inv assms(2)] by force
  then have dead: "\<not> alive now ?b"
    using swept_buried_dead [OF inv assms(2) b _ assms(3-5)] by simp
  obtain k where k: "k \<ge> 0" "?b\<lparr> l_remaining := l_remaining ?b + k \<rparr> \<in> set (lots led2)" "0 < k \<longrightarrow> alive now ?b"
    using refund_old_lots [OF ok1 assms(6,7) b] by blast
  with dead have "?b\<lparr> l_remaining := 0 \<rparr> \<in> set (lots led2)" by auto
  from left_in_row [OF ledger_okD(1) [OF refund_ok [OF ok1 assms(6,7)]] this] dead show ?thesis by simp
qed

text \<open>Twenty credits debited from the plan lot, whose other thirty are swept at 600.\<close>

definition small_debit :: debit_input where
  "small_debit = \<lparr> d_user = ''u'', d_amount = 20, d_reason = ''scan'', d_scan = None, d_issue = None \<rparr>"

definition small_spent :: ledger where
  "small_spent = (case debit 10 small_debit sample_ledger of Inl e \<Rightarrow> sample_ledger | Inr (led, r) \<Rightarrow> led)"

definition small_swept :: ledger where
  "small_swept = (case expire_renewed_lots 600 ''u'' 600 small_spent of
     Inl e \<Rightarrow> small_spent | Inr (led, r) \<Rightarrow> led)"

definition small_refunded :: ledger where
  "small_refunded = (case refund_partial (lots small_swept) 600 4 20 ''r'' small_swept of
     Inl e \<Rightarrow> small_swept | Inr (led, r) \<Rightarrow> led)"

lemma small_steps:
  "debit 10 small_debit sample_ledger = Inr (small_spent, (4, 20))"
  "expire_renewed_lots 600 ''u'' 600 small_spent = Inr (small_swept, (1, 30))"
  "refund_partial (lots small_swept) 600 4 20 ''r'' small_swept = Inr (small_refunded, 6)"
proof -
  have "(case debit 10 small_debit sample_ledger of Inl e \<Rightarrow> False | Inr (led, r) \<Rightarrow> r = (4, 20))" by code_simp
  then show "debit 10 small_debit sample_ledger = Inr (small_spent, (4, 20))"
    unfolding small_spent_def by (auto split: sum.splits)
  have "(case expire_renewed_lots 600 ''u'' 600 small_spent of Inl e \<Rightarrow> False | Inr (led, r) \<Rightarrow> r = (1, 30))"
    by code_simp
  then show "expire_renewed_lots 600 ''u'' 600 small_spent = Inr (small_swept, (1, 30))"
    unfolding small_swept_def by (auto split: sum.splits)
  have "(case refund_partial (lots small_swept) 600 4 20 ''r'' small_swept of
      Inl e \<Rightarrow> False | Inr (led, r) \<Rightarrow> r = 6)" by code_simp
  then show "refund_partial (lots small_swept) 600 4 20 ''r'' small_swept = Inr (small_refunded, 6)"
    unfolding small_refunded_def by (auto split: sum.splits)
qed

lemma small_spent_ok: "ledger_ok small_spent"
  using debit_ok [OF sample_ledger_ok small_steps(1)] .

text \<open>The sweep destroys exactly what had expired by its date: the ledger stays consistent, the count
  it reports is what the expiring-credits query promised, nobody's spendable credits at a later instant
  change, and a second sweep at the same date finds nothing.\<close>

lemma sweep_destroys_only_expired:
  assumes "ledger_ok led" and "expire_renewed_lots wall u as_of led = Inr (led', n, c)" and "as_of \<le> now"
  shows "ledger_ok led' \<and> c = credits_expiring_before led u as_of \<and>
     (\<forall>v. total_available led' now v = total_available led now v) \<and>
     expire_renewed_lots wall2 u as_of led' = Inr (led', 0, 0)"
proof -
  note inv = ledger_okD(1) [OF assms(1)] and ok' = expire_ok [OF assms(1,2)]
  note rows = expire_rows [OF inv assms(2)]
  have dead: "\<not> alive now l \<and> \<not> alive now (bury t l)" if "swept u as_of l" for l t
    using that assms(3) by (auto simp: swept_def alive_def split: option.splits)
  have "total_available led' now v = total_available led now v" for v
    using ledger_okD(1) [OF ok'] inv dead
    by (simp add: total_available_alive lots_ok_def rows o_def)
      (intro arg_cong [where f = sum_list] map_cong; auto)
  moreover have "c = credits_expiring_before led u as_of"
    using assms(2) inv by (auto simp: expiring_eq elim!: expire_InrE)
  moreover have "filter (swept u as_of) (lots led') = []"
    by (auto simp: rows filter_empty_conv) (auto simp: swept_def)
  then have "expire_renewed_lots wall2 u as_of led' = Inr (led', 0, 0)"
    by (simp add: expire_eq [OF ledger_okD(1) [OF ok']] Let_def)
  ultimately show ?thesis using ok' by blast
qed

section \<open>Every ledger the service commits\<close>

text \<open>C1: Whatever sequence of grants, adjustments, debits, refunds (with however stale reads) and sweeps
  the service is asked for, and whichever of them are refused, every ledger it commits is consistent:
  no lot is negative or above its grant, every debit and refund is covered by allocations, a debit is
  reversed at most once, and each user's lots hold exactly what their transactions sum to.\<close>

theorem every_commit_consistent:
  "list_all ledger_ok (run_service cmds [empty_ledger us ps])"
  using run_history [OF history_start [of us ps], of cmds] by (simp add: history_ok_def list_all_iff)

text \<open>A purchased credit never expires: if no raw grant asks for an expiring purchased lot, no run of
  the service ever produces one.\<close>

lemma purchased_never_expires:
  assumes "list_all (\<lambda>(now, cmd). permanent_cmd cmd) cmds"
  shows "permanent (hd (run_service cmds [empty_ledger us ps]))"
  using run_permanent [OF history_start, of us ps cmds] assms empty_ledger_permanent
  by (simp add: list_all_iff)

section \<open>Retries\<close>


end
