(* ===== verification/Scan_Phases.thy ===== *)
theory Scan_Phases
  imports Scan_Settlement_Props
begin

text \<open>
  The orchestration of a scan: events (\<^verbatim>\<open>emit.ts\<close>), the queueing of phases and the questionnaire
  pause (\<^verbatim>\<open>phases.ts\<close>, \<^verbatim>\<open>questionnaire-timeout-handler.ts\<close> and the API's
  \<^verbatim>\<open>questionnaire.service.ts\<close>), and the phase job handler (\<^verbatim>\<open>orchestrator.ts\<close>).  What Redis and
  BullMQ accept, what a module run returns and what the plan gate answers are functions of an
  environment.  A thrown error is \<open>Inl\<close> of its message, with the world as the throw left it.
\<close>

section \<open>The environment\<close>

record env =
  e_observers :: "observer list"
  e_publishes :: "scan_event \<Rightarrow> bool"
  e_enqueues :: "phase_job \<Rightarrow> bool"
  e_delays :: "string \<Rightarrow> bool"

type_synonym 'a action = "world \<Rightarrow> (string + 'a) \<times> world"

definition and_then :: "'a action \<Rightarrow> ('a \<Rightarrow> 'b action) \<Rightarrow> 'b action" where
  "and_then m k w = (case m w of (Inl e, w') \<Rightarrow> (Inl e, w') | (Inr x, w') \<Rightarrow> k x w')"

definition ret :: "'a \<Rightarrow> 'a action" where "ret x w = (Inr x, w)"

definition throw :: "string \<Rightarrow> 'a action" where "throw e w = (Inl e, w)"

lemma and_then_simps [simp]:
  "and_then (ret x) k w = k x w"
  "and_then (throw e) k w = (Inl e, w)"
  by (simp_all add: and_then_def ret_def throw_def)

section \<open>Events\<close>

text \<open>Persist first; a failed publish is reported, not thrown.  The result says if it went out.\<close>

definition emit :: "env \<Rightarrow> scan_event \<Rightarrow> unit action \<Rightarrow> bool action" where
  "emit env ev persist =
     and_then persist (\<lambda>_ w.
       if e_publishes env ev then (Inr True, w\<lparr> w_events := w_events w @ [ev] \<rparr>)
       else (Inr False, w))"

definition scan_emit :: "string \<Rightarrow> env \<Rightarrow> scan_event \<Rightarrow> unit action \<Rightarrow> bool action" where
  "scan_emit bound env ev persist =
     (if event_scan ev \<noteq> bound
      then throw (''This emitter is bound to scan '' @ bound @ '' but the event names '' @ event_scan ev)
      else emit env ev persist)"

definition move_and_announce ::
  "env \<Rightarrow> millis \<Rightarrow> string \<Rightarrow> scan_state \<Rightarrow> scan_state \<Rightarrow> scan_field list \<Rightarrow>
   transition_outcome action" where
  "move_and_announce env now i from to extra =
     and_then (\<lambda>w. let (out, w') = transition (e_observers env) now i from to extra w in (Inr out, w'))
       (\<lambda>out. if \<not> moved_ok out then ret out
              else and_then (scan_emit i env (State_Event i to (progress_percent_for to)) (ret ()))
                     (\<lambda>_. ret out))"

section \<open>Queueing\<close>

fun scan_state_label :: "scan_state \<Rightarrow> string" where
  "scan_state_label QUEUED = ''QUEUED''"
| "scan_state_label RUNNING_PHASE_1 = ''RUNNING_PHASE_1''"
| "scan_state_label AWAITING_QUESTIONNAIRE = ''AWAITING_QUESTIONNAIRE''"
| "scan_state_label RUNNING_PHASE_2 = ''RUNNING_PHASE_2''"
| "scan_state_label RUNNING_PHASE_3 = ''RUNNING_PHASE_3''"
| "scan_state_label RUNNING_MASTER = ''RUNNING_MASTER''"
| "scan_state_label RUNNING_DOCS = ''RUNNING_DOCS''"
| "scan_state_label COMPLETED = ''COMPLETED''"
| "scan_state_label FAILED = ''FAILED''"
| "scan_state_label CANCELLED = ''CANCELLED''"
| "scan_state_label TIMED_OUT = ''TIMED_OUT''"

definition job_id_for :: "string \<Rightarrow> scan_state \<Rightarrow> nat \<Rightarrow> string" where
  "job_id_for i phase attempt = i @ '':'' @ scan_state_label phase @ '':'' @ decimal attempt"

definition enqueue_phase :: "env \<Rightarrow> phase_job \<Rightarrow> string action" where
  "enqueue_phase env job w =
     (if e_enqueues env job
      then (Inr (job_id_for (p_scan job) (p_phase job) (p_attempt job)),
            w\<lparr> w_phase_jobs := w_phase_jobs w @ [job] \<rparr>)
      else (Inl ''queue.add'', w))"

section \<open>The questionnaire pause\<close>

definition await_questionnaire :: "env \<Rightarrow> millis \<Rightarrow> string \<Rightarrow> millis \<Rightarrow> (bool \<times> millis) action" where
  "await_questionnaire env now i wait_ms =
     (let deadline = now + wait_ms in
      and_then (move_and_announce env now i RUNNING_PHASE_1 AWAITING_QUESTIONNAIRE
                  [Set_Deadline (Some deadline)])
        (\<lambda>out. if \<not> moved_ok out then ret (False, deadline)
               else and_then (scan_emit i env (Questionnaire_Event i deadline) (ret ()))
                 (\<lambda>_ w. if e_delays env i
                        then (Inr (True, deadline),
                              w\<lparr> w_deadline_jobs := w_deadline_jobs w @ [(i, wait_ms)] \<rparr>)
                        else (Inl ''queue.add'', w))))"

datatype resume_reason = Answered | Skipped | Deadline

definition resume_after_questionnaire ::
  "env \<Rightarrow> millis \<Rightarrow> string \<Rightarrow> resume_reason \<Rightarrow> module_type list \<Rightarrow> unit action option \<Rightarrow>
   (bool \<times> resume_reason) action" where
  "resume_after_questionnaire env now i reason modules before_enqueue =
     and_then (move_and_announce env now i AWAITING_QUESTIONNAIRE RUNNING_PHASE_2 [Set_Deadline None])
       (\<lambda>out. if \<not> moved_ok out then ret (False, reason)
              else and_then (case before_enqueue of None \<Rightarrow> ret () | Some a \<Rightarrow> a)
                (\<lambda>_. and_then (enqueue_phase env \<lparr> p_scan = i, p_phase = RUNNING_PHASE_2,
                         p_modules = modules, p_attempt = 1, p_transitioned = True \<rparr>)
                       (\<lambda>_. ret (True, reason))))"

text \<open>\<^verbatim>\<open>DesignIntent.scanId\<close> is unique: a second row for a scan is refused.\<close>

definition create_intent :: "string \<Rightarrow> intent_source \<Rightarrow> unit action" where
  "create_intent i src w =
     (if i \<in> fst ` set (w_intents w) then (Inl ''Unique constraint failed'', w)
      else (Inr (), w\<lparr> w_intents := w_intents w @ [(i, src)] \<rparr>))"

definition handle_questionnaire_timeout :: "env \<Rightarrow> millis \<Rightarrow> string \<Rightarrow> unit action" where
  "handle_questionnaire_timeout env now i w =
     (case find_row s_id i (w_scans w) of
        None \<Rightarrow> (Inr (), w)
      | Some s \<Rightarrow>
          and_then (resume_after_questionnaire env now i Deadline
                      (modules_for_phase RUNNING_PHASE_2 (s_requested s))
                      (Some (create_intent i DEFAULTED)))
            (\<lambda>_. ret ()) w)"

text \<open>The API's side of the race, shared by an answer (\<open>SUPPLIED\<close>) and a skip (\<open>SKIPPED\<close>).\<close>

definition api_resume :: "env \<Rightarrow> string \<Rightarrow> user_id \<Rightarrow> intent_source \<Rightarrow> unit action" where
  "api_resume env i u src w =
     (let (count, w1) =
            guarded_update i (\<lambda>s. s_user s = u \<and> s_state s = AWAITING_QUESTIONNAIRE)
              (\<lambda>s. s\<lparr> s_state := RUNNING_PHASE_2, s_deadline := None \<rparr>) w
      in if count = 0 then
           (Inl (if find (\<lambda>s. s_id s = i \<and> s_user s = u) (w_scans w1) = None
                 then ''QuestionnaireScanNotFound'' else ''QuestionnaireAlreadyResolved''), w1)
         else case find_row s_id i (w_scans w1) of
           None \<Rightarrow> (Inl ''NotFound'', w1)
         | Some s \<Rightarrow>
             and_then (create_intent i src)
               (\<lambda>_. and_then (enqueue_phase env \<lparr> p_scan = i, p_phase = RUNNING_PHASE_2,
                        p_modules = modules_for_phase RUNNING_PHASE_2 (s_requested s),
                        p_attempt = 1, p_transitioned = True \<rparr>)
                      (\<lambda>_. ret ())) w1)"

section \<open>The phase handler\<close>

definition module_running_phases :: "scan_state list" where
  "module_running_phases = [RUNNING_PHASE_1, RUNNING_PHASE_2, RUNNING_PHASE_3]"

text \<open>\<^verbatim>\<open>moduleResult.upsert\<close> on the pair of scan and module.\<close>

definition upsert_result :: "module_type \<Rightarrow> module_state \<Rightarrow> scan \<Rightarrow> scan" where
  "upsert_result m st s =
     s\<lparr> s_results :=
          (if m \<in> fst ` set (s_results s)
           then map (\<lambda>r. if fst r = m then (m, st) else r) (s_results s)
           else s_results s @ [(m, st)]) \<rparr>"

text \<open>
  One module of a phase: two checkpoints look at the cancellation signal, before the run and
  before its result is written.  A run returns a state or throws.
\<close>

record module_env =
  me_cancelled_before :: "module_type \<Rightarrow> bool"
  me_cancelled_after :: "module_type \<Rightarrow> bool"
  me_run :: "module_type \<Rightarrow> string + module_state"

definition run_and_persist_module :: "env \<Rightarrow> module_env \<Rightarrow> string \<Rightarrow> module_type \<Rightarrow> unit action" where
  "run_and_persist_module env me i m =
     (if me_cancelled_before me m then ret ()
      else and_then (scan_emit i env (Module_Started_Event i m) (ret ()))
        (\<lambda>_. case me_run me m of
            Inl e \<Rightarrow> throw e
          | Inr st \<Rightarrow>
              if me_cancelled_after me m then ret ()
              else and_then (\<lambda>w. (Inr (), snd (guarded_update i (\<lambda>_. True) (upsert_result m st) w)))
                (\<lambda>_. and_then (scan_emit i env (Module_Complete_Event i m st) (ret ())) (\<lambda>_. ret ()))))"

text \<open>The modules of a phase, in the order in which their writes commit.\<close>

fun run_modules :: "env \<Rightarrow> module_env \<Rightarrow> string \<Rightarrow> module_type list \<Rightarrow> unit action" where
  "run_modules env me i [] = ret ()"
| "run_modules env me i (m # ms) =
     and_then (run_and_persist_module env me i m) (\<lambda>_. run_modules env me i ms)"

text \<open>
  Walking past phases with nothing to run.  The phase order has five states, so five steps are
  enough; \<open>None\<close> is a lost race, \<open>Some\<close> the phase reached and the one after it.
\<close>

fun walk_forward ::
  "nat \<Rightarrow> env \<Rightarrow> millis \<Rightarrow> string \<Rightarrow> module_type list \<Rightarrow> scan_state \<Rightarrow> scan_state option \<Rightarrow>
   (scan_state \<times> scan_state option) option action" where
  "walk_forward 0 env now i req current nxt = ret (Some (current, nxt))"
| "walk_forward (Suc fuel) env now i req current nxt =
     (case nxt of
        None \<Rightarrow> ret (Some (current, None))
      | Some n \<Rightarrow>
          if n \<in> set module_running_phases \<and> length (modules_for_phase n req) = 0
          then and_then (move_and_announce env now i current n [])
                 (\<lambda>out. if \<not> moved_ok out then ret None
                        else walk_forward fuel env now i req n (next_phase n))
          else ret (Some (current, Some n)))"

datatype gate_answer = No_Plan | Not_Ready | Deadline_Passed | Continued

record phase_env =
  pe_modules :: module_env
  pe_prepare :: "scan \<Rightarrow> string option"
  pe_gate :: "(unit action \<Rightarrow> gate_answer action) option"
  pe_master :: "unit action"
  pe_docs :: "unit action"
  pe_wait_ms :: millis

definition phase_job_for :: "string \<Rightarrow> scan_state \<Rightarrow> module_type list \<Rightarrow> bool \<Rightarrow> phase_job" where
  "phase_job_for i phase modules flag =
     \<lparr> p_scan = i, p_phase = phase, p_modules = modules, p_attempt = 1, p_transitioned = flag \<rparr>"

definition continue_chain ::
  "env \<Rightarrow> phase_env \<Rightarrow> millis \<Rightarrow> scan \<Rightarrow> scan_state \<Rightarrow> unit action" where
  "continue_chain env pe now s phase =
     and_then (walk_forward 5 env now (s_id s) (s_requested s) phase (next_phase phase))
       (\<lambda>walked. case walked of
          None \<Rightarrow> ret ()
        | Some (current, None) \<Rightarrow> ret ()
        | Some (current, Some n) \<Rightarrow>
            if n \<in> set module_running_phases then
              let next_modules = modules_for_phase n (s_requested s) in
              if UI \<in> set next_modules
              then and_then (await_questionnaire env now (s_id s) (pe_wait_ms pe)) (\<lambda>_. ret ())
              else and_then (enqueue_phase env (phase_job_for (s_id s) n next_modules False)) (\<lambda>_. ret ())
            else
              let legacy = and_then (enqueue_phase env (phase_job_for (s_id s) n (s_requested s) False))
                             (\<lambda>_. ret ());
                  enqueue_master =
                    and_then (scan_emit (s_id s) env (State_Event (s_id s) RUNNING_MASTER 80) (ret ()))
                      (\<lambda>_. and_then (enqueue_phase env (phase_job_for (s_id s) n (s_requested s) True))
                             (\<lambda>_. ret ()))
              in case pe_gate pe of
                   None \<Rightarrow> legacy
                 | Some gate \<Rightarrow>
                     and_then (gate enqueue_master)
                       (\<lambda>a. if a \<noteq> No_Plan then ret () else legacy))"

definition phase_body :: "env \<Rightarrow> phase_env \<Rightarrow> millis \<Rightarrow> scan \<Rightarrow> phase_job \<Rightarrow> unit action" where
  "phase_body env pe now s job =
     (if p_phase job \<in> set module_running_phases then
        (case pe_prepare pe s of
           Some e \<Rightarrow> throw e
         | None \<Rightarrow>
             and_then (run_modules env (pe_modules pe) (s_id s) (p_modules job))
               (\<lambda>_. continue_chain env pe now s (p_phase job)))
      else if p_phase job = RUNNING_MASTER then
        and_then (pe_master pe)
          (\<lambda>_. and_then (enqueue_phase env (phase_job_for (s_id s) RUNNING_DOCS (s_requested s) False))
                 (\<lambda>_. ret ()))
      else if p_phase job = RUNNING_DOCS then
        and_then (pe_docs pe)
          (\<lambda>_. and_then (move_and_announce env now (s_id s) RUNNING_DOCS COMPLETED []) (\<lambda>_. ret ()))
      else ret ())"

definition refunded_for_scan :: "string \<Rightarrow> ledger \<Rightarrow> int" where
  "refunded_for_scan i led =
     (\<Sum>t\<leftarrow>txs led. if t_scan t = Some i \<and> t_type t = REFUND then t_amount t else 0)"

definition fail_scan :: "env \<Rightarrow> millis \<Rightarrow> string \<Rightarrow> scan_state \<Rightarrow> string \<Rightarrow> unit action" where
  "fail_scan env now i from message w =
     (let (out, w1) = transition (e_observers env) now i from FAILED [Set_Failure message] w in
      if \<not> moved_ok out then (Inr (), w1)
      else and_then (scan_emit i env (Failed_Event i (refunded_for_scan i (w_ledger w1))) (ret ()))
             (\<lambda>_. ret ()) w1)"

definition handle_phase :: "env \<Rightarrow> phase_env \<Rightarrow> millis \<Rightarrow> phase_job \<Rightarrow> unit action" where
  "handle_phase env pe now job w =
     (case find_row s_id (p_scan job) (w_scans w) of
        None \<Rightarrow> (Inr (), w)
      | Some s \<Rightarrow>
          let attempt =
                (if p_transitioned job then
                   (if s_state s \<noteq> p_phase job then ret () else phase_body env pe now s job)
                 else and_then (move_and_announce env now (p_scan job) (s_state s) (p_phase job) [])
                        (\<lambda>out. if \<not> moved_ok out then ret () else phase_body env pe now s job))
          in case attempt w of
               (Inr _, w1) \<Rightarrow> (Inr (), w1)
             | (Inl e, w1) \<Rightarrow> fail_scan env now (p_scan job) (p_phase job) e w1)"

end
