(* ===== verification/Scan_Race.thy ===== *)
theory Scan_Race
  imports Scan_Phases
begin

text \<open>
  The questionnaire race as a step relation: the deadline job, an answer, a skip, a cancellation
  and the timeout sweep act on the same scans in any order.  At most one of them resumes a scan,
  and the winner's design intent is recorded before its phase-2 job exists.
\<close>

section \<open>Closed forms\<close>

definition announce :: "env \<Rightarrow> scan_event \<Rightarrow> world \<Rightarrow> world" where
  "announce env ev w = (if e_publishes env ev then w\<lparr> w_events := w_events w @ [ev] \<rparr> else w)"

lemma announce_simps [simp]:
  "w_scans (announce env ev w) = w_scans w"
  "w_ledger (announce env ev w) = w_ledger w"
  "w_intents (announce env ev w) = w_intents w"
  "w_phase_jobs (announce env ev w) = w_phase_jobs w"
  "w_deadline_jobs (announce env ev w) = w_deadline_jobs w"
  "scans_ok (announce env ev w) = scans_ok w"
  "scan_state_of i (announce env ev w) = scan_state_of i w"
  by (simp_all add: announce_def scans_ok_def scan_state_of_def)

lemma scan_emit_ret:
  "event_scan ev = i \<Longrightarrow> scan_emit i env ev (ret ()) w = (Inr (e_publishes env ev), announce env ev w)"
  by (simp add: scan_emit_def emit_def announce_def)

lemma move_and_announce_lost:
  assumes "scans_ok w" and "\<not> can_transition from to \<or> scan_state_of i w \<noteq> Some from"
  shows "\<exists>out. move_and_announce env now i from to extra w = (Inr out, w) \<and> \<not> moved_ok out"
  using assms
  by (auto simp: move_and_announce_def and_then_def ret_def transition_eq scan_state_of_def
      split: option.splits)

lemma move_and_announce_won:
  assumes "scans_ok w" and "can_transition from to" and "scan_state_of i w = Some from"
    and "\<not> is_terminal to"
  shows "move_and_announce env now i from to extra w = (Inr (Moved from to),
     announce env (State_Event i to (progress_percent_for to))
       (snd (guarded_update i (\<lambda>s. s_state s = from) (transition_data now from to extra) w)))"
  using assms
  by (auto simp: move_and_announce_def and_then_def ret_def transition_eq scan_state_of_def
      scan_emit_ret Let_def simp del: is_terminal_iff)

lemma state_after_update:
  assumes "scan_state_of i w = Some from" and "\<And>s. s_id (f s) = s_id s" and "\<And>s. s_state (f s) = to"
    and "\<And>s. find_row s_id i (w_scans w) = Some s \<Longrightarrow> g s"
  shows "scan_state_of j (snd (guarded_update i g f w)) =
     (if j = i then Some to else scan_state_of j w)"
proof -
  from assms(1) obtain s where s: "find_row s_id i (w_scans w) = Some s" "s_state s = from"
    by (auto simp: scan_state_of_def)
  with assms(4) have "g s" by simp
  with s assms(2,3) show ?thesis
    by (cases "j = i"; cases "find_row s_id j (w_scans w)") (simp_all add: scan_state_of_def guarded_find)
qed

section \<open>The invariant of the race\<close>

definition phase_two_jobs :: "string \<Rightarrow> world \<Rightarrow> phase_job list" where
  "phase_two_jobs i w = filter (\<lambda>j. p_scan j = i \<and> p_phase j = RUNNING_PHASE_2) (w_phase_jobs w)"

definition intent_recorded :: "string \<Rightarrow> world \<Rightarrow> bool" where
  "intent_recorded i w \<longleftrightarrow> i \<in> fst ` set (w_intents w)"

definition race_ok :: "world \<Rightarrow> bool" where
  "race_ok w \<longleftrightarrow> scans_ok w \<and> distinct (map fst (w_intents w)) \<and>
     (\<forall>i. (scan_state_of i w = Some AWAITING_QUESTIONNAIRE \<longrightarrow>
             \<not> intent_recorded i w \<and> phase_two_jobs i w = []) \<and>
          length (phase_two_jobs i w) \<le> 1 \<and>
          (phase_two_jobs i w \<noteq> [] \<longrightarrow> intent_recorded i w))"

text \<open>Winning: out of the pause, then the intent, then the job.\<close>

definition resume_tail :: "env \<Rightarrow> string \<Rightarrow> intent_source \<Rightarrow> module_type list \<Rightarrow> world \<Rightarrow> (string + string) \<times> world"
where
  "resume_tail env i src modules =
     and_then (create_intent i src)
       (\<lambda>_. enqueue_phase env \<lparr> p_scan = i, p_phase = RUNNING_PHASE_2, p_modules = modules,
              p_attempt = 1, p_transitioned = True \<rparr>)"

lemma resume_tail_race:
  assumes ok: "race_ok w" and aw: "scan_state_of i w = Some AWAITING_QUESTIONNAIRE"
    and w1: "scans_ok w1" "w_intents w1 = w_intents w" "w_phase_jobs w1 = w_phase_jobs w"
      "\<And>j. scan_state_of j w1 = (if j = i then Some RUNNING_PHASE_2 else scan_state_of j w)"
  shows "race_ok (snd (resume_tail env i src modules w1))"
proof -
  from ok aw have none: "\<not> intent_recorded i w" "phase_two_jobs i w = []"
    by (simp_all add: race_ok_def)
  let ?job = "\<lparr> p_scan = i, p_phase = RUNNING_PHASE_2, p_modules = modules, p_attempt = 1,
    p_transitioned = True \<rparr>"
  let ?w2 = "w1\<lparr> w_intents := w_intents w1 @ [(i, src)] \<rparr>"
  have res: "snd (resume_tail env i src modules w1) =
      (if e_enqueues env ?job then ?w2\<lparr> w_phase_jobs := w_phase_jobs w1 @ [?job] \<rparr> else ?w2)"
    using none(1) w1(2)
    by (simp add: resume_tail_def and_then_def create_intent_def enqueue_phase_def intent_recorded_def)
  let ?W = "snd (resume_tail env i src modules w1)"
  have rec: "intent_recorded j ?W \<longleftrightarrow> j = i \<or> intent_recorded j w" for j
    unfolding res using w1(2) by (auto simp: intent_recorded_def)
  have jobs: "phase_two_jobs j ?W =
      phase_two_jobs j w @ (if j = i \<and> e_enqueues env ?job then [?job] else [])" for j
    unfolding res using w1(3) by (simp add: phase_two_jobs_def)
  have st: "scan_state_of j ?W = (if j = i then Some RUNNING_PHASE_2 else scan_state_of j w)" for j
  proof -
    have "scan_state_of j ?W = scan_state_of j w1" unfolding res by (simp add: scan_state_of_def)
    with w1(4) show ?thesis by simp
  qed
  have base: "scans_ok ?W" "distinct (map fst (w_intents ?W))"
    unfolding res using w1(1,2) ok none(1) by (auto simp: scans_ok_def race_ok_def intent_recorded_def)
  have "(scan_state_of j ?W = Some AWAITING_QUESTIONNAIRE \<longrightarrow>
           \<not> intent_recorded j ?W \<and> phase_two_jobs j ?W = []) \<and>
        length (phase_two_jobs j ?W) \<le> 1 \<and> (phase_two_jobs j ?W \<noteq> [] \<longrightarrow> intent_recorded j ?W)" for j
    using ok none unfolding race_ok_def by (cases "j = i") (auto simp: rec jobs st)
  with base show ?thesis by (simp only: race_ok_def) blast
qed

lemma and_then_ret_snd [simp]: "snd (and_then m (\<lambda>_. ret x) w) = snd (m w)"
  by (auto simp: and_then_def ret_def split: prod.splits sum.splits)

lemma and_then_ret_snd2 [simp]:
  "snd (and_then m (\<lambda>x. and_then (k x) (\<lambda>_. ret y)) w) = snd (and_then m k w)"
  by (auto simp: and_then_def ret_def split: prod.splits sum.splits)

lemma deadline_race:
  assumes ok: "race_ok w"
  shows "race_ok (snd (handle_questionnaire_timeout env now i w))"
proof (cases "find_row s_id i (w_scans w)")
  case None
  then show ?thesis using ok by (simp add: handle_questionnaire_timeout_def)
next
  case (Some s)
  have scans: "scans_ok w" using ok by (simp add: race_ok_def)
  let ?m = "modules_for_phase RUNNING_PHASE_2 (s_requested s)"
  show ?thesis
  proof (cases "s_state s = AWAITING_QUESTIONNAIRE")
    case False
    then have "scan_state_of i w \<noteq> Some AWAITING_QUESTIONNAIRE" using Some by (simp add: scan_state_of_def)
    then obtain out where
      "move_and_announce env now i AWAITING_QUESTIONNAIRE RUNNING_PHASE_2 [Set_Deadline None] w = (Inr out, w)"
      "\<not> moved_ok out" using move_and_announce_lost [OF scans] by blast
    then show ?thesis using Some ok
      by (simp add: handle_questionnaire_timeout_def resume_after_questionnaire_def and_then_def ret_def)
  next
    case True
    then have aw: "scan_state_of i w = Some AWAITING_QUESTIONNAIRE"
      using Some by (simp add: scan_state_of_def)
    let ?g = "\<lambda>s. s_state s = AWAITING_QUESTIONNAIRE"
    let ?f = "transition_data now AWAITING_QUESTIONNAIRE RUNNING_PHASE_2 [Set_Deadline None]"
    let ?w1 = "announce env (State_Event i RUNNING_PHASE_2 (progress_percent_for RUNNING_PHASE_2))
      (snd (guarded_update i ?g ?f w))"
    have move: "move_and_announce env now i AWAITING_QUESTIONNAIRE RUNNING_PHASE_2 [Set_Deadline None] w =
        (Inr (Moved AWAITING_QUESTIONNAIRE RUNNING_PHASE_2), ?w1)"
      by (rule move_and_announce_won [OF scans _ aw]) (simp_all add: can_transition_def)
    have "snd (handle_questionnaire_timeout env now i w) = snd (resume_tail env i DEFAULTED ?m ?w1)"
      using Some
      by (simp add: handle_questionnaire_timeout_def resume_after_questionnaire_def resume_tail_def
          and_then_def [of "move_and_announce env now i AWAITING_QUESTIONNAIRE RUNNING_PHASE_2 [Set_Deadline None]"] move)
    moreover have "race_ok (snd (resume_tail env i DEFAULTED ?m ?w1))"
      by (rule resume_tail_race [OF ok aw])
        (use state_after_update [OF aw, of ?f RUNNING_PHASE_2 ?g] True Some scans in simp_all)
    ultimately show ?thesis by simp
  qed
qed

lemma api_race:
  assumes ok: "race_ok w"
  shows "race_ok (snd (api_resume env i u src w))"
proof -
  have scans: "scans_ok w" using ok by (simp add: race_ok_def)
  let ?g = "\<lambda>s. s_user s = u \<and> s_state s = AWAITING_QUESTIONNAIRE"
  let ?f = "\<lambda>s. s\<lparr> s_state := RUNNING_PHASE_2, s_deadline := None \<rparr>"
  let ?w1 = "snd (guarded_update i ?g ?f w)"
  note count = guarded_count [OF scans, of i ?g ?f]
  show ?thesis
  proof (cases "\<exists>s. find_row s_id i (w_scans w) = Some s \<and> ?g s")
    case False
    then have c0: "fst (guarded_update i ?g ?f w) = 0" using count by (auto split: option.splits)
    have "\<not> (s_id r = i \<and> ?g r)" if "r \<in> set (w_scans w)" for r
      using scans that False find_row_unique [of s_id "w_scans w" r] by (auto simp: scans_ok_def)
    then have "map (\<lambda>s. if s_id s = i \<and> ?g s then ?f s else s) (w_scans w) = w_scans w"
      by (intro map_idI) metis
    then have "?w1 = w" by (simp add: guarded_update_def)
    with c0 ok show ?thesis by (cases "guarded_update i ?g ?f w") (simp add: api_resume_def)
  next
    case True
    then obtain s where s: "find_row s_id i (w_scans w) = Some s" "?g s" by blast
    then have aw: "scan_state_of i w = Some AWAITING_QUESTIONNAIRE" by (simp add: scan_state_of_def)
    have c1: "fst (guarded_update i ?g ?f w) = 1" using count s by simp
    have row: "find_row s_id i (w_scans ?w1) = Some (?f s)" using s by (simp add: guarded_find)
    have "snd (api_resume env i u src w) =
        snd (resume_tail env i src (modules_for_phase RUNNING_PHASE_2 (s_requested s)) ?w1)"
      using c1 row by (cases "guarded_update i ?g ?f w") (simp add: api_resume_def resume_tail_def)
    moreover have "race_ok (snd (resume_tail env i src (modules_for_phase RUNNING_PHASE_2 (s_requested s)) ?w1))"
      by (rule resume_tail_race [OF ok aw])
        (use state_after_update [OF aw, of ?f RUNNING_PHASE_2 ?g] s scans in simp_all)
    ultimately show ?thesis by simp
  qed
qed

text \<open>The other exits move scans to terminal states and touch neither intents nor jobs.\<close>

lemma race_ok_exit:
  assumes "race_ok w" and "scans_ok w'" and "w_intents w' = w_intents w" and "w_phase_jobs w' = w_phase_jobs w"
    and "\<And>i. scan_state_of i w' = Some AWAITING_QUESTIONNAIRE \<Longrightarrow> scan_state_of i w = Some AWAITING_QUESTIONNAIRE"
  shows "race_ok w'"
  using assms by (auto simp: race_ok_def phase_two_jobs_def intent_recorded_def)

lemma guarded_exit_state:
  assumes "\<And>s. s_id (f s) = s_id s" and "\<And>s. s_state (f s) \<noteq> AWAITING_QUESTIONNAIRE"
    and "scan_state_of j (snd (guarded_update i g f w)) = Some AWAITING_QUESTIONNAIRE"
  shows "scan_state_of j w = Some AWAITING_QUESTIONNAIRE"
  using assms by (cases "find_row s_id j (w_scans w)") (auto simp: scan_state_of_def guarded_find split: if_splits)

lemma refund_charge_frame:
  "refund_scan_charge now i c reason w = Inr w' \<Longrightarrow>
     w_scans w' = w_scans w \<and> w_intents w' = w_intents w \<and> w_phase_jobs w' = w_phase_jobs w"
  by (auto simp: refund_scan_charge_def split: option.splits sum.splits)

lemma observer_frame [simp]:
  "w_intents (fst (terminal_refund_observer now info w)) = w_intents w"
  "w_phase_jobs (fst (terminal_refund_observer now info w)) = w_phase_jobs w"
  by (auto simp: terminal_refund_observer_def Let_def split: option.splits sum.splits
      dest: refund_charge_frame)

lemma cancel_race:
  assumes ok: "race_ok w"
  shows "race_ok (snd (cancel_scan now i u w))"
proof -
  let ?g = "\<lambda>s. s_user s = u \<and> \<not> is_terminal (s_state s)"
  let ?f = "\<lambda>s. s\<lparr> s_state := CANCELLED, s_completed := Some now \<rparr>"
  let ?w1 = "snd (guarded_update i ?g ?f w)"
  have frame: "w_scans (snd (cancel_scan now i u w)) = w_scans ?w1 \<and>
      w_intents (snd (cancel_scan now i u w)) = w_intents w \<and>
      w_phase_jobs (snd (cancel_scan now i u w)) = w_phase_jobs w"
    by (cases "guarded_update i ?g ?f w")
      (auto simp: cancel_scan_def Let_def guarded_update_def split: option.splits sum.splits
        dest: refund_charge_frame)
  have scans: "scans_ok w" using ok by (simp add: race_ok_def)
  show ?thesis
  proof (rule race_ok_exit [OF ok])
    show "scans_ok (snd (cancel_scan now i u w))"
      using frame guarded_ids [of ?f i ?g w] scans by (simp add: scans_ok_def)
    fix j
    assume "scan_state_of j (snd (cancel_scan now i u w)) = Some AWAITING_QUESTIONNAIRE"
    then have "scan_state_of j ?w1 = Some AWAITING_QUESTIONNAIRE" using frame by (simp add: scan_state_of_def)
    then show "scan_state_of j w = Some AWAITING_QUESTIONNAIRE"
      by (rule guarded_exit_state [rotated 2]) simp_all
  qed (use frame in simp_all)
qed

lemma transition_frame:
  "scans_ok w \<Longrightarrow>
   w_intents (snd (transition [terminal_refund_observer now'] now i from to extra w)) = w_intents w \<and>
   w_phase_jobs (snd (transition [terminal_refund_observer now'] now i from to extra w)) = w_phase_jobs w"
  by (auto simp: transition_eq Let_def split: option.splits)

lemma terminate_frame:
  assumes "scans_ok w"
  shows "w_intents (snd (terminate [terminal_refund_observer now'] now seen w)) = w_intents w \<and>
    w_phase_jobs (snd (terminate [terminal_refund_observer now'] now seen w)) = w_phase_jobs w"
proof (cases "find_row s_id (s_id seen) (w_scans w)")
  case (Some fresh)
  let ?t = "transition [terminal_refund_observer now'] now (s_id seen) (s_state seen) TIMED_OUT
    [Set_Failure (timeout_failure (length (delivered_modules fresh)) (length (s_requested fresh)))] w"
  obtain out w1 where t: "?t = (out, w1)" by (cases ?t)
  with transition_frame [OF assms] have "w_intents w1 = w_intents w \<and> w_phase_jobs w1 = w_phase_jobs w"
    by (metis snd_conv)
  with Some t show ?thesis
    by (auto simp: terminate_def Let_def dest: refund_charge_frame split: sum.splits simp del: is_terminal_iff)
qed (auto simp: terminate_def)

lemma terminate_race:
  assumes ok: "race_ok w"
  shows "race_ok (snd (terminate [terminal_refund_observer now'] now seen w))"
proof -
  let ?w' = "snd (terminate [terminal_refund_observer now'] now seen w)"
  have scans: "scans_ok w" using ok by (simp add: race_ok_def)
  have state: "scan_state_of j ?w' = Some AWAITING_QUESTIONNAIRE \<Longrightarrow>
      scan_state_of j w = Some AWAITING_QUESTIONNAIRE" for j
  proof -
    assume a: "scan_state_of j ?w' = Some AWAITING_QUESTIONNAIRE"
    have "scan_state_of j w = Some AWAITING_QUESTIONNAIRE"
      if "w_scans ?w' = w_scans (snd (transition [terminal_refund_observer now'] now (s_id seen)
            (s_state seen) TIMED_OUT extra w))" for extra
    proof -
      have "w_scans ?w' = w_scans w \<or> w_scans ?w' = w_scans (snd (guarded_update (s_id seen)
          (\<lambda>s. s_state s = s_state seen) (transition_data now (s_state seen) TIMED_OUT extra) w))"
        by (simp add: that transition_eq [OF scans] Let_def split: option.splits)
      then show ?thesis
      proof
        assume "w_scans ?w' = w_scans w"
        with a show ?thesis by (simp add: scan_state_of_def)
      next
        assume "w_scans ?w' = w_scans (snd (guarded_update (s_id seen)
          (\<lambda>s. s_state s = s_state seen) (transition_data now (s_state seen) TIMED_OUT extra) w))"
        with a have "scan_state_of j (snd (guarded_update (s_id seen) (\<lambda>s. s_state s = s_state seen)
            (transition_data now (s_state seen) TIMED_OUT extra) w)) = Some AWAITING_QUESTIONNAIRE"
          by (simp add: scan_state_of_def)
        then show ?thesis by (rule guarded_exit_state [rotated 2]) simp_all
      qed
    qed
    moreover have "scan_state_of j w = Some AWAITING_QUESTIONNAIRE" if "w_scans ?w' = w_scans w"
      using a that by (simp add: scan_state_of_def)
    ultimately show ?thesis using terminate_scans [OF scans] by blast
  qed
  have "scans_ok ?w'"
    using terminate_scans [OF scans, of "[terminal_refund_observer now']" now seen] scans
      transition_scans_ok [OF scans] unfolding scans_ok_def by metis
  then show ?thesis
    using race_ok_exit [OF ok, of ?w'] terminate_frame [OF scans] state by blast
qed

section \<open>Any interleaving\<close>

inductive race_step :: "world \<Rightarrow> world \<Rightarrow> bool" where
  deadline_fires: "race_step w (snd (handle_questionnaire_timeout env now i w))"
| user_resumes: "src = SUPPLIED \<or> src = SKIPPED \<Longrightarrow> race_step w (snd (api_resume env i u src w))"
| user_cancels: "race_step w (snd (cancel_scan now i u w))"
| sweep_terminates: "race_step w (snd (terminate [terminal_refund_observer now] now seen w))"

inductive_cases race_stepE: "race_step w w'"

inductive races :: "world \<Rightarrow> world \<Rightarrow> bool" where
  races_refl: "races w w"
| races_step: "races w w' \<Longrightarrow> race_step w' w'' \<Longrightarrow> races w w''"

lemma race_step_ok: "race_step w w' \<Longrightarrow> race_ok w \<Longrightarrow> race_ok w'"
  by (erule race_stepE) (auto intro: deadline_race api_race cancel_race terminate_race)

lemma races_ok: "races w w' \<Longrightarrow> race_ok w \<Longrightarrow> race_ok w'"
  by (induction rule: races.induct) (auto intro: race_step_ok)

end
