(* ===== verification/Guarded.thy ===== *)
theory Guarded
  imports Prelude
begin

text \<open>
  The optimistic guard the scan and the issue tables share: a write names the state it expects,
  and one statement decides who wins.  \<open>guarded_store\<close> is the contract; the lemmas say what two
  contenders for one edge, and any sequence of contenders, can observe.
\<close>

locale guarded_store =
  fixes ok :: "'w \<Rightarrow> bool"
    and state :: "'k \<Rightarrow> 'w \<Rightarrow> 's option"
    and move :: "'k \<Rightarrow> 's \<Rightarrow> 's \<Rightarrow> 'w \<Rightarrow> bool \<times> 'w"
    and edge :: "'s \<Rightarrow> 's \<Rightarrow> bool"
  assumes keeps_ok: "ok w \<Longrightarrow> ok (snd (move k a b w))"
    and wins_iff: "ok w \<Longrightarrow> fst (move k a b w) \<longleftrightarrow> edge a b \<and> state k w = Some a"
    and moves: "ok w \<Longrightarrow> state j (snd (move k a b w)) =
      (if fst (move k a b w) \<and> j = k then Some b else state j w)"
begin

text \<open>Of two contenders for the same starting state, the second loses unless the first put it back.\<close>

lemma second_loses:
  assumes "ok w" and "fst (move k a b w)" and "b \<noteq> a"
  shows "\<not> fst (move k a c (snd (move k a b w)))"
  using assms moves [OF assms(1), of k k a b] wins_iff [OF keeps_ok [OF assms(1)]] by auto

lemma exactly_one_wins:
  assumes "ok w" and "state k w = Some a" and "edge a b" and "edge a c" and "b \<noteq> a"
  shows "fst (move k a b w) \<and> \<not> fst (move k a c (snd (move k a b w)))"
  using assms second_loses wins_iff by blast

text \<open>A sequence of attempts; the states a key goes through are joined by edges.\<close>

fun attempts :: "('k \<times> 's \<times> 's) list \<Rightarrow> 'w \<Rightarrow> 'w" where
  "attempts [] w = w"
| "attempts ((k, a, b) # cs) w = attempts cs (snd (move k a b w))"

inductive reach :: "'s \<Rightarrow> 's \<Rightarrow> bool" where
  reach_refl: "reach a a"
| reach_step: "reach a b \<Longrightarrow> edge b c \<Longrightarrow> reach a c"

lemma reach_edge_first: "edge a b \<Longrightarrow> reach b c \<Longrightarrow> reach a c"
proof (rotate_tac 1, induction rule: reach.induct)
  case (reach_refl x)
  then show ?case using reach.intros by blast
next
  case (reach_step x y z)
  then show ?case using reach.reach_step by blast
qed

lemma attempts_ok: "ok w \<Longrightarrow> ok (attempts cs w)"
  by (induction cs w rule: attempts.induct) (auto intro: keeps_ok)

lemma attempts_reach:
  assumes "ok w" and "state k w = Some s"
  shows "\<exists>t. state k (attempts cs w) = Some t \<and> reach s t"
  using assms
proof (induction cs w arbitrary: s rule: attempts.induct)
  case (1 w)
  then show ?case using reach_refl by auto
next
  case (2 j a b cs w)
  show ?case
  proof (cases "fst (move j a b w) \<and> k = j")
    case True
    then have "edge a b" "s = a" using wins_iff [OF "2.prems"(1)] "2.prems"(2) by auto
    moreover have "state k (snd (move j a b w)) = Some b"
      using True moves [OF "2.prems"(1), of k j a b] by simp
    ultimately show ?thesis
      using "2.IH" [OF keeps_ok [OF "2.prems"(1)]] reach_edge_first by fastforce
  next
    case False
    then have "state k (snd (move j a b w)) = Some s"
      using moves [OF "2.prems"(1), of k j a b] "2.prems"(2) by auto
    then show ?thesis using "2.IH" [OF keeps_ok [OF "2.prems"(1)]] by simp
  qed
qed

text \<open>A state without outgoing edges is final for every sequence of attempts.\<close>

lemma final_stays:
  assumes "ok w" and "state k w = Some s" and "\<And>t. \<not> edge s t"
  shows "state k (attempts cs w) = Some s"
proof -
  from attempts_reach [OF assms(1,2)] obtain t where
    t: "state k (attempts cs w) = Some t" "reach s t" by blast
  from t(2) assms(3) have "t = s"
    by (induction rule: reach.induct) auto
  with t(1) show ?thesis by simp
qed

end

end
