(* ===== verification/Scan_Theorems.thy ===== *)
theory Scan_Theorems
  imports Scan_Race Guarded Credit_Theorems
begin

text \<open>
  The properties of a scan's life: the state machine as a guarded store (so that of any contenders
  exactly one wins and a terminal state is final), the questionnaire race, the redelivery of phase
  jobs, and what a scan's end gives back.
\<close>

section \<open>The scan table is a guarded store\<close>

text \<open>A move of the state machine with the production observer.\<close>

definition scan_move ::
  "millis \<Rightarrow> string \<Rightarrow> scan_state \<Rightarrow> scan_state \<Rightarrow> world \<Rightarrow> bool \<times> world" where
  "scan_move now i a b w =
     (let (out, w') = transition [terminal_refund_observer now] now i a b [] w in (moved_ok out, w'))"

lemma scan_move_simps:
  "fst (scan_move now i a b w) = moved_ok (fst (transition [terminal_refund_observer now] now i a b [] w))"
  "snd (scan_move now i a b w) = snd (transition [terminal_refund_observer now] now i a b [] w)"
  by (simp_all add: scan_move_def split_beta)

lemma scan_state_observed [simp]:
  "scan_state_of j (fst (terminal_refund_observer now info w)) = scan_state_of j w"
  by (simp add: scan_state_of_def)

interpretation scans: guarded_store scans_ok scan_state_of "scan_move now" can_transition for now
proof
  show "scans_ok (snd (scan_move now k a b w))" if "scans_ok w" for w k a b
    using that by (simp add: scan_move_simps)
next
  show "fst (scan_move now k a b w) \<longleftrightarrow> can_transition a b \<and> scan_state_of k w = Some a"
    if "scans_ok w" for w k a b
    by (auto simp: scan_move_simps transition_eq [OF that] scan_state_of_def Let_def split: option.splits)
next
  show "scan_state_of j (snd (scan_move now k a b w)) =
      (if fst (scan_move now k a b w) \<and> j = k then Some b else scan_state_of j w)"
    if ok: "scans_ok w" for w j k a b
  proof (cases "can_transition a b \<and> scan_state_of k w = Some a")
    case True
    then obtain s where s: "find_row s_id k (w_scans w) = Some s" "s_state s = a"
      by (auto simp: scan_state_of_def)
    have "scan_state_of j (snd (guarded_update k (\<lambda>s. s_state s = a) (transition_data now a b []) w)) =
        (if j = k then Some b else scan_state_of j w)"
      by (rule state_after_update) (use True s in auto)
    then show ?thesis using True s
      by (cases "j = k") (simp_all add: scan_move_simps transition_eq [OF ok] Let_def del: is_terminal_iff)
  next
    case False
    then show ?thesis
      by (auto simp: scan_move_simps transition_eq [OF ok] scan_state_of_def Let_def split: option.splits)
  qed
qed

lemma reach_progress: "scans.reach s t \<Longrightarrow> progress_percent_for s \<le> progress_percent_for t"
  by (induction rule: scans.reach.induct) (auto dest: can_transition_progress)

section \<open>A scan for the examples\<close>

definition sample_scan :: "scan_state \<Rightarrow> scan" where
  "sample_scan st = \<lparr> s_id = ''s'', s_user = ''u'', s_state = st, s_requested = [PERFORMANCE, SEO],
     s_results = [(SEO, M_COMPLETE)], s_charged = 80, s_started = Some 5, s_completed = None,
     s_deadline = None, s_failure = None \<rparr>"

definition sample_world :: "scan_state \<Rightarrow> world" where
  "sample_world st = \<lparr> w_scans = [sample_scan st], w_ledger = sample_spent, w_intents = [],
     w_phase_jobs = [], w_deadline_jobs = [], w_events = [] \<rparr>"

lemma sample_world_simps [simp]:
  "scans_ok (sample_world st)" "scan_state_of ''s'' (sample_world st) = Some st"
  "find_row s_id ''s'' (w_scans (sample_world st)) = Some (sample_scan st)"
  by (simp_all add: scans_ok_def scan_state_of_def sample_world_def sample_scan_def find_row_def)

section \<open>The state machine\<close>

text \<open>C27: When two writers (a worker, the sweep, a cancellation) race to move a scan out of the same state
  along edges of the table, the first write wins and the second loses, whatever it wants.\<close>

theorem race_has_one_winner:
  assumes "scans_ok w" and "scan_state_of i w = Some a" and "can_transition a b" and "can_transition a c"
  shows "moved_ok (fst (transition [terminal_refund_observer now] now i a b [] w)) \<and>
     \<not> moved_ok (fst (transition [terminal_refund_observer now] now i a c []
          (snd (transition [terminal_refund_observer now] now i a b [] w))))"
proof -
  have "b \<noteq> a" using assms(3) can_transition_irrefl by blast
  from scans.exactly_one_wins [OF assms this, of now] show ?thesis by (simp add: scan_move_simps)
qed

theorem race_has_one_winner_witness:
  "\<not> moved_ok (fst (transition [terminal_refund_observer 9] 9 ''s'' RUNNING_DOCS TIMED_OUT []
      (snd (transition [terminal_refund_observer 9] 9 ''s'' RUNNING_DOCS COMPLETED []
         (sample_world RUNNING_DOCS)))))"
  using race_has_one_winner [of "sample_world RUNNING_DOCS" "''s''" RUNNING_DOCS COMPLETED TIMED_OUT 9]
  by (simp add: can_transition_def)

text \<open>C28: Over any sequence of attempted moves, by anyone and on any scans, a scan's progress percentage
  never goes down, a terminal state is never left, and a scan that is not queued is never queued again.\<close>

theorem scan_life:
  assumes "scans_ok w" and "scan_state_of i w = Some s"
  shows "case scan_state_of i (scans.attempts now moves w) of
       None \<Rightarrow> False
     | Some t \<Rightarrow> progress_percent_for s \<le> progress_percent_for t \<and>
         (if is_terminal s then t = s else True) \<and> (if s = QUEUED then True else t \<noteq> QUEUED)"
proof -
  obtain t where t: "scan_state_of i (scans.attempts now moves w) = Some t" "scans.reach s t"
    using scans.attempts_reach [OF assms, of now moves] by blast
  have "s \<noteq> QUEUED \<longrightarrow> t \<noteq> QUEUED"
    using t(2) by (induction rule: scans.reach.induct) (auto simp: can_transition_not_queued)
  moreover have "is_terminal s \<longrightarrow> t = s"
    using scans.final_stays [OF assms, of now moves] can_transition_terminal [of s] t(1) by auto
  ultimately show ?thesis using t reach_progress by auto
qed

theorem scan_life_witness:
  "scan_state_of ''s'' (scans.attempts 9 [(''s'', COMPLETED, FAILED), (''s'', QUEUED, CANCELLED)]
     (sample_world COMPLETED)) = Some COMPLETED"
  using scan_life [of "sample_world COMPLETED" "''s''" COMPLETED 9
      "[(''s'', COMPLETED, FAILED), (''s'', QUEUED, CANCELLED)]"]
  by (auto split: option.splits)

section \<open>The questionnaire\<close>




section \<open>Redelivered jobs\<close>

text \<open>A phase job that arrives when the scan cannot enter its phase any more (delivered twice, or after
  a cancellation, a timeout or the end) changes nothing and fails nothing.\<close>

lemma redelivered_job_is_noop:
  assumes "scans_ok w" and "find_row s_id (p_scan job) (w_scans w) = Some s"
    and "(if p_transitioned job then s_state s \<noteq> p_phase job else \<not> can_transition (s_state s) (p_phase job))"
  shows "handle_phase env pe now job w = (Inr (), w)"
proof (cases "p_transitioned job")
  case True
  with assms(2,3) show ?thesis by (simp add: handle_phase_def ret_def)
next
  case False
  with assms(3) obtain out where
    "move_and_announce env now (p_scan job) (s_state s) (p_phase job) [] w = (Inr out, w)" "\<not> moved_ok out"
    using move_and_announce_lost [OF assms(1)] by metis
  with False assms(2) show ?thesis by (simp add: handle_phase_def and_then_def ret_def)
qed

definition sample_phase_env :: phase_env where
  "sample_phase_env = \<lparr> pe_modules = \<lparr> me_cancelled_before = (\<lambda>_. False), me_cancelled_after = (\<lambda>_. False),
       me_run = (\<lambda>_. Inr M_COMPLETE) \<rparr>,
     pe_prepare = (\<lambda>_. None), pe_gate = None, pe_master = ret (), pe_docs = ret (), pe_wait_ms = 60 \<rparr>"

section \<open>What the end of a scan gives back\<close>

lemma sample_charge:
  "world_ok (sample_world st)" "undelivered_refund (sample_scan st) = 40"
  "\<exists>d. charge_open (sample_world st) (sample_scan st) d"
proof -
  show "world_ok (sample_world st)" by (simp add: world_ok_def) (simp add: sample_world_def sample_spent_ok)
  show "undelivered_refund (sample_scan st) = 40"
    by (simp add: undelivered_refund_def sample_scan_def delivered_modules_def is_delivered_def
        module_states_scored_def refund_for_undelivered_def)
  have "map_option (\<lambda>d. (t_id d, t_user d, t_amount d)) (scan_debit ''s'' sample_spent) = Some (4, ''u'', 80)"
    "list_all (\<lambda>t. t_reverses t \<noteq> Some 4) (txs sample_spent)" by code_simp+
  then show "\<exists>d. charge_open (sample_world st) (sample_scan st) d"
    by (auto simp: charge_open_def sample_world_def sample_scan_def list_all_iff)
qed

text \<open>C10: The sweep's termination of an overdue scan moves it to \<open>TIMED_OUT\<close> and gives its user back exactly
  the undelivered share computed from the row as it is at that moment, whatever the batch read said.
  After that neither a cancellation nor another sweep changes anything, so nothing is refunded twice.\<close>

theorem timeout_settles_once:
  assumes "world_ok w" and "find_row s_id (s_id seen) (w_scans w) = Some fresh"
    and "s_state fresh = s_state seen" and "\<not> is_terminal (s_state seen)"
    and "undelivered_refund fresh = 0 \<or> charge_open w fresh d"
  shows "\<exists>w' x. terminate [terminal_refund_observer now] now seen w = (Inr x, w') \<and>
     x_timed_out x \<and> x_refunded x = undelivered_refund fresh \<and> ledger_ok (w_ledger w') \<and>
     scan_state_of (s_id seen) w' = Some TIMED_OUT \<and>
     (\<forall>v. total_available (w_ledger w') now v = total_available (w_ledger w) now v +
        (if v = s_user fresh then undelivered_refund fresh else 0)) \<and>
     snd (cancel_scan now2 (s_id seen) u w') = w' \<and>
     snd (terminate [terminal_refund_observer now2] now2 seen w') = w'"
proof -
  obtain w' x where w': "terminate [terminal_refund_observer now] now seen w = (Inr x, w')"
    "x_timed_out x" "x_refunded x = undelivered_refund fresh" "ledger_ok (w_ledger w')"
    "map_option s_state (find_row s_id (s_id seen) (w_scans w')) = Some TIMED_OUT" "scans_ok w'"
    "\<And>v. total_available (w_ledger w') now v = total_available (w_ledger w) now v +
       (if v = s_user fresh then undelivered_refund fresh else 0)"
    using terminate_moved [OF assms] by metis
  then obtain s where s: "find_row s_id (s_id seen) (w_scans w') = Some s" "is_terminal (s_state s)" by auto
  have "snd (cancel_scan now2 (s_id seen) u w') = w'" using cancel_ended [OF w'(6) s] .
  moreover have "snd (terminate [terminal_refund_observer now2] now2 seen w') = w'"
    using terminate_ended [OF w'(6) s] by (metis snd_conv)
  ultimately show ?thesis using w' unfolding scan_state_of_def by blast
qed

theorem timeout_settles_once_witness:
  "\<exists>w' x. terminate [terminal_refund_observer 10] 10 (sample_scan RUNNING_DOCS) (sample_world RUNNING_DOCS) =
     (Inr x, w') \<and> x_refunded x = 40 \<and> total_available (w_ledger w') 10 ''u'' = 110"
proof -
  obtain d where d: "charge_open (sample_world RUNNING_DOCS) (sample_scan RUNNING_DOCS) d"
    using sample_charge(3) by blast
  have "total_available (w_ledger (sample_world RUNNING_DOCS)) 10 ''u'' = 70"
  proof -
    have "total_available sample_spent 10 ''u'' = 70" by code_simp
    then show ?thesis by (simp add: sample_world_def)
  qed
  moreover have "s_user (sample_scan RUNNING_DOCS) = ''u''" "s_id (sample_scan RUNNING_DOCS) = ''s''"
    "s_state (sample_scan RUNNING_DOCS) = RUNNING_DOCS" by (simp_all add: sample_scan_def)
  ultimately show ?thesis
    using timeout_settles_once [OF sample_charge(1), of "sample_scan RUNNING_DOCS" RUNNING_DOCS
        "sample_scan RUNNING_DOCS" d 10] d sample_charge(2) by fastforce
qed

text \<open>A scan that completes with areas missing, or fails, is settled by the move itself: the user gets
  back exactly the undelivered share, and the ledger stays consistent.\<close>

lemma ending_settles:
  assumes "world_ok w" and "find_row s_id i (w_scans w) = Some s" and "can_transition (s_state s) to"
    and "to = COMPLETED \<or> to = FAILED" and "undelivered_refund s = 0 \<or> charge_open w s d"
  shows "\<exists>w'. transition [terminal_refund_observer now] now i (s_state s) to extra w = (Moved (s_state s) to, w') \<and>
     scan_state_of i w' = Some to \<and> ledger_ok (w_ledger w') \<and>
     (\<forall>v. total_available (w_ledger w') now v = total_available (w_ledger w) now v +
        (if v = s_user s then undelivered_refund s else 0))"
proof -
  have scans: "scans_ok w" and led: "ledger_ok (w_ledger w)" using assms(1) by (simp_all add: world_ok_def)
  have id: "s_id s = i" using find_row_SomeD [OF assms(2)] by simp
  let ?f = "transition_data now (s_state s) to extra"
  let ?w1 = "snd (guarded_update i (\<lambda>x. s_state x = s_state s) ?f w)"
  let ?info = "\<lparr> tt_scan = i, tt_from = s_state s, tt_to = to \<rparr>"
  let ?w2 = "fst (terminal_refund_observer now ?info ?w1)"
  have tr: "transition [terminal_refund_observer now] now i (s_state s) to extra w = (Moved (s_state s) to, ?w2)"
    using assms(2-4) by (auto simp: transition_eq [OF scans] Let_def)
  have ok1: "world_ok ?w1" using scans led by (simp add: world_ok_def)
  have row: "find_row s_id i (w_scans ?w1) = Some (?f s)" using assms(2) by (simp add: guarded_find)
  then have state: "scan_state_of i ?w2 = Some to" by (simp add: scan_state_of_def)
  have share: "undelivered_refund (?f s) = undelivered_refund s"
    by (simp add: undelivered_refund_def delivered_modules_def)
  show ?thesis
  proof (cases "0 < undelivered_refund s")
    case True
    then have "charge_open ?w1 (?f s) d" using assms(5) by (simp add: charge_open_def id)
    moreover have "undelivered_refund s \<le> s_charged (?f s)"
      using undelivered_refund_bounds(2) [OF undelivered_refund_charged [OF True]] by simp
    ultimately obtain led' where led': "refund_scan_charge now (s_id (?f s)) (undelivered_refund s)
        ((if to = FAILED then ''platform-failure'' else ''undelivered-module'') @ '':'' @ i) ?w1 =
        Inr (?w1\<lparr> w_ledger := led' \<rparr>)" "ledger_ok led'"
      "\<And>v. total_available led' now v = total_available (w_ledger ?w1) now v +
        (if v = s_user (?f s) then undelivered_refund s else 0)"
      using refund_charge_effect [OF ok1 _ True] by blast
    have "?w2 = ?w1\<lparr> w_ledger := led' \<rparr>"
      using led'(1) row assms(4) True share
      by (auto simp: terminal_refund_observer_def refundable_terminals_def id Let_def)
    then show ?thesis using tr state led'(2,3) by simp
  next
    case False
    then have "undelivered_refund s = 0" using undelivered_refund_bounds(1) [of s] by simp
    moreover from this have "?w2 = ?w1"
      using row share by (auto simp: terminal_refund_observer_def Let_def)
    ultimately show ?thesis using tr state led by simp
  qed
qed

text \<open>A cancellation by the owner of a running scan ends it and gives back exactly the undelivered share;
  anybody else's, or one that comes too late, changes nothing.\<close>

lemma cancel_settles:
  assumes "world_ok w" and "find_row s_id i (w_scans w) = Some s"
    and "undelivered_refund s = 0 \<or> charge_open w s d"
  shows "(if s_user s = u \<and> \<not> is_terminal (s_state s)
     then fst (cancel_scan now i u w) = Cancel_Done \<and>
       scan_state_of i (snd (cancel_scan now i u w)) = Some CANCELLED \<and>
       ledger_ok (w_ledger (snd (cancel_scan now i u w))) \<and>
       (\<forall>v. total_available (w_ledger (snd (cancel_scan now i u w))) now v =
          total_available (w_ledger w) now v + (if v = u then undelivered_refund s else 0))
     else snd (cancel_scan now i u w) = w)"
proof -
  have scans: "scans_ok w" and led: "ledger_ok (w_ledger w)" using assms(1) by (simp_all add: world_ok_def)
  have id: "s_id s = i" using find_row_SomeD [OF assms(2)] by simp
  let ?g = "\<lambda>x. s_user x = u \<and> \<not> is_terminal (s_state x)"
  let ?f = "\<lambda>x. x\<lparr> s_state := CANCELLED, s_completed := Some now \<rparr>"
  let ?w1 = "snd (guarded_update i ?g ?f w)"
  show ?thesis
  proof (cases "?g s")
    case False
    have "\<not> (s_id r = i \<and> ?g r)" if "r \<in> set (w_scans w)" for r
      using scans that False assms(2) find_row_unique [of s_id "w_scans w" r]
      by (auto simp: scans_ok_def simp del: is_terminal_iff)
    then have "map (\<lambda>x. if s_id x = i \<and> ?g x then ?f x else x) (w_scans w) = w_scans w"
      by (intro map_idI) metis
    then have "?w1 = w" by (simp add: guarded_update_def)
    moreover have "fst (guarded_update i ?g ?f w) = 0"
      using guarded_count [OF scans, of i ?g ?f] assms(2) False by (simp del: is_terminal_iff)
    ultimately have "snd (cancel_scan now i u w) = w"
      by (cases "guarded_update i ?g ?f w") (simp add: cancel_scan_def)
    with False show ?thesis by (simp only: if_False)
  next
    case True
    have count: "fst (guarded_update i ?g ?f w) = 1"
      using guarded_count [OF scans, of i ?g ?f] assms(2) True by (simp del: is_terminal_iff)
    have row: "find_row s_id i (w_scans ?w1) = Some (?f s)"
      using assms(2) True by (simp add: guarded_find del: is_terminal_iff)
    have ok1: "world_ok ?w1" using scans led by (simp add: world_ok_def)
    have share: "undelivered_refund (?f s) = undelivered_refund s"
      by (simp add: undelivered_refund_def delivered_modules_def)
    let ?reason = "''cancelled:'' @ decimal (length (s_results s)) @ ''-of-'' @
      decimal (length (s_requested s)) @ ''-modules-ran''"
    have res: "cancel_scan now i u w =
        (if 0 < undelivered_refund s then
           (Cancel_Done, case refund_scan_charge now i (undelivered_refund s) ?reason ?w1 of
              Inl e \<Rightarrow> ?w1 | Inr w2 \<Rightarrow> w2)
         else (Cancel_Done, ?w1))"
    proof -
      obtain w1 where gu: "guarded_update i ?g ?f w = (1, w1)" using count by (metis prod.collapse)
      then have w1: "?w1 = w1" by simp
      show ?thesis
        using row share unfolding w1 cancel_scan_def gu by (simp add: Let_def split: sum.split)
    qed
    have state: "scan_state_of i w2 = Some CANCELLED" if "w_scans w2 = w_scans ?w1" for w2
      using row that by (simp add: scan_state_of_def)
    show ?thesis
    proof (cases "0 < undelivered_refund s")
      case pos: True
      then have "charge_open ?w1 (?f s) d" using assms(3) by (simp add: charge_open_def id)
      moreover have "undelivered_refund s \<le> s_charged (?f s)"
        using undelivered_refund_bounds(2) [OF undelivered_refund_charged [OF pos]] by simp
      ultimately obtain led' where led': "refund_scan_charge now (s_id (?f s)) (undelivered_refund s) ?reason ?w1 =
          Inr (?w1\<lparr> w_ledger := led' \<rparr>)" "ledger_ok led'"
        "\<And>v. total_available led' now v = total_available (w_ledger ?w1) now v +
          (if v = s_user (?f s) then undelivered_refund s else 0)"
        using refund_charge_effect [OF ok1 _ pos] by blast
      then have "cancel_scan now i u w = (Cancel_Done, ?w1\<lparr> w_ledger := led' \<rparr>)"
        using res pos by (simp add: id)
      then show ?thesis using True led'(2,3) state [of "?w1\<lparr> w_ledger := led' \<rparr>"] by (simp del: is_terminal_iff)
    next
      case False
      then have "undelivered_refund s = 0" using undelivered_refund_bounds(1) [of s] by simp
      then show ?thesis using True res state [of ?w1] led by (simp del: is_terminal_iff)
    qed
  qed
qed

section \<open>Scans the sweep cannot see\<close>

text \<open>The timeout sweep never ends a scan that is still queued: only the move out of \<open>QUEUED\<close> writes the
  start time the sweep selects on, so a scan whose first job was lost stays queued for ever.\<close>

lemma queued_never_swept:
  assumes "scans_ok w" and "queued_unstarted w"
    and "find_row s_id j (w_scans w) = Some s" and "s_state s = QUEUED"
  shows "find_row s_id j (w_scans (snd (sweep_timed_out_scans [terminal_refund_observer now] now
     max_duration batch (\<lambda>_ w. w) None w))) = Some s"
proof -
  let ?cs = "take batch (filter (started_before (now - max_duration)) (w_scans w))"
  have "\<forall>c\<in>set ?cs. s_state c \<noteq> QUEUED"
  proof
    fix c assume "c \<in> set ?cs"
    then have "c \<in> set (filter (started_before (now - max_duration)) (w_scans w))" by (rule in_set_takeD)
    then show "s_state c \<noteq> QUEUED" using started_not_queued [OF assms(2), of c "now - max_duration"] by simp
  qed
  note swept = sweep_each_queued [OF assms(1,3,4) this, of now "[]"]
  have "snd (sweep_timed_out_scans [terminal_refund_observer now] now max_duration batch (\<lambda>_ w. w) None w) =
      snd (sweep_each [terminal_refund_observer now] now (\<lambda>_ w. w) ?cs [] w)"
    by (auto simp: sweep_timed_out_scans_def split: prod.splits option.splits)
  with swept show ?thesis by simp
qed

definition stuck_scan :: scan where
  "stuck_scan = (sample_scan QUEUED)\<lparr> s_started := None \<rparr>"

end
