(* ===== verification/Issue_Loop.thy ===== *)
theory Issue_Loop
  imports Guarded Refund_Ok
begin

text \<open>
  The fix loop of an issue (\<^verbatim>\<open>apps/api/src/services/issues\<close>): asserting a fix
  (\<^verbatim>\<open>issues.routes.ts\<close>), recording the re-check's outcome (\<^verbatim>\<open>attempts.ts\<close>, over
  \<^verbatim>\<open>state-machine.ts\<close>) and labelling recurrences (\<^verbatim>\<open>recurrence.ts\<close>).  \<open>between\<close> is what other
  requests commit between a handler's read and its guarded write.
\<close>

section \<open>State\<close>

record issue =
  i_id :: string
  i_scan :: string
  i_fingerprint :: string
  i_state :: issue_state
  i_resolved_at :: "millis option"
  i_reopened_at :: "millis option"
  i_asserted_at :: "millis option"
  i_previously :: bool

record attempt =
  v_issue :: string
  v_outcome :: verification_outcome
  v_evidence :: "string option"
  v_charged :: int
  v_duration :: int

record scan_ref =
  c_id :: string
  c_target :: string
  c_user :: user_id
  c_created :: millis

record issue_world =
  iw_issues :: "issue list"
  iw_attempts :: "attempt list"
  iw_ledger :: ledger
  iw_scans :: "scan_ref list"
  iw_jobs :: "(string \<times> nat \<times> int) list"

section \<open>The state machine\<close>

definition assertable_from :: "issue_state list" where
  "assertable_from = [OPEN, UNVERIFIABLE, REOPENED]"

definition can_assert_fixed :: "issue_state \<Rightarrow> bool" where
  "can_assert_fixed s \<longleftrightarrow> s \<in> set assertable_from"

definition assert_fixed_transition :: "issue_state \<Rightarrow> issue_state + issue_state" where
  "assert_fixed_transition s =
     (if \<not> can_assert_fixed s then Inl s
      else if \<not> can_issue_transition s ASSERTED_FIXED then Inl s
      else Inr ASSERTED_FIXED)"

fun outcome_to_state :: "verification_outcome \<Rightarrow> issue_state" where
  "outcome_to_state V_PASSED = RESOLVED"
| "outcome_to_state V_FAILED = OPEN"
| "outcome_to_state V_UNVERIFIABLE = UNVERIFIABLE"
| "outcome_to_state V_ERRORED = OPEN"

definition resolved_only_on_pass :: "verification_outcome \<Rightarrow> issue_state \<Rightarrow> bool" where
  "resolved_only_on_pass out nxt \<longleftrightarrow> \<not> (nxt = RESOLVED \<and> out \<noteq> V_PASSED)"

definition outcome_is_refundable :: "verification_outcome \<Rightarrow> bool" where
  "outcome_is_refundable out \<longleftrightarrow> out = V_ERRORED \<or> out = V_UNVERIFIABLE"

datatype ts_field = Resolved_At | Reopened_At

definition timestamp_field_for :: "issue_state \<Rightarrow> ts_field option" where
  "timestamp_field_for s =
     (if s = RESOLVED then Some Resolved_At else if s = REOPENED then Some Reopened_At else None)"

section \<open>Guarded writes of issues\<close>

definition update_issues :: "(issue \<Rightarrow> bool) \<Rightarrow> (issue \<Rightarrow> issue) \<Rightarrow> issue_world \<Rightarrow> nat \<times> issue_world" where
  "update_issues guard f w =
     (length (filter guard (iw_issues w)),
      w\<lparr> iw_issues := map (\<lambda>x. if guard x then f x else x) (iw_issues w) \<rparr>)"

definition issue_state_of :: "string \<Rightarrow> issue_world \<Rightarrow> issue_state option" where
  "issue_state_of i w = map_option i_state (find_row i_id i (iw_issues w))"

section \<open>Recording an attempt\<close>

record attempt_input =
  n_issue :: string
  n_outcome :: verification_outcome
  n_evidence :: "string option"
  n_charged :: int
  n_duration :: int
  n_debit :: "nat option"

datatype attempt_error = Evidence_Missing | Refused_Resolution verification_outcome

record attempt_result =
  r_applied :: bool
  r_state :: "issue_state option"
  r_refunded :: int

definition write_outcome :: "millis \<Rightarrow> issue_state \<Rightarrow> issue \<Rightarrow> issue" where
  "write_outcome now nxt x =
     (let x1 = x\<lparr> i_state := nxt \<rparr>;
          x2 = (case timestamp_field_for nxt of
                  None \<Rightarrow> x1
                | Some Resolved_At \<Rightarrow> x1\<lparr> i_resolved_at := Some now \<rparr>
                | Some Reopened_At \<Rightarrow> x1\<lparr> i_reopened_at := Some now \<rparr>)
      in if nxt = RESOLVED then x2\<lparr> i_previously := True \<rparr> else x2)"

fun outcome_label :: "verification_outcome \<Rightarrow> string" where
  "outcome_label V_PASSED = ''passed''"
| "outcome_label V_FAILED = ''failed''"
| "outcome_label V_UNVERIFIABLE = ''unverifiable''"
| "outcome_label V_ERRORED = ''errored''"

definition record_verification_attempt ::
  "(issue_world \<Rightarrow> issue_world) \<Rightarrow> millis \<Rightarrow> attempt_input \<Rightarrow> issue_world \<Rightarrow>
   (attempt_error + attempt_result) \<times> issue_world" where
  "record_verification_attempt between now inp w =
     (if n_outcome inp = V_FAILED \<and> n_evidence inp = None then (Inl Evidence_Missing, w)
      else
        let nxt = outcome_to_state (n_outcome inp) in
        if \<not> resolved_only_on_pass (n_outcome inp) nxt
        then (Inl (Refused_Resolution (n_outcome inp)), w)
        else
          let seen = issue_state_of (n_issue inp) w in
          if seen \<noteq> Some ASSERTED_FIXED
          then (Inr \<lparr> r_applied = False, r_state = seen, r_refunded = 0 \<rparr>, w)
          else
            let (count, w1) = update_issues (\<lambda>x. i_id x = n_issue inp \<and> i_state x = ASSERTED_FIXED)
                                (write_outcome now nxt) (between w)
            in if count \<noteq> 1
               then (Inr \<lparr> r_applied = False, r_state = None, r_refunded = 0 \<rparr>, w1)
               else
                 let w2 = w1\<lparr> iw_attempts := iw_attempts w1 @
                            [\<lparr> v_issue = n_issue inp, v_outcome = n_outcome inp,
                               v_evidence = n_evidence inp, v_charged = n_charged inp,
                               v_duration = n_duration inp \<rparr>] \<rparr>
                 in case n_debit inp of
                      None \<Rightarrow> (Inr \<lparr> r_applied = True, r_state = Some nxt, r_refunded = 0 \<rparr>, w2)
                    | Some d \<Rightarrow>
                        if 0 < n_charged inp \<and> outcome_is_refundable (n_outcome inp) then
                          (case refund_partial (lots (iw_ledger w2)) now d (n_charged inp)
                                  (''reverify-'' @ outcome_label (n_outcome inp) @ '':'' @ n_issue inp)
                                  (iw_ledger w2) of
                             Inl e \<Rightarrow>
                               (Inr \<lparr> r_applied = True, r_state = Some nxt, r_refunded = 0 \<rparr>, w2)
                           | Inr (led, _) \<Rightarrow>
                               (Inr \<lparr> r_applied = True, r_state = Some nxt, r_refunded = n_charged inp \<rparr>,
                                w2\<lparr> iw_ledger := led \<rparr>))
                        else (Inr \<lparr> r_applied = True, r_state = Some nxt, r_refunded = 0 \<rparr>, w2))"

definition list_verification_attempts :: "issue_world \<Rightarrow> string \<Rightarrow> attempt list" where
  "list_verification_attempts w i = filter (\<lambda>a. v_issue a = i) (iw_attempts w)"

definition failing_evidence_for_scan :: "issue_world \<Rightarrow> string \<Rightarrow> string \<Rightarrow> string option option" where
  "failing_evidence_for_scan w s =
     js_map_of (map (\<lambda>a. (v_issue a, v_evidence a))
       (filter (\<lambda>a. v_outcome a = V_FAILED \<and>
           (case find_row i_id (v_issue a) (iw_issues w) of None \<Rightarrow> False | Some x \<Rightarrow> i_scan x = s))
         (iw_attempts w)))"

section \<open>Asserting a fix\<close>

datatype assert_response =
    Assert_Not_Found
  | Not_Assertable "issue_state option"
  | Assert_Unaffordable int int
  | Assert_Failed credit_error
  | Assert_Queue_Failed
  | Assert_Accepted

text \<open>\<open>enqueues\<close> says whether the queue takes the job; a refused job is thrown by the route.\<close>

definition assert_fixed ::
  "(issue_world \<Rightarrow> issue_world) \<Rightarrow> (string \<Rightarrow> bool) \<Rightarrow> millis \<Rightarrow> string \<Rightarrow> user_id \<Rightarrow> issue_world \<Rightarrow>
   assert_response \<times> issue_world" where
  "assert_fixed between enqueues now i u w =
     (case find (\<lambda>x. i_id x = i \<and>
              (case find_row c_id (i_scan x) (iw_scans w) of None \<Rightarrow> False | Some c \<Rightarrow> c_user c = u))
            (iw_issues w) of
        None \<Rightarrow> (Assert_Not_Found, w)
      | Some x \<Rightarrow>
          if \<not> can_assert_fixed (i_state x) then (Not_Assertable (Some (i_state x)), w)
          else case debit now \<lparr> d_user = u, d_amount = reverify_cost, d_reason = ''reverify:issue'',
                                d_scan = None, d_issue = Some i \<rparr> (iw_ledger (between w)) of
            Inl (InsufficientCredits req avail) \<Rightarrow> (Assert_Unaffordable req avail, between w)
          | Inl e \<Rightarrow> (Assert_Failed e, between w)
          | Inr (led, (d, _)) \<Rightarrow>
              let w1 = (between w)\<lparr> iw_ledger := led \<rparr>;
                  (count, w2) = update_issues (\<lambda>x. i_id x = i \<and> i_state x \<in> set assertable_from)
                                  (\<lambda>x. x\<lparr> i_state := ASSERTED_FIXED, i_asserted_at := Some now \<rparr>) w1
              in if count \<noteq> 1 then
                   (Not_Assertable None,
                    case refund (lots (iw_ledger w2)) now d (''reverify:lost-assert-race:'' @ i)
                           (iw_ledger w2) of
                      Inl e \<Rightarrow> w2
                    | Inr (led2, _) \<Rightarrow> w2\<lparr> iw_ledger := led2 \<rparr>)
                 else if \<not> enqueues i then (Assert_Queue_Failed, w2)
                 else (Assert_Accepted, w2\<lparr> iw_jobs := iw_jobs w2 @ [(i, d, reverify_cost)] \<rparr>))"

section \<open>Recurrence\<close>

definition priorly_verified :: "issue_world \<Rightarrow> scan_ref \<Rightarrow> string list" where
  "priorly_verified w scan =
     uniq (map i_fingerprint
       (filter (\<lambda>x. (case find_row c_id (i_scan x) (iw_scans w) of
                       None \<Rightarrow> False
                     | Some c \<Rightarrow> c_target c = c_target scan \<and> c_id c \<noteq> c_id scan \<and>
                                 c_created c < c_created scan) \<and>
                    (i_state x = RESOLVED \<or> i_previously x))
         (iw_issues w)))"

definition mark_recurrences :: "millis \<Rightarrow> string \<Rightarrow> issue_world \<Rightarrow> (nat \<times> string list) \<times> issue_world" where
  "mark_recurrences now s w =
     (case find_row c_id s (iw_scans w) of
        None \<Rightarrow> ((0, []), w)
      | Some scan \<Rightarrow>
          let fps = priorly_verified w scan in
          if length fps = 0 then ((0, []), w)
          else
            let recurring = filter (\<lambda>x. i_scan x = c_id scan \<and> i_state x = OPEN \<and>
                                        i_fingerprint x \<in> set fps) (iw_issues w) in
            if length recurring = 0 then ((0, []), w)
            else ((length recurring, map i_fingerprint recurring),
                  snd (update_issues (\<lambda>x. i_id x \<in> set (map i_id recurring))
                        (\<lambda>x. x\<lparr> i_state := REOPENED, i_reopened_at := Some now, i_previously := True \<rparr>)
                        w)))"

end
