(* ===== verification/Readiness.thy ===== *)
theory Readiness
  imports Pricing Scoring Fingerprint
begin

text \<open>
  The readiness pass (\<^verbatim>\<open>apps/worker/src/readiness\<close>): the diff of a fresh audit against its
  baseline (\<^verbatim>\<open>diff.ts\<close>), the go / no-go verdict (\<^verbatim>\<open>verdict.ts\<close>) and the row that is persisted
  (\<^verbatim>\<open>run.ts\<close>).  \<^verbatim>\<open>toLowerCase\<close> of an enumeration's member is a table here.
\<close>

section \<open>Snapshots and diff\<close>

record area_snapshot =
  n_module :: module_type
  n_state :: module_state
  n_score :: "int option"
  n_degraded :: "string option"

record issue_snapshot =
  k_fingerprint :: string
  k_severity :: severity
  k_title :: string
  k_state :: issue_state

record snapshot =
  sn_areas :: "area_snapshot list"
  sn_issues :: "issue_snapshot list"

datatype direction = Up | Down | Unchanged | Incomparable

record area_change =
  ch_module :: module_type
  ch_baseline :: "int option"
  ch_fresh :: "int option"
  ch_delta :: "int option"
  ch_direction :: direction

datatype regression_kind = Area_Regression | Recurrence | New_Blocker

record regression =
  rg_kind :: regression_kind
  rg_name :: string
  rg_module :: "module_type option"
  rg_fingerprint :: "string option"

datatype improvement_kind = Area_Improvement | Issue_Cleared

record improvement =
  im_kind :: improvement_kind
  im_name :: string
  im_module :: "module_type option"

record readiness_diff =
  df_changes :: "area_change list"
  df_regressions :: "regression list"
  df_improvements :: "improvement list"

definition area_regression_min :: int where "area_regression_min = 3"

fun module_label :: "module_type \<Rightarrow> string" where
  "module_label PERFORMANCE = ''Performance''"
| "module_label SECURITY = ''Security''"
| "module_label UI = ''Design''"
| "module_label TESTING = ''Testing''"
| "module_label SEO = ''Search visibility''"

fun state_rank :: "module_state \<Rightarrow> nat" where
  "state_rank M_COMPLETE = 0"
| "state_rank M_DEGRADED = 1"
| "state_rank M_RUNNING = 2"
| "state_rank M_PENDING = 2"
| "state_rank M_FAILED = 3"
| "state_rank M_NOT_APPLICABLE = 3"

fun module_state_lower :: "module_state \<Rightarrow> string" where
  "module_state_lower M_COMPLETE = ''complete''"
| "module_state_lower M_DEGRADED = ''degraded''"
| "module_state_lower M_RUNNING = ''running''"
| "module_state_lower M_PENDING = ''pending''"
| "module_state_lower M_FAILED = ''failed''"
| "module_state_lower M_NOT_APPLICABLE = ''not_applicable''"

fun severity_lower :: "severity \<Rightarrow> string" where
  "severity_lower CRITICAL = ''critical''"
| "severity_lower HIGH = ''high''"
| "severity_lower MEDIUM = ''medium''"
| "severity_lower LOW = ''low''"
| "severity_lower INFO = ''info''"

definition show_int :: "int \<Rightarrow> string" where
  "show_int n = (if n < 0 then CHR ''-'' # decimal (nat (- n)) else decimal (nat n))"

definition show_score :: "int option \<Rightarrow> string" where
  "show_score s = (case s of None \<Rightarrow> ''null'' | Some n \<Rightarrow> show_int n)"

text \<open>The arrow of the regression's text, in UTF-8.\<close>

definition arrow :: string where "arrow = [CHR 0xE2, CHR 0x86, CHR 0x92]"

definition direction_of :: "int option \<Rightarrow> direction" where
  "direction_of delta =
     (case delta of None \<Rightarrow> Incomparable
      | Some d \<Rightarrow> if area_regression_min \<le> d then Up
                  else if d \<le> - area_regression_min then Down else Unchanged)"

definition area_change_of :: "area_snapshot option \<Rightarrow> area_snapshot \<Rightarrow> area_change" where
  "area_change_of before area =
     (let b_score = (case before of None \<Rightarrow> None | Some b \<Rightarrow> n_score b);
          f_score = n_score area;
          delta = (case (b_score, f_score) of (Some b, Some f) \<Rightarrow> Some (f - b) | _ \<Rightarrow> None)
      in \<lparr> ch_module = n_module area, ch_baseline = b_score, ch_fresh = f_score, ch_delta = delta,
           ch_direction = direction_of delta \<rparr>)"

definition state_degraded :: "area_snapshot option \<Rightarrow> area_snapshot \<Rightarrow> bool" where
  "state_degraded before area =
     (case before of None \<Rightarrow> False | Some b \<Rightarrow> state_rank (n_state b) < state_rank (n_state area))"

definition diff_area ::
  "area_snapshot option \<Rightarrow> area_snapshot \<Rightarrow> readiness_diff \<Rightarrow> readiness_diff" where
  "diff_area before area d =
     (let c = area_change_of before area;
          d1 = d\<lparr> df_changes := df_changes d @ [c] \<rparr>;
          label = module_label (n_module area)
      in if ch_direction c = Down then
           d1\<lparr> df_regressions := df_regressions d1 @
             [\<lparr> rg_kind = Area_Regression,
                rg_name = label @ '' regressed: score fell from '' @ show_score (ch_baseline c) @
                          '' to '' @ show_score (ch_fresh c),
                rg_module = Some (n_module area), rg_fingerprint = None \<rparr>] \<rparr>
         else if state_degraded before area then
           d1\<lparr> df_regressions := df_regressions d1 @
             [\<lparr> rg_kind = Area_Regression,
                rg_name = label @ '' regressed: '' @
                  (case before of None \<Rightarrow> [] | Some b \<Rightarrow> module_state_lower (n_state b)) @ '' '' @ arrow @
                  '' '' @ module_state_lower (n_state area) @ '' ('' @
                  (case n_degraded area of Some r \<Rightarrow> r
                   | None \<Rightarrow> ''the area could not be fully audited this pass'') @ '')'',
                rg_module = Some (n_module area), rg_fingerprint = None \<rparr>] \<rparr>
         else if ch_direction c = Up then
           d1\<lparr> df_improvements := df_improvements d1 @
             [\<lparr> im_kind = Area_Improvement,
                im_name = label @ '' improved: score rose from '' @ show_score (ch_baseline c) @
                          '' to '' @ show_score (ch_fresh c),
                im_module = Some (n_module area) \<rparr>] \<rparr>
         else d1)"

definition diff_issue ::
  "issue_snapshot option \<Rightarrow> issue_snapshot \<Rightarrow> readiness_diff \<Rightarrow> readiness_diff" where
  "diff_issue before i d =
     (case before of
        Some b \<Rightarrow>
          if k_state b = RESOLVED then
            d\<lparr> df_regressions := df_regressions d @
              [\<lparr> rg_kind = Recurrence,
                 rg_name = ''Regressed: \"'' @ k_title i @ ''\" was verified fixed and has returned'',
                 rg_module = None, rg_fingerprint = Some (k_fingerprint i) \<rparr>] \<rparr>
          else d
      | None \<Rightarrow>
          if is_blocking_severity (k_severity i) then
            d\<lparr> df_regressions := df_regressions d @
              [\<lparr> rg_kind = New_Blocker,
                 rg_name = ''New '' @ severity_lower (k_severity i) @
                   '' issue not in the original audit: \"'' @ k_title i @ ''\"'',
                 rg_module = None, rg_fingerprint = Some (k_fingerprint i) \<rparr>] \<rparr>
          else d)"

definition diff_cleared :: "issue_snapshot list \<Rightarrow> issue_snapshot \<Rightarrow> readiness_diff \<Rightarrow> readiness_diff" where
  "diff_cleared fresh i d =
     (if is_blocking_severity (k_severity i) \<and> k_fingerprint i \<notin> set (map k_fingerprint fresh) then
        d\<lparr> df_improvements := df_improvements d @
          [\<lparr> im_kind = Issue_Cleared,
             im_name = ''Cleared: \"'' @ k_title i @ ''\" ('' @ severity_lower (k_severity i) @
               '') no longer appears'',
             im_module = None \<rparr>] \<rparr>
      else d)"

definition diff_against_baseline :: "snapshot \<Rightarrow> snapshot \<Rightarrow> readiness_diff" where
  "diff_against_baseline baseline fresh =
     (let baseline_area = js_map_of (map (\<lambda>a. (n_module a, a)) (sn_areas baseline));
          baseline_by_fp = js_map_of (map (\<lambda>i. (k_fingerprint i, i)) (sn_issues baseline));
          d0 = \<lparr> df_changes = [], df_regressions = [], df_improvements = [] \<rparr>;
          d1 = fold (\<lambda>a. diff_area (baseline_area (n_module a)) a) (sn_areas fresh) d0;
          d2 = fold (\<lambda>i. diff_issue (baseline_by_fp (k_fingerprint i)) i) (sn_issues fresh) d1
      in fold (diff_cleared (sn_issues fresh)) (sn_issues baseline) d2)"

section \<open>Verdict\<close>

record module_outcome =
  mo_module :: module_type
  mo_score :: "int option"
  mo_threshold :: int
  mo_pass :: bool

record verdict =
  vd_ready :: bool
  vd_overall :: int
  vd_outcomes :: "module_outcome list"
  vd_blockers :: "string list"

definition outcome_for :: "area_snapshot list \<Rightarrow> module_type \<times> int \<Rightarrow> module_outcome" where
  "outcome_for areas mt =
     (let score = (case js_map_of (map (\<lambda>a. (n_module a, a)) areas) (fst mt) of
                     None \<Rightarrow> None | Some a \<Rightarrow> n_score a)
      in \<lparr> mo_module = fst mt, mo_score = score, mo_threshold = snd mt,
           mo_pass = (case score of None \<Rightarrow> False | Some s \<Rightarrow> snd mt \<le> s) \<rparr>)"

definition outcome_blocker :: "module_outcome \<Rightarrow> string" where
  "outcome_blocker mo =
     (case mo_score mo of
        None \<Rightarrow> module_label (mo_module mo) @
          '' could not be audited this pass, so readiness cannot be confirmed for it''
      | Some s \<Rightarrow> module_label (mo_module mo) @ '' scored '' @ show_int s @ '' against a '' @
          show_int (mo_threshold mo) @ '' threshold'')"

definition add_blocker :: "string \<Rightarrow> string list \<Rightarrow> string list" where
  "add_blocker b bs = (if b \<in> set bs then bs else bs @ [b])"

definition area_score_of :: "area_snapshot \<Rightarrow> area_score" where
  "area_score_of a = \<lparr> area_module = n_module a, area_state = n_state a, area_points = n_score a \<rparr>"

definition compute_verdict :: "area_snapshot list \<Rightarrow> regression list \<Rightarrow> verdict" where
  "compute_verdict areas regs =
     (let outcomes = map (outcome_for areas) readiness_thresholds;
          b1 = map outcome_blocker (filter (\<lambda>mo. \<not> mo_pass mo) outcomes);
          b2 = fold (\<lambda>r. add_blocker (rg_name r)) regs b1;
          computed = overall_points (overall_score_of (map area_score_of areas));
          overall = (case computed of None \<Rightarrow> 0 | Some s \<Rightarrow> s);
          b3 = (if computed = None
                then b2 @ [''The audit measured nothing, so a readiness verdict cannot be given'']
                else b2)
      in \<lparr> vd_ready = (length b3 = 0), vd_overall = overall, vd_outcomes = outcomes, vd_blockers = b3 \<rparr>)"

section \<open>The persisted row\<close>

record merged_outcome = module_outcome +
  me_baseline :: "int option"
  me_delta :: "int option"
  me_direction :: direction

record readiness_row =
  rr_ready :: bool
  rr_overall :: int
  rr_baseline :: int
  rr_outcomes :: "merged_outcome list"
  rr_regressions :: "regression list"
  rr_improvements :: "improvement list"
  rr_blockers :: "string list"

definition merge_outcome :: "area_change list \<Rightarrow> module_outcome \<Rightarrow> merged_outcome" where
  "merge_outcome changes mo =
     (let c = js_map_of (map (\<lambda>c. (ch_module c, c)) changes) (mo_module mo) in
      \<lparr> mo_module = mo_module mo, mo_score = mo_score mo, mo_threshold = mo_threshold mo,
        mo_pass = mo_pass mo,
        me_baseline = (case c of None \<Rightarrow> None | Some c \<Rightarrow> ch_baseline c),
        me_delta = (case c of None \<Rightarrow> None | Some c \<Rightarrow> ch_delta c),
        me_direction = (case c of None \<Rightarrow> Incomparable | Some c \<Rightarrow> ch_direction c) \<rparr>)"

definition finalize_readiness :: "snapshot \<Rightarrow> snapshot \<Rightarrow> int option \<Rightarrow> readiness_row" where
  "finalize_readiness baseline fresh baseline_overall =
     (let diff = diff_against_baseline baseline fresh;
          v = compute_verdict (sn_areas fresh) (df_regressions diff)
      in \<lparr> rr_ready = vd_ready v, rr_overall = vd_overall v,
           rr_baseline = (case baseline_overall of None \<Rightarrow> vd_overall v | Some b \<Rightarrow> b),
           rr_outcomes = map (merge_outcome (df_changes diff)) (vd_outcomes v),
           rr_regressions = df_regressions diff, rr_improvements = df_improvements diff,
           rr_blockers = vd_blockers v \<rparr>)"

section \<open>The verdict in closed form\<close>

lemma fold_add_blocker_nil:
  "fold (\<lambda>r. add_blocker (rg_name r)) regs bs = [] \<longleftrightarrow> regs = [] \<and> bs = []"
proof (induction regs arbitrary: bs)
  case (Cons r regs)
  have "add_blocker (rg_name r) bs \<noteq> []" by (auto simp: add_blocker_def)
  with Cons show ?case by simp
qed simp

lemma fold_add_blocker_set:
  "set (fold (\<lambda>r. add_blocker (rg_name r)) regs bs) = set bs \<union> rg_name ` set regs"
  by (induction regs arbitrary: bs) (auto simp: add_blocker_def)

lemma ready_iff:
  "vd_ready (compute_verdict areas regs) \<longleftrightarrow>
     (\<forall>mt\<in>set readiness_thresholds. mo_pass (outcome_for areas mt)) \<and> regs = [] \<and>
     overall_points (overall_score_of (map area_score_of areas)) \<noteq> None"
  by (auto simp: compute_verdict_def Let_def fold_add_blocker_nil filter_empty_conv)

lemma outcome_pass:
  "distinct (map n_module areas) \<Longrightarrow> mo_pass (outcome_for areas (m, t)) \<longleftrightarrow>
     (\<exists>a\<in>set areas. n_module a = m \<and> (\<exists>s. n_score a = Some s \<and> t \<le> s))"
proof -
  assume d: "distinct (map n_module areas)"
  let ?kvs = "map (\<lambda>a. (n_module a, a)) areas"
  have keys: "distinct (map fst ?kvs)" using d by (simp add: o_def)
  show ?thesis
  proof (cases "js_map_of ?kvs m")
    case None
    then have "m \<notin> n_module ` set areas" by (force simp: js_map_of_None)
    with None show ?thesis by (auto simp: outcome_for_def Let_def)
  next
    case (Some a)
    then have a: "a \<in> set areas" "n_module a = m" using js_map_of_SomeD [of ?kvs m a] by auto
    have "x = a" if "x \<in> set areas" "n_module x = m" for x
      using d a that by (auto simp: distinct_map inj_on_def)
    with a have "(\<exists>x\<in>set areas. n_module x = m \<and> (\<exists>s. n_score x = Some s \<and> t \<le> s)) \<longleftrightarrow>
        (\<exists>s. n_score a = Some s \<and> t \<le> s)" by blast
    then show ?thesis using Some by (simp add: outcome_for_def Let_def split: option.split)
  qed
qed

section \<open>The regressions in closed form\<close>

definition area_regresses :: "area_snapshot option \<Rightarrow> area_snapshot \<Rightarrow> bool" where
  "area_regresses before area \<longleftrightarrow>
     (case before of None \<Rightarrow> False
      | Some b \<Rightarrow>
          (case (n_score b, n_score area) of
             (Some x, Some y) \<Rightarrow> y \<le> x - area_regression_min
           | _ \<Rightarrow> False) \<or> state_rank (n_state b) < state_rank (n_state area))"

definition issue_regresses :: "issue_snapshot option \<Rightarrow> issue_snapshot \<Rightarrow> bool" where
  "issue_regresses before i \<longleftrightarrow>
     (case before of Some b \<Rightarrow> k_state b = RESOLVED | None \<Rightarrow> is_blocking_severity (k_severity i))"

lemma direction_down: "ch_direction (area_change_of before area) = Down \<longleftrightarrow>
    (case before of None \<Rightarrow> False
     | Some b \<Rightarrow> (case (n_score b, n_score area) of
         (Some x, Some y) \<Rightarrow> y \<le> x - area_regression_min | _ \<Rightarrow> False))"
  by (auto simp: area_change_of_def direction_of_def Let_def area_regression_min_def
      split: option.splits)

lemma diff_area_regressions:
  "\<exists>ys. df_regressions (diff_area before a d) = df_regressions d @ ys \<and>
     (ys = [] \<longleftrightarrow> \<not> area_regresses before a) \<and>
     (\<forall>r\<in>set ys. rg_kind r = Area_Regression \<and> rg_module r = Some (n_module a))"
  by (auto simp: diff_area_def Let_def area_regresses_def direction_down state_degraded_def
      split: option.splits)

lemma fold_areas_regressions:
  "df_regressions (fold (\<lambda>a. diff_area (f a) a) as d) = df_regressions d \<longleftrightarrow>
     (\<forall>a\<in>set as. \<not> area_regresses (f a) a)"
proof -
  have grow: "\<exists>ys. df_regressions (fold (\<lambda>a. diff_area (f a) a) as d) = df_regressions d @ ys \<and>
      (ys = [] \<longleftrightarrow> (\<forall>a\<in>set as. \<not> area_regresses (f a) a))" for d
  proof (induction as arbitrary: d)
    case (Cons a as)
    from diff_area_regressions [of "f a" a d] obtain ys where
      ys: "df_regressions (diff_area (f a) a d) = df_regressions d @ ys"
      "ys = [] \<longleftrightarrow> \<not> area_regresses (f a) a" by blast
    from Cons.IH [of "diff_area (f a) a d"] obtain zs where
      zs: "df_regressions (fold (\<lambda>a. diff_area (f a) a) as (diff_area (f a) a d)) =
        df_regressions (diff_area (f a) a d) @ zs"
      "zs = [] \<longleftrightarrow> (\<forall>a\<in>set as. \<not> area_regresses (f a) a)" by blast
    show ?case by (intro exI [of _ "ys @ zs"]) (use ys zs in auto)
  qed simp
  from grow [of d] show ?thesis by auto
qed

lemma diff_issue_regressions:
  "df_regressions (diff_issue before i d) = df_regressions d @ ys \<Longrightarrow> ys = [] \<longleftrightarrow> \<not> issue_regresses before i"
  by (auto simp: diff_issue_def issue_regresses_def split: option.splits if_splits)

lemma diff_issue_grows: "\<exists>ys. df_regressions (diff_issue before i d) = df_regressions d @ ys"
  by (auto simp: diff_issue_def split: option.splits)

lemma fold_issues_regressions:
  "df_regressions (fold (\<lambda>i. diff_issue (f i) i) is d) = df_regressions d \<longleftrightarrow>
     (\<forall>i\<in>set is. \<not> issue_regresses (f i) i)"
proof -
  have grow: "\<exists>ys. df_regressions (fold (\<lambda>i. diff_issue (f i) i) is d) = df_regressions d @ ys \<and>
      (ys = [] \<longleftrightarrow> (\<forall>i\<in>set is. \<not> issue_regresses (f i) i))" for d
  proof (induction "is" arbitrary: d)
    case (Cons i "is")
    from diff_issue_grows [of "f i" i d] obtain ys where
      ys: "df_regressions (diff_issue (f i) i d) = df_regressions d @ ys" by blast
    note ys' = diff_issue_regressions [OF ys]
    from Cons.IH [of "diff_issue (f i) i d"] obtain zs where
      zs: "df_regressions (fold (\<lambda>i. diff_issue (f i) i) is (diff_issue (f i) i d)) =
        df_regressions (diff_issue (f i) i d) @ zs"
      "zs = [] \<longleftrightarrow> (\<forall>i\<in>set is. \<not> issue_regresses (f i) i)" by blast
    show ?case by (intro exI [of _ "ys @ zs"]) (use ys ys' zs in auto)
  qed simp
  from grow [of d] show ?thesis by auto
qed

lemma fold_cleared_regressions:
  "df_regressions (fold (diff_cleared fresh) is d) = df_regressions d"
  by (induction "is" arbitrary: d) (auto simp: diff_cleared_def)

lemma fold_issues_grow:
  "\<exists>ys. df_regressions (fold (\<lambda>i. diff_issue (f i) i) is d) = df_regressions d @ ys"
proof (induction "is" arbitrary: d)
  case (Cons i "is")
  from diff_issue_grows [of "f i" i d] obtain ys where
    ys: "df_regressions (diff_issue (f i) i d) = df_regressions d @ ys" by blast
  from Cons.IH [of "diff_issue (f i) i d"] obtain zs where
    "df_regressions (fold (\<lambda>i. diff_issue (f i) i) is (diff_issue (f i) i d)) =
       df_regressions (diff_issue (f i) i d) @ zs" by blast
  with ys show ?case by simp
qed simp

lemma no_regressions_iff:
  "df_regressions (diff_against_baseline baseline fresh) = [] \<longleftrightarrow>
     (\<forall>a\<in>set (sn_areas fresh). \<not> area_regresses
        (js_map_of (map (\<lambda>a. (n_module a, a)) (sn_areas baseline)) (n_module a)) a) \<and>
     (\<forall>i\<in>set (sn_issues fresh). \<not> issue_regresses
        (js_map_of (map (\<lambda>i. (k_fingerprint i, i)) (sn_issues baseline)) (k_fingerprint i)) i)"
proof -
  define fa where "fa a = js_map_of (map (\<lambda>a. (n_module a, a)) (sn_areas baseline)) (n_module a)"
    for a :: area_snapshot
  define fi where "fi i = js_map_of (map (\<lambda>i. (k_fingerprint i, i)) (sn_issues baseline)) (k_fingerprint i)"
    for i :: issue_snapshot
  define d0 where "d0 = \<lparr> df_changes = [], df_regressions = [], df_improvements = [] \<rparr>"
  let ?d1 = "fold (\<lambda>a. diff_area (fa a) a) (sn_areas fresh) d0"
  let ?d2 = "fold (\<lambda>i. diff_issue (fi i) i) (sn_issues fresh) ?d1"
  have "diff_against_baseline baseline fresh = fold (diff_cleared (sn_issues fresh)) (sn_issues baseline) ?d2"
    by (simp add: diff_against_baseline_def fa_def fi_def d0_def)
  then have r: "df_regressions (diff_against_baseline baseline fresh) = df_regressions ?d2"
    by (simp add: fold_cleared_regressions)
  have d0: "df_regressions d0 = []" by (simp add: d0_def)
  have grow: "\<exists>ys. df_regressions ?d2 = df_regressions ?d1 @ ys" by (rule fold_issues_grow)
  show ?thesis
    using fold_areas_regressions [of fa "sn_areas fresh" d0] fold_issues_regressions [of fi "sn_issues fresh" ?d1]
      grow d0
    unfolding r fa_def [symmetric] fi_def [symmetric] by auto
qed

end
