(* ===== verification/Fix_Theorems.thy ===== *)
theory Fix_Theorems
  imports Issue_Props Readiness Credit_Theorems
begin

text \<open>
  The properties of the fix loop (an issue turns green only on a passing re-check, one attempt per
  assertion, what a refused queue leaves behind) and of the readiness verdict.
\<close>

section \<open>A world for the examples\<close>

definition sample_issue :: "issue_state \<Rightarrow> issue" where
  "sample_issue st = \<lparr> i_id = ''i'', i_scan = ''s'', i_fingerprint = ''f'', i_state = st,
     i_resolved_at = None, i_reopened_at = None, i_asserted_at = None, i_previously = False \<rparr>"

definition sample_issues :: "issue_state \<Rightarrow> issue_world" where
  "sample_issues st = \<lparr> iw_issues = [sample_issue st], iw_attempts = [], iw_ledger = sample_ledger,
     iw_scans = [\<lparr> c_id = ''s'', c_target = ''t'', c_user = ''u'', c_created = 1 \<rparr>], iw_jobs = [] \<rparr>"

definition sample_attempt :: "verification_outcome \<Rightarrow> string option \<Rightarrow> attempt_input" where
  "sample_attempt out ev = \<lparr> n_issue = ''i'', n_outcome = out, n_evidence = ev, n_charged = 3,
     n_duration = 7, n_debit = None \<rparr>"

lemma sample_issues_ok: "st \<noteq> RESOLVED \<Longrightarrow> fix_ok (sample_issues st)"
  by (simp add: fix_ok_def issues_ok_def resolved_backed_def sample_issues_def sample_issue_def sample_ledger_ok)

section \<open>The fix loop\<close>

text \<open>C15: However assertions, re-checks and recurrence marking interleave (a handler may write after any
  other requests ran since its read), every issue in \<open>RESOLVED\<close> has a recorded attempt that passed, and
  the ledger stays consistent.\<close>

theorem resolved_only_by_passing:
  assumes "fix_run w0 w" and "fix_ok w0" and "x \<in> set (iw_issues w)" and "i_state x = RESOLVED"
  shows "(\<exists>a\<in>set (iw_attempts w). v_issue a = i_id x \<and> v_outcome a = V_PASSED) \<and> ledger_ok (iw_ledger w)"
  using fix_run_ok [OF assms(1,2)] assms(3,4) by (auto simp: fix_ok_def resolved_backed_def)

theorem resolved_only_by_passing_witness:
  "\<exists>a\<in>set (iw_attempts (snd (record_verification_attempt (\<lambda>_. sample_issues ASSERTED_FIXED) 9
     (sample_attempt V_PASSED None) (sample_issues ASSERTED_FIXED)))). v_outcome a = V_PASSED"
proof -
  let ?w = "sample_issues ASSERTED_FIXED"
  let ?w' = "snd (record_verification_attempt (\<lambda>_. ?w) 9 (sample_attempt V_PASSED None) ?w)"
  have run: "fix_run ?w ?w'" by (rule fix_record [OF fix_start fix_start])
  have "\<exists>x\<in>set (iw_issues ?w'). i_state x = RESOLVED"
  proof -
    have "list_ex (\<lambda>x. i_state x = RESOLVED) (iw_issues ?w')"
      by (simp add: record_verification_attempt_def sample_issues_def sample_attempt_def sample_issue_def
          update_issues_def write_outcome_def timestamp_field_for_def resolved_only_on_pass_def
          issue_state_of_def find_row_def Let_def)
    then show ?thesis by (simp add: list_ex_iff)
  qed
  then obtain x where "x \<in> set (iw_issues ?w')" "i_state x = RESOLVED" by blast
  with resolved_only_by_passing [OF run sample_issues_ok] show ?thesis by blast
qed

text \<open>A re-check job delivered twice counts once: after a call that applied its outcome, any further
  call for the issue, with any outcome, applies nothing, records no attempt, moves no issue and refunds
  nothing, until the user asserts the fix again.\<close>

lemma recheck_counts_once:
  assumes "issues_ok (between w)"
    and "record_verification_attempt between now inp w = (Inr r, w')" and "r_applied r"
    and "n_issue inp2 = n_issue inp"
  shows "snd (record_verification_attempt between2 now2 inp2 w') = w' \<and>
     (case fst (record_verification_attempt between2 now2 inp2 w') of
        Inl e \<Rightarrow> e = Evidence_Missing \<and> n_evidence inp2 = None \<and> n_outcome inp2 = V_FAILED
      | Inr r2 \<Rightarrow> \<not> r_applied r2 \<and> r_refunded r2 = 0)"
proof -
  from assms(2) have "issue_state_of (n_issue inp) w' \<noteq> Some ASSERTED_FIXED"
  proof (cases rule: record_cases)
    case refused
    then show ?thesis using assms(3) by blast
  next
    case lost
    then show ?thesis using assms(3) by blast
  next
    case (applied led)
    have rows: "iw_issues w' = map (\<lambda>x. if i_id x = n_issue inp \<and> i_state x = ASSERTED_FIXED
        then write_outcome now (outcome_to_state (n_outcome inp)) x else x) (iw_issues (between w))"
      using applied(1) by simp
    have "outcome_to_state (n_outcome inp) \<noteq> ASSERTED_FIXED" by (cases "n_outcome inp") simp_all
    then have "i_state x \<noteq> ASSERTED_FIXED" if "x \<in> set (iw_issues w')" "i_id x = n_issue inp" for x
      using that unfolding rows by (auto split: if_splits)
    then show ?thesis unfolding issue_state_of_def by (auto dest: find_row_SomeD)
  qed
  then have "issue_state_of (n_issue inp2) w' \<noteq> Some ASSERTED_FIXED" using assms(4) by simp
  then show ?thesis
    by (auto simp: record_verification_attempt_def never_refuses_resolution Let_def)
qed

definition evidenced :: "attempt \<Rightarrow> bool" where
  "evidenced a \<longleftrightarrow> (v_outcome a = V_FAILED \<longrightarrow> v_evidence a \<noteq> None)"

text \<open>A negative verdict without evidence is refused before anything is written, and an outcome that is
  recorded carries its evidence: every recorded failed attempt has some.\<close>

lemma failed_needs_evidence:
  "(if n_outcome inp = V_FAILED \<and> n_evidence inp = None
    then record_verification_attempt between now inp w = (Inl Evidence_Missing, w)
    else fst (record_verification_attempt between now inp w) \<noteq> Inl Evidence_Missing) \<and>
   (if list_all evidenced (iw_attempts w @ iw_attempts (between w))
    then list_all evidenced
           (iw_attempts (snd (record_verification_attempt between now inp w)))
    else True)"
proof (intro conjI)
  show "if n_outcome inp = V_FAILED \<and> n_evidence inp = None
      then record_verification_attempt between now inp w = (Inl Evidence_Missing, w)
      else fst (record_verification_attempt between now inp w) \<noteq> Inl Evidence_Missing"
    by (auto simp: record_verification_attempt_def never_refuses_resolution Let_def
        split: option.splits sum.splits prod.splits)
  obtain res w' where call: "record_verification_attempt between now inp w = (res, w')"
    by (cases "record_verification_attempt between now inp w")
  then show "if list_all evidenced (iw_attempts w @ iw_attempts (between w))
      then list_all evidenced
             (iw_attempts (snd (record_verification_attempt between now inp w)))
      else True"
    by (cases rule: record_cases) (simp_all add: call evidenced_def)
qed



section \<open>Readiness\<close>

text \<open>C36: The persisted verdict is "go" exactly when every area of the schedule was scored at or above its
  threshold, no area lost three points or more or fell to a less confident state, no issue verified
  fixed has returned, no new blocking issue appeared, and the audit measured something; it is "go"
  exactly when its list of named blockers is empty.\<close>

theorem ready_exactly_when:
  assumes "distinct (map n_module (sn_areas fresh))"
  shows "(rr_ready (finalize_readiness baseline fresh overall) \<longleftrightarrow>
     (\<forall>(m, t)\<in>set readiness_thresholds.
        \<exists>a\<in>set (sn_areas fresh). n_module a = m \<and> (\<exists>s. n_score a = Some s \<and> t \<le> s)) \<and>
     (\<forall>a\<in>set (sn_areas fresh). \<not> area_regresses
        (js_map_of (map (\<lambda>a. (n_module a, a)) (sn_areas baseline)) (n_module a)) a) \<and>
     (\<forall>i\<in>set (sn_issues fresh). \<not> issue_regresses
        (js_map_of (map (\<lambda>i. (k_fingerprint i, i)) (sn_issues baseline)) (k_fingerprint i)) i) \<and>
     overall_points (overall_score_of (map area_score_of (sn_areas fresh))) \<noteq> None) \<and>
   (rr_ready (finalize_readiness baseline fresh overall) \<longleftrightarrow>
     rr_blockers (finalize_readiness baseline fresh overall) = [])"
proof -
  have pass: "(\<forall>mt\<in>set readiness_thresholds. mo_pass (outcome_for (sn_areas fresh) mt)) \<longleftrightarrow>
      (\<forall>(m, t)\<in>set readiness_thresholds.
        \<exists>a\<in>set (sn_areas fresh). n_module a = m \<and> (\<exists>s. n_score a = Some s \<and> t \<le> s))"
    by (intro ball_cong refl) (simp add: split_beta outcome_pass [OF assms, symmetric])
  have named: "rr_ready (finalize_readiness baseline fresh overall) \<longleftrightarrow>
      rr_blockers (finalize_readiness baseline fresh overall) = []"
    by (simp add: finalize_readiness_def compute_verdict_def Let_def)
  show ?thesis
    by (intro conjI named) (simp add: finalize_readiness_def Let_def ready_iff pass no_regressions_iff)
qed

definition sample_areas :: "area_snapshot list" where
  "sample_areas = map (\<lambda>m. \<lparr> n_module = m, n_state = M_COMPLETE, n_score = Some 90, n_degraded = None \<rparr>) all_areas"

theorem ready_exactly_when_witness:
  "rr_ready (finalize_readiness \<lparr> sn_areas = [], sn_issues = [] \<rparr> \<lparr> sn_areas = sample_areas, sn_issues = [] \<rparr> None) \<longleftrightarrow>
   rr_blockers (finalize_readiness \<lparr> sn_areas = [], sn_issues = [] \<rparr> \<lparr> sn_areas = sample_areas, sn_issues = [] \<rparr> None) = []"
  by (rule conjunct2 [OF ready_exactly_when]) (simp add: sample_areas_def all_areas_def)

text \<open>A drop of exactly three points counts as a regression and blocks the verdict; a drop of two, with
  the same state, does not.\<close>

lemma three_points_regress:
  assumes "n_score old = Some s" and "n_score new = Some (s - d)" and "n_state new = n_state old"
    and "n_module new = n_module old" and "d = 2 \<or> d = 3"
  shows "df_regressions (diff_against_baseline \<lparr> sn_areas = [old], sn_issues = [] \<rparr>
     \<lparr> sn_areas = [new], sn_issues = [] \<rparr>) = [] \<longleftrightarrow> d = 2"
  using assms
  by (auto simp: no_regressions_iff area_regresses_def js_map_of_def area_regression_min_def)

end
