(* ===== verification/Plan_Graph.thy ===== *)
theory Plan_Graph
  imports Domain
begin

text \<open>
  The pure rules of an execution graph, \<^verbatim>\<open>apps/api/src/services/planning/graph.ts\<close>: validation
  with the iterative depth-first cycle search, Kahn's topological order, and the propagation of
  blocking.  The two maps \<^verbatim>\<open>predecessorsOf\<close> and \<^verbatim>\<open>dependentsOf\<close> are functions whose value is
  the empty list where the source's map has no entry (\<^verbatim>\<open>?? []\<close>).
\<close>

section \<open>Units and edges\<close>

record graph_unit =
  gu_id :: string
  gu_class :: execution_unit_class

record graph_edge =
  ge_unit :: string
  ge_dep :: string

definition execution_unit_classes :: "execution_unit_class list" where
  "execution_unit_classes =
     [PASSIVE_HTTP, SOURCE_STATIC, BROWSER, CRAWLER, SOURCE_EXECUTION, ACTIVE_SECURITY,
      AUTHENTICATED_WORKFLOW, LOAD_CAPACITY, TELEMETRY]"

definition passive_classes :: "execution_unit_class list" where
  "passive_classes = [PASSIVE_HTTP, SOURCE_STATIC, TELEMETRY]"

definition is_passive_class :: "execution_unit_class \<Rightarrow> bool" where
  "is_passive_class c \<longleftrightarrow> c \<in> set passive_classes"

definition terminal_statuses :: "execution_unit_status list" where
  "terminal_statuses = [U_SKIPPED, U_BLOCKED, U_REFUSED, U_COMPLETED, U_FAILED, U_CANCELLED, U_KILLED]"

definition is_terminal_unit_status :: "execution_unit_status \<Rightarrow> bool" where
  "is_terminal_unit_status s \<longleftrightarrow> s \<in> set terminal_statuses"

datatype graph_error =
    Empty_Unit_Id
  | Duplicate_Unit string
  | Unknown_Class string
  | Dangling_Edge string string
  | Self_Dependency string
  | Duplicate_Edge string string
  | Cycle "string list"

definition predecessors_of :: "graph_edge list \<Rightarrow> string \<Rightarrow> string list" where
  "predecessors_of edges i = sort (map ge_dep (filter (\<lambda>e. ge_unit e = i) edges))"

definition dependents_of :: "graph_edge list \<Rightarrow> string \<Rightarrow> string list" where
  "dependents_of edges i = sort (map ge_unit (filter (\<lambda>e. ge_dep e = i) edges))"

section \<open>The cycle search\<close>

datatype colour = White | Grey | Black

text \<open>
  One root: the stack holds the frames, top first, each with the index of its next neighbour; the
  path is the ids on the stack from the root.  An iteration pops a frame or consumes one
  neighbour, so the units plus the edges bound the iterations.
\<close>

fun dfs_loop ::
  "nat \<Rightarrow> (string \<Rightarrow> string list) \<Rightarrow> (string \<Rightarrow> colour option) \<Rightarrow> string list \<Rightarrow> (string \<times> nat) list \<Rightarrow>
   (string list + (string \<Rightarrow> colour option)) option" where
  "dfs_loop fuel nbrs col path [] = Some (Inr col)"
| "dfs_loop 0 nbrs col path (f # fs) = None"
| "dfs_loop (Suc fuel) nbrs col path ((i, k) # fs) =
     (if length (nbrs i) \<le> k then
        dfs_loop fuel nbrs (col(i \<mapsto> Black)) (butlast path) fs
      else
        let to = nbrs i ! k;
            fs' = (i, Suc k) # fs
        in if col to = Some Grey then
             Some (Inl (dropWhile (\<lambda>x. x \<noteq> to) path @ [to]))
           else if col to = Some White then
             dfs_loop fuel nbrs (col(to \<mapsto> Grey)) (path @ [to]) ((to, 0) # fs')
           else dfs_loop fuel nbrs col path fs')"

fun search_roots ::
  "nat \<Rightarrow> (string \<Rightarrow> string list) \<Rightarrow> (string \<Rightarrow> colour option) \<Rightarrow> string list \<Rightarrow> string list option option"
where
  "search_roots fuel nbrs col [] = Some None"
| "search_roots fuel nbrs col (r # rs) =
     (if col r \<noteq> Some White then search_roots fuel nbrs col rs
      else case dfs_loop fuel nbrs (col(r \<mapsto> Grey)) [r] [(r, 0)] of
             None \<Rightarrow> None
           | Some (Inl cycle) \<Rightarrow> Some (Some cycle)
           | Some (Inr col') \<Rightarrow> search_roots fuel nbrs col' rs)"

definition search_fuel :: "'a list \<Rightarrow> graph_edge list \<Rightarrow> nat" where
  "search_fuel units edges = length units + length edges"

definition find_cycle :: "'a graph_unit_scheme list \<Rightarrow> graph_edge list \<Rightarrow> string list option option" where
  "find_cycle units edges =
     (let ids = sort (map gu_id units) in
      search_roots (search_fuel units edges) (predecessors_of edges)
        (map_of (map (\<lambda>i. (i, White)) ids)) ids)"

section \<open>Validation\<close>

fun check_units :: "string list \<Rightarrow> 'a graph_unit_scheme list \<Rightarrow> graph_error + string list" where
  "check_units ids [] = Inr ids"
| "check_units ids (u # us) =
     (if gu_id u = [] then Inl Empty_Unit_Id
      else if gu_id u \<in> set ids then Inl (Duplicate_Unit (gu_id u))
      else if gu_class u \<notin> set execution_unit_classes then Inl (Unknown_Class (gu_id u))
      else check_units (gu_id u # ids) us)"

definition edge_key :: "graph_edge \<Rightarrow> string" where
  "edge_key e = ge_unit e @ [CHR 0x00] @ ge_dep e"

fun check_edges :: "string list \<Rightarrow> string list \<Rightarrow> graph_edge list \<Rightarrow> graph_error + unit" where
  "check_edges ids seen [] = Inr ()"
| "check_edges ids seen (e # es) =
     (if ge_unit e \<notin> set ids \<or> ge_dep e \<notin> set ids then Inl (Dangling_Edge (ge_unit e) (ge_dep e))
      else if ge_unit e = ge_dep e then Inl (Self_Dependency (ge_unit e))
      else if edge_key e \<in> set seen then Inl (Duplicate_Edge (ge_unit e) (ge_dep e))
      else check_edges ids (edge_key e # seen) es)"

text \<open>The outer \<open>option\<close> is the fuel of the search; it never runs out.\<close>

definition validate_execution_graph ::
  "'a graph_unit_scheme list \<Rightarrow> graph_edge list \<Rightarrow> (graph_error + unit) option" where
  "validate_execution_graph units edges =
     (case check_units [] units of
        Inl e \<Rightarrow> Some (Inl e)
      | Inr ids \<Rightarrow>
          (case check_edges ids [] edges of
             Inl e \<Rightarrow> Some (Inl e)
           | Inr _ \<Rightarrow>
               (case find_cycle units edges of
                  None \<Rightarrow> None
                | Some (Some c) \<Rightarrow> Some (Inl (Cycle c))
                | Some None \<Rightarrow> Some (Inr ()))))"

section \<open>Topological order\<close>

fun release ::
  "string list \<Rightarrow> (string \<Rightarrow> int) \<Rightarrow> string list \<Rightarrow> (string \<Rightarrow> int) \<times> string list" where
  "release [] left ready = (left, ready)"
| "release (d # ds) left ready =
     (let n = left d - 1;
          left' = left(d := n)
      in if n = 0 then release ds left' (sort (ready @ [d])) else release ds left' ready)"

fun kahn ::
  "nat \<Rightarrow> (string \<Rightarrow> string list) \<Rightarrow> (string \<Rightarrow> int) \<Rightarrow> string list \<Rightarrow> string list \<Rightarrow> string list option"
where
  "kahn fuel deps left [] ord = Some ord"
| "kahn 0 deps left (i # ready) ord = None"
| "kahn (Suc fuel) deps left (i # ready) ord =
     (let (left', ready') = release (deps i) left ready
      in kahn fuel deps left' ready' (ord @ [i]))"

definition topological_order ::
  "'a graph_unit_scheme list \<Rightarrow> graph_edge list \<Rightarrow> (graph_error + string list) option" where
  "topological_order units edges =
     (case validate_execution_graph units edges of
        None \<Rightarrow> None
      | Some (Inl e) \<Rightarrow> Some (Inl e)
      | Some (Inr _) \<Rightarrow>
          let left = (\<lambda>i. int (length (predecessors_of edges i)));
              ready = sort (map gu_id (filter (\<lambda>u. left (gu_id u) = 0) units))
          in map_option Inr (kahn (length units) (dependents_of edges) left ready []))"

section \<open>Blocking\<close>

record blocked_dependent =
  bd_unit :: string
  bd_by :: string

definition dependents_to_block ::
  "string \<Rightarrow> execution_unit_status \<Rightarrow> graph_edge list \<Rightarrow> (string \<Rightarrow> execution_unit_status) \<Rightarrow>
   string + blocked_dependent list" where
  "dependents_to_block i status edges status_of =
     (if \<not> is_terminal_unit_status status then Inl i
      else if status = U_COMPLETED then Inr []
      else Inr (map (\<lambda>d. \<lparr> bd_unit = d, bd_by = i \<rparr>)
                 (filter (\<lambda>d. \<not> is_terminal_unit_status (status_of d)) (dependents_of edges i))))"

fun block_each ::
  "string \<Rightarrow> string \<Rightarrow> string list \<Rightarrow> (string \<times> string) list \<Rightarrow> string list \<Rightarrow>
   (string \<times> string) list \<times> string list" where
  "block_each failed cur [] blocked queue = (blocked, queue)"
| "block_each failed cur (d # ds) blocked queue =
     (if d = failed \<or> d \<in> fst ` set blocked then block_each failed cur ds blocked queue
      else block_each failed cur ds (blocked @ [(d, cur)]) (queue @ [d]))"

fun block_loop ::
  "nat \<Rightarrow> string \<Rightarrow> (string \<Rightarrow> string list) \<Rightarrow> (string \<times> string) list \<Rightarrow> string list \<Rightarrow>
   (string \<times> string) list option" where
  "block_loop fuel failed deps blocked [] = Some blocked"
| "block_loop 0 failed deps blocked (c # queue) = None"
| "block_loop (Suc fuel) failed deps blocked (c # queue) =
     (let (blocked', queue') = block_each failed c (deps c) blocked queue
      in block_loop fuel failed deps blocked' queue')"

text \<open>Each edge puts a unit into the queue at most once, after the failed one.\<close>

definition transitive_blocked :: "string \<Rightarrow> graph_edge list \<Rightarrow> (string \<times> string) list option" where
  "transitive_blocked failed edges =
     block_loop (Suc (length edges)) failed (dependents_of edges) [] [failed]"

definition is_eligible :: "string \<Rightarrow> graph_edge list \<Rightarrow> (string \<Rightarrow> execution_unit_status) \<Rightarrow> bool" where
  "is_eligible i edges status_of \<longleftrightarrow>
     list_all (\<lambda>p. status_of p = U_COMPLETED) (predecessors_of edges i)"

section \<open>The dependency relation\<close>

definition depends :: "graph_edge list \<Rightarrow> (string \<times> string) set" where
  "depends edges = (\<lambda>e. (ge_unit e, ge_dep e)) ` set edges"

lemma predecessors_iff [simp]: "p \<in> set (predecessors_of edges i) \<longleftrightarrow> (i, p) \<in> depends edges"
  by (force simp: predecessors_of_def depends_def)

lemma dependents_iff [simp]: "d \<in> set (dependents_of edges i) \<longleftrightarrow> (d, i) \<in> depends edges"
  by (force simp: dependents_of_def depends_def)

lemma depends_Cons [simp]: "depends (e # es) = insert (ge_unit e, ge_dep e) (depends es)"
  by (simp add: depends_def)

end
