(* ===== verification/Plan_Search.thy ===== *)
theory Plan_Search
  imports Plan_Graph
begin

text \<open>
  The cycle search is right and always ends: with the fuel it is given it either returns a cycle
  of the graph or blackens every unit, in an order in which a unit comes after everything it
  depends on.
\<close>

section \<open>Ranked orders and cycles\<close>

text \<open>An order in which each element comes after all its neighbours.\<close>

fun ranked :: "('a \<Rightarrow> 'a list) \<Rightarrow> 'a list \<Rightarrow> 'a list \<Rightarrow> bool" where
  "ranked nbrs before [] = True"
| "ranked nbrs before (x # xs) = (set (nbrs x) \<subseteq> set before \<and> ranked nbrs (before @ [x]) xs)"

lemma ranked_snoc:
  "ranked nbrs before (xs @ [x]) \<longleftrightarrow> ranked nbrs before xs \<and> set (nbrs x) \<subseteq> set before \<union> set xs"
  by (induction nbrs before xs rule: ranked.induct) auto

definition is_cycle :: "('a \<Rightarrow> 'a list) \<Rightarrow> 'a list \<Rightarrow> bool" where
  "is_cycle nbrs c \<longleftrightarrow> 2 \<le> length c \<and> hd c = last c \<and> successively (\<lambda>a b. b \<in> set (nbrs a)) c"

lemma successively_path:
  "successively (\<lambda>a b. b \<in> set (nbrs a)) (x # xs) \<Longrightarrow> xs \<noteq> [] \<Longrightarrow>
   (x, last xs) \<in> {(a, b). b \<in> set (nbrs a)}\<^sup>+"
proof (induction xs arbitrary: x)
  case (Cons y ys)
  show ?case
  proof (cases "ys = []")
    case True
    with Cons.prems show ?thesis by auto
  next
    case False
    have "(x, y) \<in> {(a, b). b \<in> set (nbrs a)}" using Cons.prems(1) by simp
    moreover have "(y, last ys) \<in> {(a, b). b \<in> set (nbrs a)}\<^sup>+"
      using Cons.IH [of y] Cons.prems False by simp
    ultimately show ?thesis using False by (simp add: trancl_into_trancl2)
  qed
qed simp

lemma is_cycle_not_acyclic: "is_cycle nbrs c \<Longrightarrow> \<not> acyclic {(a, b). b \<in> set (nbrs a)}"
proof -
  assume c: "is_cycle nbrs c"
  then obtain x xs where xs: "c = x # xs" "xs \<noteq> []"
    unfolding is_cycle_def by (cases c; cases "tl c") auto
  have "successively (\<lambda>a b. b \<in> set (nbrs a)) (x # xs)" using c unfolding is_cycle_def xs(1) by blast
  then have "(x, last xs) \<in> {(a, b). b \<in> set (nbrs a)}\<^sup>+"
    using xs(2) by (rule successively_path)
  moreover have "last xs = x" using c xs by (simp add: is_cycle_def)
  ultimately have "(x, x) \<in> {(a, b). b \<in> set (nbrs a)}\<^sup>+" by simp
  then show ?thesis by (auto simp: acyclic_def)
qed

lemma ranked_rank:
  "ranked nbrs before xs \<Longrightarrow> distinct (before @ xs) \<Longrightarrow> (a, b) \<in> {(a, b). b \<in> set (nbrs a)}\<^sup>+ \<Longrightarrow>
   a \<in> set xs \<Longrightarrow> (\<forall>y\<in>set before. set (nbrs y) \<subseteq> set before \<and> (y, y) \<notin> {(a, b). b \<in> set (nbrs a)}\<^sup>+) \<Longrightarrow>
   a \<noteq> b"
proof (induction nbrs before xs rule: ranked.induct)
  case (2 nbrs before x xs)
  let ?E = "{(a, b). b \<in> set (nbrs a)}"
  have closed: "b \<in> set before" if "(a, b) \<in> ?E\<^sup>+" "a \<in> set before" for a b
    using that by (induction rule: trancl.induct) (use "2.prems"(5) in auto)
  have xx: "(x, x) \<notin> ?E\<^sup>+"
  proof
    assume "(x, x) \<in> ?E\<^sup>+"
    from tranclD [OF this] obtain y where y: "(x, y) \<in> ?E" "(y, x) \<in> ?E\<^sup>*" by blast
    then have y': "y = x \<or> (y, x) \<in> ?E\<^sup>+" by (auto simp: rtrancl_eq_or_trancl)
    from y(1) "2.prems"(1) have "y \<in> set before" by auto
    with y' closed have "x \<in> set before" by auto
    with "2.prems"(2) show False by simp
  qed
  show ?case
  proof (cases "a = x")
    case True
    with xx "2.prems"(3) show ?thesis by auto
  next
    case False
    have "\<forall>y\<in>set (before @ [x]). set (nbrs y) \<subseteq> set (before @ [x]) \<and> (y, y) \<notin> ?E\<^sup>+"
      using "2.prems"(1,5) xx by auto
    then show ?thesis using "2.IH" "2.prems" False by auto
  qed
qed simp

lemma ranked_acyclic:
  assumes "ranked nbrs [] xs" and "distinct xs" and "\<And>a. nbrs a \<noteq> [] \<Longrightarrow> a \<in> set xs"
  shows "acyclic {(a, b). b \<in> set (nbrs a)}"
  unfolding acyclic_def
proof (intro allI notI)
  fix a
  assume a: "(a, a) \<in> {(a, b). b \<in> set (nbrs a)}\<^sup>+"
  then obtain y where "y \<in> set (nbrs a)" by (auto dest: tranclD)
  with assms(3) have "a \<in> set xs" by force
  with ranked_rank [OF assms(1) _ a] assms(2) show False by simp
qed

section \<open>The invariant of the search\<close>

fun parents_ok :: "('a \<Rightarrow> 'a list) \<Rightarrow> ('a \<Rightarrow> colour option) \<Rightarrow> 'a \<Rightarrow> ('a \<times> nat) list \<Rightarrow> bool" where
  "parents_ok nbrs col c [] = True"
| "parents_ok nbrs col c ((p, k) # fs) =
     (0 < k \<and> k \<le> length (nbrs p) \<and> nbrs p ! (k - 1) = c \<and>
      (\<forall>j<k - 1. col (nbrs p ! j) = Some Black) \<and> parents_ok nbrs col p fs)"

fun frames_ok :: "('a \<Rightarrow> 'a list) \<Rightarrow> ('a \<Rightarrow> colour option) \<Rightarrow> ('a \<times> nat) list \<Rightarrow> bool" where
  "frames_ok nbrs col [] = True"
| "frames_ok nbrs col ((i, k) # fs) =
     (k \<le> length (nbrs i) \<and> (\<forall>j<k. col (nbrs i ! j) = Some Black) \<and> parents_ok nbrs col i fs)"

definition search_ok ::
  "'a set \<Rightarrow> ('a \<Rightarrow> 'a list) \<Rightarrow> ('a \<Rightarrow> colour option) \<Rightarrow> ('a \<times> nat) list \<Rightarrow> bool" where
  "search_ok V nbrs col stack \<longleftrightarrow> dom col = V \<and> (\<forall>i\<in>V. set (nbrs i) \<subseteq> V) \<and>
     distinct (map fst stack) \<and> fst ` set stack = {i. col i = Some Grey} \<and>
     frames_ok nbrs col stack \<and>
     (\<exists>fin. distinct fin \<and> set fin = {i. col i = Some Black} \<and> ranked nbrs [] fin)"

definition search_measure ::
  "('a \<Rightarrow> 'a list) \<Rightarrow> ('a \<Rightarrow> colour option) \<Rightarrow> ('a \<times> nat) list \<Rightarrow> nat" where
  "search_measure nbrs col stack =
     (\<Sum>i\<in>{i. col i = Some White}. Suc (length (nbrs i))) +
     (\<Sum>(i, k)\<leftarrow>stack. Suc (length (nbrs i)) - k)"

lemma parents_ok_mono:
  "parents_ok nbrs col c fs \<Longrightarrow> (\<And>i. col i = Some Black \<Longrightarrow> col' i = Some Black) \<Longrightarrow>
   parents_ok nbrs col' c fs"
  by (induction nbrs col c fs rule: parents_ok.induct) auto

lemma parents_path:
  "parents_ok nbrs col c fs \<Longrightarrow> successively (\<lambda>a b. b \<in> set (nbrs a)) (rev (map fst fs) @ [c])"
proof (induction nbrs col c fs rule: parents_ok.induct)
  case (2 nbrs col c p k fs)
  then have "c \<in> set (nbrs p)" by (metis One_nat_def diff_Suc_less less_le_trans nth_mem parents_ok.simps(2))
  moreover have "successively (\<lambda>a b. b \<in> set (nbrs a)) (rev (map fst fs) @ [p])" using 2 by simp
  ultimately show ?case by (simp add: successively_append_iff)
qed simp

lemma finish_frame:
  assumes ok: "search_ok V nbrs col ((i, k) # fs)" and k: "length (nbrs i) \<le> k"
  shows "search_ok V nbrs (col(i \<mapsto> Black)) fs"
proof -
  let ?c = "col(i \<mapsto> Black)"
  from ok have inv: "dom col = V" "\<forall>i\<in>V. set (nbrs i) \<subseteq> V" "distinct (i # map fst fs)"
    "insert i (fst ` set fs) = {i. col i = Some Grey}" "\<forall>j<k. col (nbrs i ! j) = Some Black"
    "parents_ok nbrs col i fs" by (simp_all add: search_ok_def)
  from ok obtain fin where fin: "distinct fin" "set fin = {i. col i = Some Black}" "ranked nbrs [] fin"
    by (auto simp: search_ok_def)
  have grey: "col i = Some Grey" using inv(4) by auto
  have "set (nbrs i) \<subseteq> set fin" using inv(5) k fin(2) by (auto simp: in_set_conv_nth)
  then have "distinct (fin @ [i]) \<and> set (fin @ [i]) = {x. ?c x = Some Black} \<and> ranked nbrs [] (fin @ [i])"
    using fin grey by (auto simp: ranked_snoc)
  moreover have "fst ` set fs = {x. ?c x = Some Grey}"
  proof -
    have "fst ` set fs = insert i (fst ` set fs) - {i}" using inv(3) by auto
    also have "\<dots> = {x. ?c x = Some Grey}" unfolding inv(4) by auto
    finally show ?thesis .
  qed
  moreover have "frames_ok nbrs ?c fs"
  proof (cases fs)
    case (Cons f gs)
    obtain p q where f: "f = (p, q)" by (cases f)
    have up: "col x = Some Black \<Longrightarrow> ?c x = Some Black" for x by simp
    from inv(6) Cons f have p: "0 < q" "q \<le> length (nbrs p)" "nbrs p ! (q - 1) = i"
      "\<forall>j<q - 1. col (nbrs p ! j) = Some Black" "parents_ok nbrs col p gs" by auto
    have "?c (nbrs p ! j) = Some Black" if "j < q" for j
      using p that by (cases "j = q - 1") auto
    with p parents_ok_mono [OF p(5), of ?c] up show ?thesis by (simp add: Cons f)
  qed simp
  moreover have "dom ?c = V" using inv(1) grey by auto
  moreover have "distinct (map fst fs)" using inv(3) by simp
  ultimately show ?thesis using inv(2) unfolding search_ok_def by (intro conjI) blast+
qed

lemma skip_neighbour:
  assumes ok: "search_ok V nbrs col ((i, k) # fs)" and k: "k < length (nbrs i)"
    and col: "col (nbrs i ! k) \<noteq> Some Grey" "col (nbrs i ! k) \<noteq> Some White"
  shows "search_ok V nbrs col ((i, Suc k) # fs)"
proof -
  from ok have inv: "dom col = V" "\<forall>i\<in>V. set (nbrs i) \<subseteq> V" "insert i (fst ` set fs) = {i. col i = Some Grey}"
    by (simp_all add: search_ok_def)
  from inv(3) have "col i = Some Grey" by blast
  with inv(1) have "i \<in> V" by blast
  with inv(1,2) k have "nbrs i ! k \<in> dom col" using nth_mem by blast
  then obtain c where "col (nbrs i ! k) = Some c" by auto
  with col have black: "col (nbrs i ! k) = Some Black" by (cases c) simp_all
  from ok have frames: "frames_ok nbrs col ((i, k) # fs)" by (simp add: search_ok_def)
  have "frames_ok nbrs col ((i, Suc k) # fs)" using frames black k by (auto simp: less_Suc_eq)
  moreover have "fst ` set ((i, Suc k) # fs) = fst ` set ((i, k) # fs)" by simp
  moreover have "map fst ((i, Suc k) # fs) = map fst ((i, k) # fs)" by simp
  ultimately show ?thesis using ok unfolding search_ok_def by metis
qed

lemma enter_neighbour:
  assumes ok: "search_ok V nbrs col ((i, k) # fs)" and k: "k < length (nbrs i)"
    and col: "col (nbrs i ! k) = Some White"
  shows "search_ok V nbrs (col(nbrs i ! k \<mapsto> Grey)) ((nbrs i ! k, 0) # (i, Suc k) # fs)"
proof -
  let ?to = "nbrs i ! k"
  let ?c = "col(?to \<mapsto> Grey)"
  from ok have inv: "dom col = V" "\<forall>i\<in>V. set (nbrs i) \<subseteq> V" "distinct (i # map fst fs)"
    "insert i (fst ` set fs) = {i. col i = Some Grey}" "\<forall>j<k. col (nbrs i ! j) = Some Black"
    "parents_ok nbrs col i fs" by (simp_all add: search_ok_def)
  have up: "col x = Some Black \<Longrightarrow> ?c x = Some Black" for x using col by auto
  have black: "{x. ?c x = Some Black} = {x. col x = Some Black}" using col by auto
  have "?to \<notin> insert i (fst ` set fs)" unfolding inv(4) using col by simp
  then have "distinct (map fst ((?to, 0) # (i, Suc k) # fs))" using inv(3) by auto
  moreover have "fst ` set ((?to, 0) # (i, Suc k) # fs) = {x. ?c x = Some Grey}"
    using inv(4) by auto
  moreover have "frames_ok nbrs ?c ((?to, 0) # (i, Suc k) # fs)"
    using k inv(5) up parents_ok_mono [OF inv(6), of ?c] by auto
  moreover have "dom ?c = V" using inv(1) col by auto
  ultimately show ?thesis using ok inv(2) black unfolding search_ok_def by metis
qed

lemma grey_neighbour_cycle:
  assumes ok: "search_ok V nbrs col ((i, k) # fs)" and k: "k < length (nbrs i)"
    and col: "col (nbrs i ! k) = Some Grey"
  shows "is_cycle nbrs (dropWhile (\<lambda>x. x \<noteq> nbrs i ! k) (rev (map fst ((i, k) # fs))) @ [nbrs i ! k])"
proof -
  let ?to = "nbrs i ! k" and ?path = "rev (map fst fs) @ [i]"
  let ?d = "dropWhile (\<lambda>x. x \<noteq> ?to) ?path"
  have "?to \<in> set ?path" using ok col by (auto simp: search_ok_def)
  then have ne1: "?d \<noteq> []" by (metis (full_types) dropWhile_eq_Nil_conv)
  note ne = ne1 hd_dropWhile [OF ne1, simplified not_not]
  have "successively (\<lambda>a b. b \<in> set (nbrs a)) ?path"
    using ok parents_path by (auto simp: search_ok_def)
  then have "successively (\<lambda>a b. b \<in> set (nbrs a)) ?d"
    by (metis successively_append_iff takeWhile_dropWhile_id)
  moreover have "last ?d = i" using ne(1)
    by (metis last_appendR last_snoc takeWhile_dropWhile_id)
  ultimately have "successively (\<lambda>a b. b \<in> set (nbrs a)) (?d @ [?to])"
    using ne k by (simp add: successively_append_iff)
  then show ?thesis using ne by (cases ?d) (auto simp: is_cycle_def)
qed

section \<open>The search ends\<close>

lemma measure_finish:
  assumes "search_ok V nbrs col ((i, k) # fs)"
  shows "search_measure nbrs (col(i \<mapsto> Black)) fs < search_measure nbrs col ((i, k) # fs)"
proof -
  have grey: "col i = Some Grey" and k: "k \<le> length (nbrs i)"
    using assms by (auto simp: search_ok_def)
  have "{j. (col(i \<mapsto> Black)) j = Some White} = {j. col j = Some White}" using grey by auto
  then show ?thesis using k by (simp add: search_measure_def)
qed

lemma measure_skip:
  "k < length (nbrs i) \<Longrightarrow>
   search_measure nbrs col ((i, Suc k) # fs) < search_measure nbrs col ((i, k) # fs)"
  by (simp add: search_measure_def)

lemma measure_enter:
  assumes fin: "finite V" and ok: "search_ok V nbrs col ((i, k) # fs)" and k: "k < length (nbrs i)"
    and col: "col (nbrs i ! k) = Some White"
  shows "search_measure nbrs (col(nbrs i ! k \<mapsto> Grey)) ((nbrs i ! k, 0) # (i, Suc k) # fs) <
     search_measure nbrs col ((i, k) # fs)"
proof -
  let ?to = "nbrs i ! k" and ?W = "{j. col j = Some White}"
  have "?W \<subseteq> V" using ok by (auto simp: search_ok_def)
  then have W: "finite ?W" using fin finite_subset by blast
  have "{j. (col(?to \<mapsto> Grey)) j = Some White} = ?W - {?to}" by auto
  moreover have "(\<Sum>i\<in>?W. Suc (length (nbrs i))) =
      Suc (length (nbrs ?to)) + (\<Sum>i\<in>?W - {?to}. Suc (length (nbrs i)))"
    using W col by (intro sum.remove) auto
  ultimately show ?thesis using k by (simp add: search_measure_def)
qed

definition blackened :: "('a \<Rightarrow> colour option) \<Rightarrow> ('a \<Rightarrow> colour option) \<Rightarrow> bool" where
  "blackened col col' \<longleftrightarrow> (\<forall>i. col' i = Some White \<longrightarrow> col i = Some White)"

lemma dfs_loop_result:
  assumes "finite V" and "search_ok V nbrs col stack" and "path = rev (map fst stack)"
    and "search_measure nbrs col stack \<le> fuel"
  shows "(\<exists>c. dfs_loop fuel nbrs col path stack = Some (Inl c) \<and> is_cycle nbrs c) \<or>
     (\<exists>col'. dfs_loop fuel nbrs col path stack = Some (Inr col') \<and> search_ok V nbrs col' [] \<and>
        blackened col col' \<and> search_measure nbrs col' [] \<le> search_measure nbrs col stack)"
  using assms(2-)
proof (induction fuel nbrs col path stack rule: dfs_loop.induct)
  case (1 fuel nbrs col path)
  then show ?case by (simp add: blackened_def)
next
  case (2 nbrs col path f fs)
  obtain i k where f: "f = (i, k)" by (cases f)
  have "k \<le> length (nbrs i)" using "2.prems"(1) f by (simp add: search_ok_def)
  then have "0 < search_measure nbrs col (f # fs)" by (simp add: search_measure_def f)
  with "2.prems"(3) show ?case by simp
next
  case (3 fuel nbrs col path i k fs)
  let ?to = "nbrs i ! k"
  note ok = "3.prems"(1)
  have path: "path = rev (map fst fs) @ [i]" using "3.prems"(2) by simp
  let ?loop = "\<lambda>col1 path1 st1.
        (\<exists>c. dfs_loop fuel nbrs col1 path1 st1 = Some (Inl c) \<and> is_cycle nbrs c) \<or>
        (\<exists>col'. dfs_loop fuel nbrs col1 path1 st1 = Some (Inr col') \<and> search_ok V nbrs col' [] \<and>
          blackened col1 col' \<and> search_measure nbrs col' [] \<le> search_measure nbrs col1 st1)"
  have done': ?case
    if sub: "search_ok V nbrs col1 st1" "path1 = rev (map fst st1)"
        "search_measure nbrs col1 st1 < search_measure nbrs col ((i, k) # fs)"
        "dfs_loop (Suc fuel) nbrs col path ((i, k) # fs) = dfs_loop fuel nbrs col1 path1 st1"
        "blackened col col1"
      and IH: "search_measure nbrs col1 st1 \<le> fuel \<Longrightarrow> ?loop col1 path1 st1"
    for col1 st1 path1
  proof -
    have "search_measure nbrs col1 st1 \<le> fuel" using sub(3) "3.prems"(3) by simp
    from IH [OF this] show ?thesis
      unfolding sub(4) using sub(3,5) by (auto simp: blackened_def intro: less_imp_le order_trans)
  qed
  consider (pop) "length (nbrs i) \<le> k" | (grey) "k < length (nbrs i)" "col ?to = Some Grey"
    | (white) "k < length (nbrs i)" "col ?to = Some White"
    | (skip) "k < length (nbrs i)" "col ?to \<noteq> Some Grey" "col ?to \<noteq> Some White" by linarith
  then show ?case
  proof cases
    case pop
    have "blackened col (col(i \<mapsto> Black))" by (simp add: blackened_def)
    show ?thesis
    proof (rule done')
      show "search_ok V nbrs (col(i \<mapsto> Black)) fs" using finish_frame [OF ok pop] .
      show "butlast path = rev (map fst fs)" using path by simp
      show "search_measure nbrs (col(i \<mapsto> Black)) fs < search_measure nbrs col ((i, k) # fs)"
        using measure_finish [OF ok] .
      show "dfs_loop (Suc fuel) nbrs col path ((i, k) # fs) =
          dfs_loop fuel nbrs (col(i \<mapsto> Black)) (butlast path) fs" using pop by simp
      show "blackened col (col(i \<mapsto> Black))" by fact
      show "?loop (col(i \<mapsto> Black)) (butlast path) fs"
        if "search_measure nbrs (col(i \<mapsto> Black)) fs \<le> fuel"
        using finish_frame [OF ok pop] path that by (intro "3.IH"(1) [OF pop]) (simp_all del: fun_upd_apply)
    qed
  next
    case grey
    then have "dfs_loop (Suc fuel) nbrs col path ((i, k) # fs) =
        Some (Inl (dropWhile (\<lambda>x. x \<noteq> ?to) path @ [?to]))" by (simp add: Let_def)
    moreover have "is_cycle nbrs (dropWhile (\<lambda>x. x \<noteq> ?to) path @ [?to])"
      using grey_neighbour_cycle [OF ok grey] path by simp
    ultimately show ?thesis by blast
  next
    case white
    have "blackened col (col(?to \<mapsto> Grey))" by (simp add: blackened_def)
    let ?col = "col(?to \<mapsto> Grey)" and ?st = "(?to, 0) # (i, Suc k) # fs"
    show ?thesis
    proof (rule done')
      show "search_ok V nbrs ?col ?st" using enter_neighbour [OF ok white] .
      show "path @ [?to] = rev (map fst ?st)" using path by simp
      show "search_measure nbrs ?col ?st < search_measure nbrs col ((i, k) # fs)"
        using measure_enter [OF assms(1) ok white] .
      show "dfs_loop (Suc fuel) nbrs col path ((i, k) # fs) =
          dfs_loop fuel nbrs ?col (path @ [?to]) ?st" using white by (simp add: Let_def)
      show "blackened col ?col" by fact
      show "?loop ?col (path @ [?to]) ?st" if "search_measure nbrs ?col ?st \<le> fuel"
        by (rule "3.IH"(2)) (use enter_neighbour [OF ok white] white path that in \<open>simp_all del: fun_upd_apply\<close>)
    qed
  next
    case skip
    have "blackened col col" by (simp add: blackened_def)
    let ?st = "(i, Suc k) # fs"
    show ?thesis
    proof (rule done')
      show "search_ok V nbrs col ?st" using skip_neighbour [OF ok skip] .
      show "path = rev (map fst ?st)" using path by simp
      show "search_measure nbrs col ?st < search_measure nbrs col ((i, k) # fs)"
        using measure_skip [of k nbrs i col fs] skip(1) by simp
      show "dfs_loop (Suc fuel) nbrs col path ((i, k) # fs) = dfs_loop fuel nbrs col path ?st"
        using skip by (simp add: Let_def)
      show "blackened col col" by fact
      show "?loop col path ?st" if "search_measure nbrs col ?st \<le> fuel"
        by (rule "3.IH"(3)) (use skip_neighbour [OF ok skip] skip path that in simp_all)
    qed
  qed
qed

lemma enter_root:
  assumes "search_ok V nbrs col []" and "col r = Some White"
  shows "search_ok V nbrs (col(r \<mapsto> Grey)) [(r, 0)]"
proof -
  have none: "{i. col i = Some Grey} = {}" using assms(1) by (simp add: search_ok_def)
  have "{x. (col(r \<mapsto> Grey)) x = Some Black} = {x. col x = Some Black}" using assms(2) by auto
  moreover have "fst ` set [(r, 0)] = {x. (col(r \<mapsto> Grey)) x = Some Grey}" using none by auto
  moreover have "dom (col(r \<mapsto> Grey)) = V" using assms by (auto simp: search_ok_def)
  moreover have "frames_ok nbrs (col(r \<mapsto> Grey)) [(r, 0)]" by simp
  moreover have "distinct (map fst [(r, 0::nat)])" by simp
  ultimately show ?thesis using assms(1) unfolding search_ok_def by metis
qed

lemma measure_root:
  assumes "finite V" and "search_ok V nbrs col []" and "col r = Some White"
  shows "search_measure nbrs (col(r \<mapsto> Grey)) [(r, 0)] = search_measure nbrs col []"
proof -
  let ?W = "{j. col j = Some White}"
  have "?W \<subseteq> V" using assms(2) by (auto simp: search_ok_def)
  then have W: "finite ?W" using assms(1) finite_subset by blast
  have "{j. (col(r \<mapsto> Grey)) j = Some White} = ?W - {r}" by auto
  moreover have "(\<Sum>i\<in>?W. Suc (length (nbrs i))) =
      Suc (length (nbrs r)) + (\<Sum>i\<in>?W - {r}. Suc (length (nbrs i)))"
    using W assms(3) by (intro sum.remove) auto
  ultimately show ?thesis by (simp add: search_measure_def)
qed

lemma search_roots_result:
  assumes "finite V" and "search_ok V nbrs col []" and "search_measure nbrs col [] \<le> fuel"
    and "\<And>i. col i = Some White \<Longrightarrow> i \<in> set rs"
  shows "(\<exists>c. search_roots fuel nbrs col rs = Some (Some c) \<and> is_cycle nbrs c) \<or>
     (search_roots fuel nbrs col rs = Some None \<and>
      (\<exists>fin. distinct fin \<and> set fin = V \<and> ranked nbrs [] fin))"
  using assms(2-)
proof (induction rs arbitrary: col)
  case Nil
  then have "{i. col i = Some Black} = V"
  proof -
    have "col i = Some Black" if "i \<in> V" for i
    proof -
      from that Nil.prems(1) obtain c where "col i = Some c" by (auto simp: search_ok_def)
      moreover have "col i \<noteq> Some Grey" using Nil.prems(1) by (auto simp: search_ok_def)
      moreover have "col i \<noteq> Some White" using Nil.prems(3) by auto
      ultimately show ?thesis by (cases c) simp_all
    qed
    then show ?thesis using Nil.prems(1) by (auto simp: search_ok_def)
  qed
  then show ?case using Nil.prems(1) by (auto simp: search_ok_def)
next
  case (Cons r rs)
  show ?case
  proof (cases "col r = Some White")
    case False
    then show ?thesis using Cons.IH [of col] Cons.prems by auto
  next
    case True
    note m = measure_root [OF assms(1) Cons.prems(1) True]
    from dfs_loop_result [OF assms(1) enter_root [OF Cons.prems(1) True], of "[r]" fuel] m Cons.prems(2)
    consider (cycle) c where "dfs_loop fuel nbrs (col(r \<mapsto> Grey)) [r] [(r, 0)] = Some (Inl c)" "is_cycle nbrs c"
      | (clean) col' where "dfs_loop fuel nbrs (col(r \<mapsto> Grey)) [r] [(r, 0)] = Some (Inr col')"
          "search_ok V nbrs col' []" "blackened (col(r \<mapsto> Grey)) col'"
          "search_measure nbrs col' [] \<le> search_measure nbrs col []" by auto
    then show ?thesis
    proof cases
      case cycle
      then show ?thesis using True by simp
    next
      case clean
      have "i \<in> set rs" if "col' i = Some White" for i
        using clean(3) that Cons.prems(3) [of i] by (auto simp: blackened_def split: if_splits)
      then have "(\<exists>c. search_roots fuel nbrs col' rs = Some (Some c) \<and> is_cycle nbrs c) \<or>
          (search_roots fuel nbrs col' rs = Some None \<and>
           (\<exists>fin. distinct fin \<and> set fin = V \<and> ranked nbrs [] fin))"
        using clean Cons.prems(2) by (intro Cons.IH) auto
      then show ?thesis using True clean(1) by simp
    qed
  qed
qed

end
