(* ===== verification/Plan_Block.thy ===== *)
theory Plan_Block
  imports Plan_Props
begin

text \<open>
  The blocking closure terminates within its fuel and is the set of transitive dependents of the
  failed unit, each with the predecessor that blocked it; and what the order of the rows cannot
  change.
\<close>

section \<open>The closure\<close>

lemma block_each_result:
  "block_each failed c ds blocked queue = (blocked', queue') \<Longrightarrow>
   \<exists>new. blocked' = blocked @ map (\<lambda>d. (d, c)) new \<and> queue' = queue @ new \<and> distinct new \<and>
     set new = set ds - insert failed (fst ` set blocked)"
proof (induction failed c ds blocked queue rule: block_each.induct)
  case (2 failed cur d ds blocked queue)
  show ?case
  proof (cases "d = failed \<or> d \<in> fst ` set blocked")
    case True
    with 2 show ?thesis by (auto simp: insert_Diff_if)
  next
    case False
    with 2 obtain new where new: "blocked' = (blocked @ [(d, cur)]) @ map (\<lambda>d. (d, cur)) new"
      "queue' = (queue @ [d]) @ new" "distinct new"
      "set new = set ds - insert failed (fst ` set (blocked @ [(d, cur)]))" by auto
    then show ?thesis using False by (intro exI [of _ "d # new"]) auto
  qed
qed simp

definition block_ok :: "string \<Rightarrow> graph_edge list \<Rightarrow> (string \<times> string) list \<Rightarrow> string list \<Rightarrow> bool" where
  "block_ok failed edges blocked queue \<longleftrightarrow>
     distinct (map fst blocked) \<and> failed \<notin> fst ` set blocked \<and>
     set queue \<subseteq> insert failed (fst ` set blocked) \<and>
     (\<forall>(d, b)\<in>set blocked. (d, b) \<in> depends edges \<and> b \<in> insert failed (fst ` set blocked) \<and>
        (d, failed) \<in> (depends edges)\<^sup>+) \<and>
     (\<forall>c\<in>insert failed (fst ` set blocked) - set queue. \<forall>d. (d, c) \<in> depends edges \<longrightarrow>
        d \<in> insert failed (fst ` set blocked))"

lemma block_entry:
  assumes "block_ok failed edges blocked queue" and "(d, b) \<in> set blocked"
  shows "(d, b) \<in> depends edges" and "b \<in> insert failed (fst ` set blocked)"
    and "(d, failed) \<in> (depends edges)\<^sup>+"
  using bspec [OF conjunct1 [OF conjunct2 [OF conjunct2 [OF conjunct2 [OF assms(1) [unfolded block_ok_def]]]]] assms(2)]
  by simp_all

definition block_measure :: "graph_edge list \<Rightarrow> (string \<times> string) list \<Rightarrow> string list \<Rightarrow> nat" where
  "block_measure edges blocked queue = length queue + card (fst ` depends edges - fst ` set blocked)"

lemma block_step:
  assumes ok: "block_ok failed edges blocked (c # queue)"
    and step: "block_each failed c (dependents_of edges c) blocked queue = (blocked', queue')"
  shows "block_ok failed edges blocked' queue' \<and>
     block_measure edges blocked' queue' < block_measure edges blocked (c # queue)"
proof -
  from block_each_result [OF step] obtain new where new:
    "blocked' = blocked @ map (\<lambda>d. (d, c)) new" "queue' = queue @ new" "distinct new"
    "set new = {d. (d, c) \<in> depends edges} - insert failed (fst ` set blocked)"
    by (metis (no_types, lifting) Collect_cong dependents_iff Collect_mem_eq)
  have fst': "fst ` set blocked' = fst ` set blocked \<union> set new"
    by (simp add: new(1) image_Un image_image)
  have reach: "(d, failed) \<in> (depends edges)\<^sup>+" if "(d, c) \<in> depends edges" for d
  proof (cases "c = failed")
    case False
    then obtain b where "(c, b) \<in> set blocked" using ok by (auto simp: block_ok_def)
    then have "(c, failed) \<in> (depends edges)\<^sup>+" using ok by (auto simp: block_ok_def)
    with that show ?thesis by (meson trancl_into_trancl2)
  qed (use that in auto)
  have c: "c \<in> insert failed (fst ` set blocked)" using ok by (simp add: block_ok_def)
  have 1: "distinct (map fst blocked')" using ok new(3,4) by (auto simp: new(1) block_ok_def comp_def)
  have 2: "failed \<notin> fst ` set blocked'" using ok new(4) unfolding fst' by (simp add: block_ok_def)
  have 3: "set queue' \<subseteq> insert failed (fst ` set blocked')"
    using ok unfolding fst' new(2) by (auto simp: block_ok_def)
  have 4: "(d, b) \<in> depends edges \<and> b \<in> insert failed (fst ` set blocked') \<and> (d, failed) \<in> (depends edges)\<^sup>+"
    if db: "(d, b) \<in> set blocked'" for d b
  proof (cases "(d, b) \<in> set blocked")
    case True
    from block_entry [OF ok True] show ?thesis unfolding fst' by blast
  next
    case False
    with db new have "b = c" "(d, c) \<in> depends edges" by auto
    with reach c show ?thesis unfolding fst' by blast
  qed
  have 5: "d \<in> insert failed (fst ` set blocked')"
    if "x \<in> insert failed (fst ` set blocked') - set queue'" "(d, x) \<in> depends edges" for x d
  proof (cases "x = c")
    case True
    with that(2) new(4) show ?thesis unfolding fst' by blast
  next
    case False
    with that(1) have "x \<in> insert failed (fst ` set blocked) - set (c # queue)"
      unfolding fst' new(2) by auto
    with ok that(2) have "d \<in> insert failed (fst ` set blocked)" unfolding block_ok_def by blast
    then show ?thesis unfolding fst' by blast
  qed
  have "block_ok failed edges blocked' queue'"
    using 1 2 3 4 5 unfolding block_ok_def by blast
  moreover have "block_measure edges blocked' queue' < block_measure edges blocked (c # queue)"
  proof -
    let ?D = "fst ` depends edges" and ?B = "fst ` set blocked"
    have fin: "finite (?D - ?B)" by (simp add: finite_depends)
    have sub: "set new \<subseteq> ?D - ?B" unfolding new(4) by force
    have "?D - fst ` set blocked' = (?D - ?B) - set new" unfolding fst' by auto
    then have "card (?D - fst ` set blocked') = card (?D - ?B) - length new"
      using card_Diff_subset [OF _ sub] new(3) by (simp add: distinct_card)
    moreover have "length new \<le> card (?D - ?B)"
      using card_mono [OF fin sub] new(3) by (simp add: distinct_card)
    ultimately show ?thesis unfolding block_measure_def new(2) by simp
  qed
  ultimately show ?thesis by blast
qed

lemma block_loop_result:
  assumes "block_ok failed edges blocked queue" and "block_measure edges blocked queue \<le> fuel"
  shows "\<exists>res. block_loop fuel failed (dependents_of edges) blocked queue = Some res \<and>
     block_ok failed edges res []"
  using assms
proof (induction fuel failed "dependents_of edges" blocked queue rule: block_loop.induct)
  case (2 failed blocked c queue)
  then show ?case by (simp add: block_measure_def)
next
  case (3 fuel failed blocked c queue)
  obtain blocked' queue' where step:
    "block_each failed c (dependents_of edges c) blocked queue = (blocked', queue')"
    by (cases "block_each failed c (dependents_of edges c) blocked queue")
  from block_step [OF "3.prems"(1) step] "3.prems"(2) "3.hyps" [OF step [symmetric] refl]
  show ?case by (simp add: step)
qed simp

lemma block_closed:
  assumes ok: "block_ok failed edges res []" and "(d, failed) \<in> (depends edges)\<^sup>+"
  shows "d \<in> insert failed (fst ` set res)"
  using assms(2)
proof (induction rule: converse_trancl_induct)
  case (base y)
  with ok show ?case unfolding block_ok_def by auto
next
  case (step y z)
  with ok show ?case unfolding block_ok_def by auto
qed

lemma blocked_result:
  "\<exists>res. transitive_blocked failed edges = Some res \<and> distinct (map fst res) \<and>
     fst ` set res = {d. d \<noteq> failed \<and> (d, failed) \<in> (depends edges)\<^sup>+} \<and>
     (\<forall>(d, b)\<in>set res. (d, b) \<in> depends edges)"
proof -
  have start: "block_ok failed edges [] [failed]" by (simp add: block_ok_def)
  have "card (fst ` depends edges) \<le> length edges"
    using card_length [of "map ge_unit edges"] by (simp add: depends_def image_image)
  then have "block_measure edges [] [failed] \<le> Suc (length edges)" by (simp add: block_measure_def)
  from block_loop_result [OF start this] obtain res where
    res: "transitive_blocked failed edges = Some res" "block_ok failed edges res []"
    unfolding transitive_blocked_def by blast
  have "d \<noteq> failed \<and> (d, failed) \<in> (depends edges)\<^sup>+" if "d \<in> fst ` set res" for d
  proof -
    from that obtain b where "(d, b) \<in> set res" by auto
    moreover have "failed \<notin> fst ` set res" using res(2) by (simp add: block_ok_def)
    ultimately show ?thesis using block_entry(3) [OF res(2)] that by metis
  qed
  then have "fst ` set res \<subseteq> {d. d \<noteq> failed \<and> (d, failed) \<in> (depends edges)\<^sup>+}" by blast
  moreover have "{d. d \<noteq> failed \<and> (d, failed) \<in> (depends edges)\<^sup>+} \<subseteq> fst ` set res"
    using block_closed [OF res(2)] by auto
  ultimately have "fst ` set res = {d. d \<noteq> failed \<and> (d, failed) \<in> (depends edges)\<^sup>+}" by blast
  moreover have "\<forall>(d, b)\<in>set res. (d, b) \<in> depends edges"
    using block_entry(1) [OF res(2)] by (intro ballI) (simp add: split_paired_all)
  moreover have "distinct (map fst res)" using res(2) by (simp add: block_ok_def)
  ultimately show ?thesis using res(1) by blast
qed

section \<open>Rows in any order\<close>

lemma sort_mset_eq: "mset xs = mset ys \<Longrightarrow> sort xs = sort (ys :: 'b :: linorder list)"
  by (metis mset_sort properties_for_sort sorted_sort)

lemma predecessors_order: "mset edges = mset edges' \<Longrightarrow> predecessors_of edges = predecessors_of edges'"
  unfolding predecessors_of_def by (intro ext sort_mset_eq) (simp add: mset_filter)

lemma dependents_order: "mset edges = mset edges' \<Longrightarrow> dependents_of edges = dependents_of edges'"
  unfolding dependents_of_def by (intro ext sort_mset_eq) (simp add: mset_filter)

lemma validate_order:
  assumes "mset units = mset units'" and "mset edges = mset edges'"
  shows "validate_execution_graph units edges = Some (Inr ()) \<longleftrightarrow>
     validate_execution_graph units' edges' = Some (Inr ())"
proof -
  have "distinct (map gu_id units) = distinct (map gu_id units')"
    using assms(1) by (metis mset_eq_imp_distinct_iff mset_map)
  moreover have "distinct (map edge_key edges) = distinct (map edge_key edges')"
    using assms(2) by (metis mset_eq_imp_distinct_iff mset_map)
  moreover have "set units = set units'" "set edges = set edges'"
    using assms by (metis set_mset_mset)+
  ultimately show ?thesis
    by (simp add: validate_ok_iff well_formed_graph_def edges_within_def depends_def)
qed

end
