(* ===== verification/Plan_Deadline.thy ===== *)
theory Plan_Deadline
  imports Plan_Block
begin

text \<open>
  The deadline of an execution plan, \<^verbatim>\<open>apps/api/src/services/planning/plan-deadline.ts\<close>.
  Numbers are the integers of the source's safe range; a result outside it is an error exactly
  where the source checks \<^verbatim>\<open>Number.isSafeInteger\<close> (rounding is monotone and the bound is a
  power of two, so a rounded result is safe iff the exact one is).  A \<^verbatim>\<open>Date\<close> is its
  milliseconds, \<open>None\<close> when it is invalid.
\<close>

section \<open>Types\<close>

record deadline_constants =
  dc_legacy :: millis
  dc_queue_wait :: millis
  dc_finalization :: millis
  dc_ceiling :: millis

definition default_deadline_constants :: deadline_constants where
  "default_deadline_constants =
     \<lparr> dc_legacy = 900000, dc_queue_wait = 60000, dc_finalization = 300000, dc_ceiling = 21600000 \<rparr>"

record deadline_unit = graph_unit +
  du_timeout :: millis
  du_hard_stop :: millis
  du_attempts :: int

record grant_ref =
  gr_id :: string
  gr_expires :: "millis option"

record deadline_breakdown =
  db_passive :: millis
  db_critical :: millis
  db_finalization :: millis
  db_ceiling :: millis
  db_grant_cap :: "millis option"

datatype deadline_refusal = Plan_Deadline_Exceeds_Ceiling | Grant_Expires_Before_Deadline

datatype plan_deadline_result =
    Deadline millis deadline_breakdown
  | Refused deadline_refusal

datatype deadline_error =
    Not_Positive_Integer string
  | Unit_Budget_Overflows string
  | Critical_Path_Overflows
  | Deadline_Overflows
  | Now_Invalid
  | Grant_Invalid string
  | Unknown_Unit string
  | Resolved_Without_Deadline
  | Graph_Error graph_error

section \<open>Budgets\<close>

definition max_safe_integer :: int where
  "max_safe_integer = 2 ^ 53 - 1"

definition is_safe_integer :: "int \<Rightarrow> bool" where
  "is_safe_integer n \<longleftrightarrow> - max_safe_integer \<le> n \<and> n \<le> max_safe_integer"

definition assert_positive_integer :: "int \<Rightarrow> string \<Rightarrow> deadline_error + unit" where
  "assert_positive_integer n label =
     (if \<not> is_safe_integer n \<or> n \<le> 0 then Inl (Not_Positive_Integer label) else Inr ())"

fun assert_all :: "(int \<times> string) list \<Rightarrow> deadline_error + unit" where
  "assert_all [] = Inr ()"
| "assert_all ((n, l) # rest) =
     (case assert_positive_integer n l of Inl e \<Rightarrow> Inl e | Inr _ \<Rightarrow> assert_all rest)"

definition assert_constants :: "deadline_constants \<Rightarrow> deadline_error + unit" where
  "assert_constants c = assert_all
     [(dc_legacy c, ''legacyMaxDurationMs''), (dc_queue_wait c, ''queueWaitAllowanceMs''),
      (dc_finalization c, ''planFinalizationMarginMs''), (dc_ceiling c, ''planMaxDeadlineMs'')]"

definition unit_budget_ms :: "deadline_unit \<Rightarrow> deadline_constants \<Rightarrow> deadline_error + int" where
  "unit_budget_ms u c =
     (case assert_all [(du_timeout u, ''timeoutPolicyMs''), (du_hard_stop u, ''hardStopMarginMs''),
                       (du_attempts u, ''maxAttempts'')] of
        Inl e \<Rightarrow> Inl e
      | Inr _ \<Rightarrow>
          let budget = du_attempts u * (du_timeout u + du_hard_stop u + dc_queue_wait c)
          in if \<not> is_safe_integer budget then Inl (Unit_Budget_Overflows (gu_id u)) else Inr budget)"

definition dispatch_threshold_ms :: "deadline_unit \<Rightarrow> millis" where
  "dispatch_threshold_ms u = du_timeout u + du_hard_stop u"

section \<open>The critical path\<close>

definition heaviest_incoming :: "(string \<Rightarrow> int option) \<Rightarrow> string list \<Rightarrow> int" where
  "heaviest_incoming longest ps =
     foldl (\<lambda>incoming p. case longest p of
              Some through \<Rightarrow> if incoming < through then through else incoming
            | None \<Rightarrow> incoming) 0 ps"

fun critical_walk ::
  "(string \<Rightarrow> deadline_unit option) \<Rightarrow> (string \<Rightarrow> string list) \<Rightarrow> deadline_constants \<Rightarrow>
   (string \<Rightarrow> int option) \<Rightarrow> int \<Rightarrow> string list \<Rightarrow> deadline_error + int" where
  "critical_walk by_id preds c longest best [] = Inr best"
| "critical_walk by_id preds c longest best (i # ids) =
     (case by_id i of
        None \<Rightarrow> Inl (Unknown_Unit i)
      | Some u \<Rightarrow>
          if is_passive_class (gu_class u) then critical_walk by_id preds c longest best ids
          else case unit_budget_ms u c of
              Inl e \<Rightarrow> Inl e
            | Inr b \<Rightarrow>
                let total = heaviest_incoming longest (preds i) + b
                in if \<not> is_safe_integer total then Inl Critical_Path_Overflows
                   else critical_walk by_id preds c (longest(i \<mapsto> total))
                          (if best < total then total else best) ids)"

definition units_by_id :: "deadline_unit list \<Rightarrow> string \<Rightarrow> deadline_unit option" where
  "units_by_id units = js_map_of (map (\<lambda>u. (gu_id u, u)) units)"

definition critical_path_ms ::
  "deadline_unit list \<Rightarrow> graph_edge list \<Rightarrow> deadline_constants \<Rightarrow> (deadline_error + int) option" where
  "critical_path_ms units edges c =
     (case topological_order units edges of
        None \<Rightarrow> None
      | Some (Inl e) \<Rightarrow> Some (Inl (Graph_Error e))
      | Some (Inr ord) \<Rightarrow>
          Some (critical_walk (units_by_id units) (predecessors_of edges) c (\<lambda>_. None) 0 ord))"

section \<open>The deadline\<close>

fun check_grants ::
  "millis \<Rightarrow> millis \<Rightarrow> millis option \<Rightarrow> grant_ref list \<Rightarrow>
   deadline_error + (deadline_refusal + millis option)" where
  "check_grants now d cap [] = Inr (Inr cap)"
| "check_grants now d cap (g # gs) =
     (case gr_expires g of
        None \<Rightarrow> Inl (Grant_Invalid (gr_id g))
      | Some t \<Rightarrow>
          let remaining = t - now
          in if remaining < d then Inr (Inl Grant_Expires_Before_Deadline)
             else check_grants now d
                    (case cap of None \<Rightarrow> Some remaining
                     | Some x \<Rightarrow> if remaining < x then Some remaining else cap) gs)"

definition deadline_numbers ::
  "deadline_unit list \<Rightarrow> graph_edge list \<Rightarrow> deadline_constants \<Rightarrow>
   (deadline_error + int \<times> deadline_breakdown) option" where
  "deadline_numbers units edges c =
     (if \<not> (\<exists>u\<in>set units. \<not> is_passive_class (gu_class u)) then
        Some (Inr (dc_legacy c,
          \<lparr> db_passive = dc_legacy c, db_critical = 0, db_finalization = 0, db_ceiling = dc_ceiling c,
            db_grant_cap = None \<rparr>))
      else
        let passive = (if \<exists>u\<in>set units. is_passive_class (gu_class u) then dc_legacy c else 0)
        in case critical_path_ms units edges c of
             None \<Rightarrow> None
           | Some (Inl e) \<Rightarrow> Some (Inl e)
           | Some (Inr critical) \<Rightarrow>
               let d = passive + critical + dc_finalization c
               in Some (if \<not> is_safe_integer d then Inl Deadline_Overflows
                  else Inr (d, \<lparr> db_passive = passive, db_critical = critical,
                       db_finalization = dc_finalization c, db_ceiling = dc_ceiling c,
                       db_grant_cap = None \<rparr>)))"

definition compute_plan_deadline ::
  "deadline_unit list \<Rightarrow> graph_edge list \<Rightarrow> grant_ref list \<Rightarrow> millis option \<Rightarrow> deadline_constants \<Rightarrow>
   (deadline_error + plan_deadline_result) option" where
  "compute_plan_deadline units edges grants now c =
     (case assert_constants c of
        Inl e \<Rightarrow> Some (Inl e)
      | Inr _ \<Rightarrow>
          (case now of
             None \<Rightarrow> Some (Inl Now_Invalid)
           | Some t \<Rightarrow>
               (case topological_order units edges of
                  None \<Rightarrow> None
                | Some (Inl e) \<Rightarrow> Some (Inl (Graph_Error e))
                | Some (Inr _) \<Rightarrow>
                    (case deadline_numbers units edges c of
                       None \<Rightarrow> None
                     | Some (Inl e) \<Rightarrow> Some (Inl e)
                     | Some (Inr (d, b)) \<Rightarrow>
                         if dc_ceiling c < d then
                           Some (Inr (Refused Plan_Deadline_Exceeds_Ceiling))
                         else Some (case check_grants t d None grants of
                             Inl e \<Rightarrow> Inl e
                           | Inr (Inl r) \<Rightarrow> Inr (Refused r)
                           | Inr (Inr cap) \<Rightarrow> Inr (Deadline d (b\<lparr> db_grant_cap := cap \<rparr>)))))))"

section \<open>The deadline at dispatch\<close>

datatype plan_kind = Initial | Reverify
datatype plan_state = Resolved_Plan | Refused_Plan

record deadline_plan =
  dp_kind :: plan_kind
  dp_state :: plan_state
  dp_deadline :: "millis option"
  dp_resolved_at :: millis

definition effective_deadline_at ::
  "millis option \<Rightarrow> deadline_plan option \<Rightarrow> millis \<Rightarrow> deadline_error + millis option" where
  "effective_deadline_at started plan legacy =
     (case assert_positive_integer legacy ''legacyMaxDurationMs'' of
        Inl e \<Rightarrow> Inl e
      | Inr _ \<Rightarrow>
          (case plan of
             None \<Rightarrow> Inr (map_option (\<lambda>t. t + legacy) started)
           | Some p \<Rightarrow>
               if dp_state p \<noteq> Resolved_Plan then Inr (map_option (\<lambda>t. t + legacy) started)
               else (case dp_deadline p of
                   None \<Rightarrow> Inl Resolved_Without_Deadline
                 | Some d \<Rightarrow>
                     (case assert_positive_integer d ''plan.deadlineMs'' of
                        Inl e \<Rightarrow> Inl e
                      | Inr _ \<Rightarrow>
                          if dp_kind p = Reverify then Inr (Some (dp_resolved_at p + d))
                          else Inr (map_option (\<lambda>t. t + d) started)))))"

datatype scan_terminal_state = T_Timed_Out | T_Cancelled | T_Failed
datatype dispatch_refusal =
    Scan_Deadline_Expired | Scan_Was_Cancelled | Scan_Has_Failed | Scan_Deadline_Insufficient
datatype dispatch_decision = Proceed | Defer_Not_Started | Refuse dispatch_refusal

definition dispatch_deadline_decision ::
  "millis \<Rightarrow> millis option \<Rightarrow> scan_terminal_state option \<Rightarrow> deadline_unit \<Rightarrow> dispatch_decision" where
  "dispatch_deadline_decision now deadline ended u =
     (if ended = Some T_Cancelled then Refuse Scan_Was_Cancelled
      else if ended = Some T_Failed then Refuse Scan_Has_Failed
      else if ended = Some T_Timed_Out then Refuse Scan_Deadline_Expired
      else case deadline of
          None \<Rightarrow> Defer_Not_Started
        | Some t \<Rightarrow>
            let remaining = t - now
            in if remaining \<le> 0 then Refuse Scan_Deadline_Expired
               else if remaining < dispatch_threshold_ms u then Refuse Scan_Deadline_Insufficient
               else Proceed)"

end
