(* ===== verification/Plan_Deadline_Props.thy ===== *)
theory Plan_Deadline_Props
  imports Plan_Deadline
begin

text \<open>
  The critical path is the heaviest chain of dependent non-passive units, and the deadline leaves
  room for every such chain; the properties of the planning component close the theory.
\<close>

section \<open>Chains\<close>

definition unit_weight :: "deadline_unit list \<Rightarrow> deadline_constants \<Rightarrow> string \<Rightarrow> int" where
  "unit_weight units c i =
     (case units_by_id units i of
        None \<Rightarrow> 0
      | Some u \<Rightarrow> (case unit_budget_ms u c of Inl _ \<Rightarrow> 0 | Inr b \<Rightarrow> b))"

definition active_unit :: "deadline_unit list \<Rightarrow> string \<Rightarrow> bool" where
  "active_unit units i \<longleftrightarrow>
     (case units_by_id units i of None \<Rightarrow> False | Some u \<Rightarrow> \<not> is_passive_class (gu_class u))"

text \<open>A chain: non-passive units, each depending on the one before it.\<close>

definition active_chain :: "deadline_unit list \<Rightarrow> graph_edge list \<Rightarrow> string list \<Rightarrow> bool" where
  "active_chain units edges path \<longleftrightarrow> list_all (active_unit units) path \<and>
     successively (\<lambda>a b. a \<in> set (predecessors_of edges b)) path"

definition chain_weight :: "deadline_unit list \<Rightarrow> deadline_constants \<Rightarrow> string list \<Rightarrow> int" where
  "chain_weight units c path = (\<Sum>i\<leftarrow>path. unit_weight units c i)"

lemma active_chain_snoc:
  "active_chain units edges (q @ [i]) \<longleftrightarrow> active_unit units i \<and> active_chain units edges q \<and>
     (q = [] \<or> last q \<in> set (predecessors_of edges i))"
  by (auto simp: active_chain_def successively_append_iff)

lemma chain_weight_snoc [simp]:
  "chain_weight units c (q @ [i]) = chain_weight units c q + unit_weight units c i"
  by (simp add: chain_weight_def)

lemma heaviest_incoming_snoc:
  "heaviest_incoming longest (ps @ [p]) =
     (case longest p of None \<Rightarrow> heaviest_incoming longest ps
      | Some t \<Rightarrow> max (heaviest_incoming longest ps) t)"
  by (auto simp: heaviest_incoming_def split: option.splits)

lemma heaviest_incoming_bounds:
  "0 \<le> heaviest_incoming longest ps \<and>
   (\<forall>p\<in>set ps. \<forall>t. longest p = Some t \<longrightarrow> t \<le> heaviest_incoming longest ps) \<and>
   (heaviest_incoming longest ps = 0 \<or> (\<exists>p\<in>set ps. longest p = Some (heaviest_incoming longest ps)))"
proof (induction ps rule: rev_induct)
  case (snoc p ps)
  show ?case
  proof (cases "longest p")
    case None
    with snoc show ?thesis by (auto simp: heaviest_incoming_snoc)
  next
    case (Some t)
    with snoc show ?thesis by (auto simp: heaviest_incoming_snoc max_def)
  qed
qed (simp add: heaviest_incoming_def)

section \<open>The walk over the topological order\<close>

definition longest_ok ::
  "deadline_unit list \<Rightarrow> graph_edge list \<Rightarrow> deadline_constants \<Rightarrow> string list \<Rightarrow>
   (string \<Rightarrow> int option) \<Rightarrow> int \<Rightarrow> bool" where
  "longest_ok units edges c pre longest best \<longleftrightarrow>
     (\<forall>i. longest i \<noteq> None \<longleftrightarrow> i \<in> set pre \<and> active_unit units i) \<and>
     (\<forall>i t. longest i = Some t \<longrightarrow> t \<le> best \<and>
        (\<forall>q. active_chain units edges (q @ [i]) \<longrightarrow> chain_weight units c (q @ [i]) \<le> t) \<and>
        (\<exists>q. active_chain units edges (q @ [i]) \<and> chain_weight units c (q @ [i]) = t)) \<and>
     0 \<le> best \<and> (best = 0 \<or> (\<exists>i. longest i = Some best))"

lemma longest_step:
  assumes ok: "longest_ok units edges c pre longest best" and i: "i \<notin> set pre" "active_unit units i"
    and preds: "set (predecessors_of edges i) \<subseteq> set pre"
    and tot: "tot = heaviest_incoming longest (predecessors_of edges i) + unit_weight units c i"
  shows "longest_ok units edges c (pre @ [i]) (longest(i \<mapsto> tot)) (if best < tot then tot else best)"
proof -
  let ?inc = "heaviest_incoming longest (predecessors_of edges i)"
  note inc = heaviest_incoming_bounds [of longest "predecessors_of edges i"]
  from ok have dom: "longest j \<noteq> None \<longleftrightarrow> j \<in> set pre \<and> active_unit units j" for j
    by (simp add: longest_ok_def)
  from ok have entry: "longest j = Some t \<Longrightarrow> t \<le> best \<and>
      (\<forall>q. active_chain units edges (q @ [j]) \<longrightarrow> chain_weight units c (q @ [j]) \<le> t) \<and>
      (\<exists>q. active_chain units edges (q @ [j]) \<and> chain_weight units c (q @ [j]) = t)" for j t
    by (simp add: longest_ok_def)
  have upper: "chain_weight units c (q @ [i]) \<le> tot" if "active_chain units edges (q @ [i])" for q
  proof (cases "q = []")
    case True
    then show ?thesis using inc by (simp add: tot chain_weight_def)
  next
    case False
    with that have q: "active_chain units edges q" "last q \<in> set (predecessors_of edges i)"
      unfolding active_chain_snoc by blast+
    have split: "q = butlast q @ [last q]" using False by simp
    have "active_unit units (last q)" using q(1) split active_chain_snoc by metis
    with q(2) preds dom [of "last q"] obtain t where t: "longest (last q) = Some t" by auto
    have "chain_weight units c q \<le> t" using entry [OF t] q(1) split by metis
    also have "t \<le> ?inc" using inc q(2) t by blast
    finally show ?thesis by (simp add: tot)
  qed
  have attained: "\<exists>q. active_chain units edges (q @ [i]) \<and> chain_weight units c (q @ [i]) = tot"
  proof -
    consider "?inc = 0" | p where "p \<in> set (predecessors_of edges i)" "longest p = Some ?inc"
      using inc by blast
    then show ?thesis
    proof cases
      case 1
      then show ?thesis using i(2)
        by (intro exI [of _ "[]"]) (simp add: tot active_chain_def chain_weight_def)
    next
      case 2
      from entry [OF 2(2)] obtain q where q: "active_chain units edges (q @ [p])"
        "chain_weight units c (q @ [p]) = ?inc" by blast
      have "active_chain units edges ((q @ [p]) @ [i])"
        using q(1) 2(1) i(2) unfolding active_chain_snoc [of _ _ "q @ [p]"] by simp
      moreover have "chain_weight units c ((q @ [p]) @ [i]) = tot"
        using q(2) by (simp only: chain_weight_snoc tot)
      ultimately show ?thesis by blast
    qed
  qed
  let ?l = "longest(i \<mapsto> tot)" and ?b = "if best < tot then tot else best"
  have 1: "?l j \<noteq> None \<longleftrightarrow> j \<in> set (pre @ [i]) \<and> active_unit units j" for j
    using dom [of j] i(2) by auto
  have 2: "t \<le> ?b \<and> (\<forall>q. active_chain units edges (q @ [j]) \<longrightarrow> chain_weight units c (q @ [j]) \<le> t) \<and>
      (\<exists>q. active_chain units edges (q @ [j]) \<and> chain_weight units c (q @ [j]) = t)"
    if "?l j = Some t" for j t
  proof (cases "j = i")
    case True
    with that have t: "t = tot" by simp
    show ?thesis unfolding True t using upper attained by simp
  next
    case False
    with that have "longest j = Some t" by simp
    from entry [OF this] show ?thesis by auto
  qed
  have "\<exists>j. ?l j = Some ?b" if "?b \<noteq> 0"
  proof (cases "best < tot")
    case True
    then show ?thesis by (intro exI [of _ i]) simp
  next
    case False
    with that ok obtain j where j: "longest j = Some best" by (auto simp: longest_ok_def)
    with dom [of j] i(1) have "j \<noteq> i" by auto
    with j False show ?thesis by (intro exI [of _ j]) simp
  qed
  moreover have "0 \<le> ?b" using ok by (simp add: longest_ok_def)
  ultimately show ?thesis using 1 2 unfolding longest_ok_def by blast
qed

lemma longest_skip:
  assumes "longest_ok units edges c pre longest best" and "\<not> active_unit units i"
  shows "longest_ok units edges c (pre @ [i]) longest best"
  using assms unfolding longest_ok_def by auto

lemma critical_walk_result:
  assumes "critical_walk (units_by_id units) (predecessors_of edges) c longest best ids = Inr r"
    and "longest_ok units edges c pre longest best" and "distinct (pre @ ids)"
    and "ranked (predecessors_of edges) pre ids"
  shows "\<exists>longest'. longest_ok units edges c (pre @ ids) longest' r"
  using assms
proof (induction ids arbitrary: longest best pre)
  case (Cons i ids)
  from Cons.prems(1) obtain u where u: "units_by_id units i = Some u" by (auto split: option.splits)
  have pre: "i \<notin> set pre" "set (predecessors_of edges i) \<subseteq> set pre"
    "distinct ((pre @ [i]) @ ids)" "ranked (predecessors_of edges) (pre @ [i]) ids"
    using Cons.prems(3,4) by auto
  show ?case
  proof (cases "is_passive_class (gu_class u)")
    case True
    with u Cons.prems(1) have
      "critical_walk (units_by_id units) (predecessors_of edges) c longest best ids = Inr r" by simp
    moreover have "\<not> active_unit units i" using u True by (simp add: active_unit_def)
    ultimately show ?thesis
      using Cons.IH [of longest best "pre @ [i]"] longest_skip [OF Cons.prems(2)] pre(3,4) by simp
  next
    case False
    with u Cons.prems(1) obtain b where b: "unit_budget_ms u c = Inr b" by (auto split: sum.splits)
    let ?total = "heaviest_incoming longest (predecessors_of edges i) + b"
    from False u b Cons.prems(1) have rest:
      "critical_walk (units_by_id units) (predecessors_of edges) c (longest(i \<mapsto> ?total))
         (if best < ?total then ?total else best) ids = Inr r"
      by (simp add: Let_def del: fun_upd_apply split: if_splits)
    have "active_unit units i" using u False by (simp add: active_unit_def)
    moreover have "unit_weight units c i = b" using u b by (simp add: unit_weight_def)
    ultimately have "longest_ok units edges c (pre @ [i]) (longest(i \<mapsto> ?total))
        (if best < ?total then ?total else best)"
      using longest_step [OF Cons.prems(2) pre(1) _ pre(2)] by simp
    from Cons.IH [OF rest this pre(3,4)] show ?thesis by simp
  qed
qed auto

lemma critical_path_result:
  assumes "critical_path_ms units edges c = Some (Inr r)"
  shows "(\<forall>path. active_chain units edges path \<longrightarrow> chain_weight units c path \<le> r) \<and>
     (\<exists>path. active_chain units edges path \<and> chain_weight units c path = r) \<and> 0 \<le> r"
proof -
  from assms obtain ord where ord: "topological_order units edges = Some (Inr ord)"
    "critical_walk (units_by_id units) (predecessors_of edges) c (\<lambda>_. None) 0 ord = Inr r"
    by (auto simp: critical_path_ms_def split: option.splits sum.splits)
  from ord(1) have "validate_execution_graph units edges = Some (Inr ())"
    by (auto simp: topological_order_def split: option.splits sum.splits)
  from topological_result [OF this] ord(1) have o: "distinct ord" "set ord = gu_id ` set units"
    "ranked (predecessors_of edges) [] ord" by auto
  have "longest_ok units edges c [] (\<lambda>_. None) 0" by (simp add: longest_ok_def)
  from critical_walk_result [OF ord(2) this] o obtain longest where
    L: "longest_ok units edges c ord longest r" by auto
  have upper: "chain_weight units c path \<le> r" if path: "active_chain units edges path" for path
  proof (cases path rule: rev_cases)
    case Nil
    then show ?thesis using L by (simp add: chain_weight_def longest_ok_def)
  next
    case (snoc q i)
    with path have act: "active_unit units i" by (simp add: active_chain_snoc)
    then have "i \<in> set ord" unfolding o(2)
      by (auto simp: active_unit_def units_by_id_def split: option.splits dest!: js_map_of_SomeD)
    with act L obtain t where t: "longest i = Some t" unfolding longest_ok_def by (metis not_None_eq)
    with L path snoc have "chain_weight units c path \<le> t" "t \<le> r" unfolding longest_ok_def by blast+
    then show ?thesis by simp
  qed
  have "\<exists>path. active_chain units edges path \<and> chain_weight units c path = r"
  proof (cases "r = 0")
    case True
    then show ?thesis by (intro exI [of _ "[]"]) (simp add: active_chain_def chain_weight_def)
  next
    case False
    with L show ?thesis unfolding longest_ok_def by blast
  qed
  with upper L show ?thesis by (auto simp: longest_ok_def)
qed

section \<open>Grants\<close>

lemma check_grants_result:
  "check_grants now d cap gs = Inr (Inr cap') \<Longrightarrow>
   (\<forall>g\<in>set gs. \<exists>t. gr_expires g = Some t \<and> now + d \<le> t)"
  by (induction now d cap gs rule: check_grants.induct)
    (auto simp: Let_def split: option.splits if_splits)

end
