(* ===== verification/Plan_Theorems.thy ===== *)
theory Plan_Theorems
  imports Plan_Deadline_Props
begin

text \<open>
  The properties of execution planning: what validation accepts, the order units run in, what a
  failure blocks, and the deadline.
\<close>

section \<open>The graph\<close>

text \<open>C18: Validation of a plan always ends within its iteration bound.  With ids free of the separator
  character it accepts exactly the graphs with distinct non-empty ids, edges between these ids and
  without repetition, and an acyclic dependency relation; when it reports a cycle, that list is a
  cycle of the graph, each unit depending on the next and the first repeated at the end.\<close>

theorem validation_exact:
  assumes "list_all (\<lambda>u. CHR 0x00 \<notin> set (gu_id u)) units"
  shows "(validate_execution_graph units edges = Some (Inr ()) \<longleftrightarrow>
       distinct (map gu_id units) \<and> list_all (\<lambda>u. gu_id u \<noteq> []) units \<and> edges_within units edges \<and>
       distinct edges \<and> acyclic (depends edges)) \<and>
     (case validate_execution_graph units edges of
        None \<Rightarrow> False
      | Some (Inl (Cycle c)) \<Rightarrow> 2 \<le> length c \<and> hd c = last c \<and> successively (\<lambda>a b. (a, b) \<in> depends edges) c
      | _ \<Rightarrow> True)"
proof (intro conjI)
  have irrefl: "\<forall>e\<in>set edges. ge_unit e \<noteq> ge_dep e" if "acyclic (depends edges)"
    using that by (auto simp: acyclic_def depends_def)
  have keys: "distinct (map edge_key edges) \<longleftrightarrow> distinct edges" if "edges_within units edges"
    using distinct_keys [OF that] assms by (simp add: list_all_iff)
  show "validate_execution_graph units edges = Some (Inr ()) \<longleftrightarrow>
       distinct (map gu_id units) \<and> list_all (\<lambda>u. gu_id u \<noteq> []) units \<and> edges_within units edges \<and>
       distinct edges \<and> acyclic (depends edges)"
    using irrefl keys unfolding validate_ok_iff well_formed_graph_def list_all_iff by blast
  show "case validate_execution_graph units edges of
        None \<Rightarrow> False
      | Some (Inl (Cycle c)) \<Rightarrow> 2 \<le> length c \<and> hd c = last c \<and> successively (\<lambda>a b. (a, b) \<in> depends edges) c
      | _ \<Rightarrow> True"
    by (rule validate_cases [of units edges]) (auto simp: is_cycle_def split: graph_error.splits)
qed

text \<open>Three units, \<open>c\<close> after \<open>a\<close> and \<open>b\<close>.\<close>

definition sample_units :: "deadline_unit list" where
  "sample_units = map (\<lambda>(i, cls). \<lparr> gu_id = i, gu_class = cls, du_timeout = 1000, du_hard_stop = 60000,
     du_attempts = 1 \<rparr>) [(''b'', BROWSER), (''c'', CRAWLER), (''a'', PASSIVE_HTTP)]"

definition sample_edges :: "graph_edge list" where
  "sample_edges = [\<lparr> ge_unit = ''c'', ge_dep = ''b'' \<rparr>, \<lparr> ge_unit = ''c'', ge_dep = ''a'' \<rparr>]"

lemma sample_valid: "validate_execution_graph sample_units sample_edges = Some (Inr ())"
  by code_simp

theorem validation_exact_witness:
  "acyclic (depends sample_edges)"
  using validation_exact [of sample_units sample_edges] sample_valid
  by (simp add: list_all_iff sample_units_def)

text \<open>C37: A validated plan has an execution order: the loop ends within its bound and lists every unit once,
  each after everything it depends on.\<close>

theorem execution_order:
  assumes "validate_execution_graph units edges = Some (Inr ())"
  shows "case topological_order units edges of
       Some (Inr ord) \<Rightarrow> distinct ord \<and> set ord = gu_id ` set units \<and> ranked (predecessors_of edges) [] ord
     | _ \<Rightarrow> False"
proof -
  obtain ord where "topological_order units edges = Some (Inr ord)" "distinct ord"
    "set ord = gu_id ` set units" "ranked (predecessors_of edges) [] ord"
    by (rule topological_result [OF assms])
  then show ?thesis by simp
qed

theorem execution_order_witness:
  "case topological_order sample_units sample_edges of
     Some (Inr ord) \<Rightarrow> ranked (predecessors_of sample_edges) [] ord | _ \<Rightarrow> False"
  using execution_order [OF sample_valid] by (auto split: option.splits sum.splits)

text \<open>Every replica and every retry computes the same execution order: it does not depend on the order in
  which the database returned the units and the edges.\<close>

lemma execution_order_deterministic:
  assumes "validate_execution_graph units edges = Some (Inr ())"
    and "mset units = mset units'" and "mset edges = mset edges'"
  shows "topological_order units edges = topological_order units' edges'"
proof -
  note p = predecessors_order [OF assms(3)] and d = dependents_order [OF assms(3)]
  have v: "validate_execution_graph units' edges' = Some (Inr ())"
    using validate_order [OF assms(2,3)] assms(1) by simp
  have "length units = length units'" using assms(2) by (metis size_mset)
  moreover have "sort (map gu_id (filter P units)) = sort (map gu_id (filter P units'))" for P
    using assms(2) by (intro sort_mset_eq) (simp add: mset_filter)
  ultimately show ?thesis
    using assms(1) v by (simp add: topological_order_def p d Let_def)
qed

text \<open>The set of units a failure blocks is exactly the set of its transitive dependents; each is listed
  once, with a unit it directly depends on as the one that blocks it.  The loop ends within its bound,
  also on a cyclic graph.\<close>

lemma failure_blocks_dependents:
  "case transitive_blocked failed edges of
     None \<Rightarrow> False
   | Some res \<Rightarrow> distinct (map fst res) \<and> list_all (\<lambda>(d, b). (d, b) \<in> depends edges) res \<and>
       fst ` set res = {d. d \<noteq> failed \<and> (d, failed) \<in> (depends edges)\<^sup>+}"
  using blocked_result [of failed edges] by (auto simp: list_all_iff)

section \<open>The deadline\<close>

text \<open>C21: A plan that is granted a deadline has room for its work: the deadline covers, for every chain of
  non-passive units each depending on the one before, the sum of their budgets plus the finalization
  margin, plus the single passive window when the plan has a passive unit.  It is at most the
  platform's ceiling, and every grant the plan uses is still valid when it ends.\<close>

theorem deadline_has_room:
  assumes "compute_plan_deadline units edges grants (Some now) c = Some (Inr (Deadline d b))"
    and "active_chain units edges path" and "path \<noteq> []"
  shows "chain_weight units c path + dc_finalization c +
       (if list_ex (\<lambda>u. is_passive_class (gu_class u)) units then dc_legacy c else 0) \<le> d \<and>
     d \<le> dc_ceiling c \<and>
     list_all (\<lambda>g. case gr_expires g of None \<Rightarrow> False | Some t \<Rightarrow> now + d \<le> t) grants"
proof -
  from assms(1) obtain b0 cap where num: "deadline_numbers units edges c = Some (Inr (d, b0))"
    and ceil: "d \<le> dc_ceiling c" and grants: "check_grants now d None grants = Inr (Inr cap)"
    by (auto simp: compute_plan_deadline_def split: sum.splits option.splits if_splits)
  have "active_unit units (hd path)" using assms(2,3) by (cases path) (simp_all add: active_chain_def)
  then have "\<exists>u\<in>set units. \<not> is_passive_class (gu_class u)"
    by (auto simp: active_unit_def units_by_id_def split: option.splits dest!: js_map_of_SomeD)
  with num obtain critical where crit: "critical_path_ms units edges c = Some (Inr critical)"
    and d: "d = (if \<exists>u\<in>set units. is_passive_class (gu_class u) then dc_legacy c else 0) + critical +
        dc_finalization c"
    by (auto simp: deadline_numbers_def Let_def split: option.splits sum.splits if_splits)
  have "chain_weight units c path \<le> critical" using critical_path_result [OF crit] assms(2) by blast
  moreover have "list_all (\<lambda>g. case gr_expires g of None \<Rightarrow> False | Some t \<Rightarrow> now + d \<le> t) grants"
    using check_grants_result [OF grants] by (auto simp: list_all_iff)
  ultimately show ?thesis using d ceil by (simp add: list_ex_iff)
qed

lemma sample_deadline:
  "(case compute_plan_deadline sample_units sample_edges [] (Some 0) default_deadline_constants of
      Some (Inr (Deadline d b)) \<Rightarrow> d = 1442000 | _ \<Rightarrow> False)"
  by code_simp

theorem deadline_has_room_witness:
  "chain_weight sample_units default_deadline_constants [''b'', ''c''] + 300000 + 900000 \<le> 1442000"
proof -
  obtain b where "compute_plan_deadline sample_units sample_edges [] (Some 0) default_deadline_constants =
      Some (Inr (Deadline 1442000 b))"
    using sample_deadline by (auto split: option.splits sum.splits plan_deadline_result.splits)
  moreover have "active_chain sample_units sample_edges [''b'', ''c'']" by code_simp
  ultimately show ?thesis
    using deadline_has_room [of sample_units sample_edges "[]" 0 default_deadline_constants 1442000 b "[''b'', ''c'']"]
    by (simp add: default_deadline_constants_def sample_units_def is_passive_class_def passive_classes_def)
qed

text \<open>A unit passes the deadline check at dispatch exactly when the scan has not ended, its deadline is
  known and strictly ahead, and the unit can run to its hard stop before it; with the initial plan's
  deadline the scan must have started.\<close>

lemma dispatch_fits:
  "(dispatch_deadline_decision now deadline ended u = Proceed \<longleftrightarrow>
     ended = None \<and> (case deadline of None \<Rightarrow> False
       | Some t \<Rightarrow> now < t \<and> now + du_timeout u + du_hard_stop u \<le> t)) \<and>
   (case effective_deadline_at started (Some p) legacy of
      Inr (Some t) \<Rightarrow> (if dp_state p = Resolved_Plan \<and> dp_kind p = Reverify then True else started \<noteq> None)
    | _ \<Rightarrow> True)"
proof
  show "dispatch_deadline_decision now deadline ended u = Proceed \<longleftrightarrow>
     ended = None \<and> (case deadline of None \<Rightarrow> False
       | Some t \<Rightarrow> now < t \<and> now + du_timeout u + du_hard_stop u \<le> t)"
    by (cases ended; cases deadline; cases "the ended")
      (auto simp: dispatch_deadline_decision_def dispatch_threshold_ms_def Let_def)
  show "case effective_deadline_at started (Some p) legacy of
      Inr (Some t) \<Rightarrow> (if dp_state p = Resolved_Plan \<and> dp_kind p = Reverify then True else started \<noteq> None)
    | _ \<Rightarrow> True"
    by (auto simp: effective_deadline_at_def split: sum.splits option.splits)
qed

end
