(* ===== verification/Text.thy ===== *)
theory Text
  imports Prelude "HOL-Library.Sublist"
begin

text \<open>
  JavaScript strings as the scope matcher uses them.  A string is the list of the bytes of its
  UTF-8 encoding; \<open>startsWith\<close> and \<open>endsWith\<close> are \<open>prefix\<close> and \<open>suffix\<close>.  \<open>split_on\<close> is
  \<^verbatim>\<open>split\<close> with a one-character separator, \<open>join_with\<close> is \<^verbatim>\<open>join\<close>, \<open>lower\<close> is \<^verbatim>\<open>toLowerCase\<close> on the
  ASCII letters, and \<open>decode_uri\<close> is \<^verbatim>\<open>decodeURIComponent\<close>: it decodes each escape once and rejects
  escapes that are malformed or not well-formed UTF-8.
\<close>

section \<open>Splitting and joining\<close>

fun split_on :: "'a \<Rightarrow> 'a list \<Rightarrow> 'a list list" where
  "split_on c [] = [[]]"
| "split_on c (x # xs) =
     (if x = c then [] # split_on c xs
      else (case split_on c xs of [] \<Rightarrow> [[x]] | s # ss \<Rightarrow> (x # s) # ss))"

fun join_with :: "'a \<Rightarrow> 'a list list \<Rightarrow> 'a list" where
  "join_with c [] = []"
| "join_with c [s] = s"
| "join_with c (s # ss) = s @ c # join_with c ss"

lemma split_on_not_Nil [simp]: "split_on c xs \<noteq> []"
  by (cases xs) (auto split: list.splits)

lemma split_on_separator_free: "s \<in> set (split_on c xs) \<Longrightarrow> c \<notin> set s"
proof (induction xs arbitrary: s)
  case Nil
  then show ?case by simp
next
  case (Cons x xs)
  show ?case
  proof (cases "split_on c xs")
    case Nil
    then show ?thesis by simp
  next
    case (Cons t ts)
    with Cons.IH have "c \<notin> set t" and "\<forall>s \<in> set ts. c \<notin> set s" by auto
    with Cons.prems Cons show ?thesis by (auto split: if_splits)
  qed
qed

lemma join_split_on: "join_with c (split_on c xs) = xs"
proof (induction xs)
  case Nil
  then show ?case by simp
next
  case (Cons x xs)
  show ?case
  proof (cases "split_on c xs")
    case Nil
    then show ?thesis by simp
  next
    case (Cons t ts)
    then show ?thesis using Cons.IH by (cases ts) auto
  qed
qed

lemma split_on_append_separator:
  "c \<notin> set s \<Longrightarrow> split_on c (s @ c # rest) = s # split_on c rest"
  by (induction s) auto

lemma split_on_append: "split_on c (xs @ c # ys) = split_on c xs @ split_on c ys"
proof (induction xs)
  case (Cons x xs)
  then show ?case by (cases "split_on c xs") auto
qed simp

lemma split_on_free: "c \<notin> set s \<Longrightarrow> split_on c s = [s]"
  by (induction s) auto

lemma split_join_with:
  "ss \<noteq> [] \<Longrightarrow> \<forall>s \<in> set ss. c \<notin> set s \<Longrightarrow> split_on c (join_with c ss) = ss"
  by (induction c ss rule: join_with.induct)
    (auto simp: split_on_append_separator split_on_free)

lemma join_with_append:
  "ss \<noteq> [] \<Longrightarrow> ts \<noteq> [] \<Longrightarrow> join_with c (ss @ ts) = join_with c ss @ c # join_with c ts"
proof (induction c ss rule: join_with.induct)
  case (2 c s)
  then show ?case by (cases ts) auto
qed auto

section \<open>Case\<close>

definition lower_char :: "char \<Rightarrow> char" where
  "lower_char c =
     (if CHR ''A'' \<le> c \<and> c \<le> CHR ''Z'' then char_of (of_char c + 32 :: nat) else c)"

definition lower :: "string \<Rightarrow> string" where
  "lower s = map lower_char s"

section \<open>Percent escapes\<close>

definition hex_value :: "char \<Rightarrow> nat option" where
  "hex_value c =
     (let n = of_char c :: nat in
      if CHR ''0'' \<le> c \<and> c \<le> CHR ''9'' then Some (n - 48)
      else if CHR ''a'' \<le> c \<and> c \<le> CHR ''f'' then Some (n - 87)
      else if CHR ''A'' \<le> c \<and> c \<le> CHR ''F'' then Some (n - 55)
      else None)"

fun escaped_byte :: "string \<Rightarrow> (nat \<times> string) option" where
  "escaped_byte (p # h # l # rest) =
     (if p = CHR ''%'' then
        (case (hex_value h, hex_value l) of
           (Some a, Some b) \<Rightarrow> Some (16 * a + b, rest)
         | _ \<Rightarrow> None)
      else None)"
| "escaped_byte _ = None"

text \<open>\<open>escaped_tail n\<close> reads \<open>n\<close> escaped continuation bytes.\<close>

fun escaped_tail :: "nat \<Rightarrow> string \<Rightarrow> (nat list \<times> string) option" where
  "escaped_tail 0 s = Some ([], s)"
| "escaped_tail (Suc n) s =
     (case escaped_byte s of
        None \<Rightarrow> None
      | Some (b, rest) \<Rightarrow>
          if 128 \<le> b \<and> b < 192 then
            map_option (\<lambda>(bs, r). (b # bs, r)) (escaped_tail n rest)
          else None)"

definition tail_length :: "nat \<Rightarrow> nat option" where
  "tail_length b =
     (if b < 128 then Some 0 else if b < 192 then None else if b < 224 then Some 1
      else if b < 240 then Some 2 else if b < 248 then Some 3 else None)"

definition code_point :: "nat \<Rightarrow> nat list \<Rightarrow> nat" where
  "code_point b bs =
     foldl (\<lambda>acc c. acc * 64 + (c - 128))
       (case length bs of 0 \<Rightarrow> b | Suc 0 \<Rightarrow> b - 192 | Suc (Suc 0) \<Rightarrow> b - 224 | _ \<Rightarrow> b - 240) bs"

text \<open>Overlong forms, surrogates and values past the last code point are not UTF-8.\<close>

definition well_formed_utf8 :: "nat \<Rightarrow> nat list \<Rightarrow> bool" where
  "well_formed_utf8 b bs =
     (let cp = code_point b bs in
      (case length bs of
         0 \<Rightarrow> True
       | Suc 0 \<Rightarrow> 128 \<le> cp
       | Suc (Suc 0) \<Rightarrow> 2048 \<le> cp \<and> \<not> (55296 \<le> cp \<and> cp < 57344)
       | _ \<Rightarrow> 65536 \<le> cp \<and> cp < 1114112))"

fun decode_fuel :: "nat \<Rightarrow> string \<Rightarrow> string option" where
  "decode_fuel 0 s = (if s = [] then Some [] else None)"
| "decode_fuel (Suc n) s =
     (case s of
        [] \<Rightarrow> Some []
      | c # rest \<Rightarrow>
          if c \<noteq> CHR ''%'' then map_option (\<lambda>t. c # t) (decode_fuel n rest)
          else (case escaped_byte s of
              None \<Rightarrow> None
            | Some (b, rest') \<Rightarrow>
                (case tail_length b of
                   None \<Rightarrow> None
                 | Some k \<Rightarrow>
                     (case escaped_tail k rest' of
                        None \<Rightarrow> None
                      | Some (bs, rest'') \<Rightarrow>
                          if well_formed_utf8 b bs
                          then map_option (\<lambda>t. map char_of (b # bs) @ t) (decode_fuel n rest'')
                          else None))))"

definition decode_uri :: "string \<Rightarrow> string option" where
  "decode_uri s = decode_fuel (length s) s"

text \<open>The fuel is the length of the text: every step consumes a character.\<close>

lemma escaped_byte_shorter: "escaped_byte s = Some (b, r) \<Longrightarrow> length r < length s"
  by (induction s rule: escaped_byte.induct) (auto split: if_splits option.splits prod.splits)

lemma escaped_tail_shorter: "escaped_tail n s = Some (bs, r) \<Longrightarrow> length r \<le> length s"
proof (induction n arbitrary: s bs)
  case (Suc n)
  then obtain b t bs' where "escaped_byte s = Some (b, t)" "escaped_tail n t = Some (bs', r)"
    by (auto split: option.splits if_splits prod.splits)
  with Suc.IH escaped_byte_shorter show ?case by fastforce
qed simp

lemma decode_fuel_enough: "length s \<le> n \<Longrightarrow> decode_fuel n s = decode_fuel (length s) s"
proof (induction n arbitrary: s rule: less_induct)
  case (less n)
  have cut: "decode_fuel m t = decode_fuel m' t"
    if "length t \<le> m" "m < n" "length t \<le> m'" "m' < n" for m m' t
    using less.IH that by metis
  show ?case
  proof (cases n)
    case 0
    with less.prems show ?thesis by simp
  next
    case n: (Suc n')
    show ?thesis
    proof (cases s)
      case Nil
      with n show ?thesis by simp
    next
      case (Cons c rest)
      have len: "length s = Suc (length rest)" using Cons by simp
      have rest: "decode_fuel n' rest = decode_fuel (length rest) rest"
        using less.prems n Cons by (intro cut) auto
      have deep: "decode_fuel n' r2 = decode_fuel (length rest) r2"
        if "escaped_byte s = Some (b, r1)" "escaped_tail k r1 = Some (bs, r2)" for b r1 k bs r2
      proof -
        have "length r2 \<le> length rest"
          using escaped_byte_shorter [OF that(1)] escaped_tail_shorter [OF that(2)] Cons by simp
        with less.prems n Cons show ?thesis by (intro cut) auto
      qed
      show ?thesis
        unfolding len n using Cons rest deep
        by (auto split: option.splits simp del: escaped_byte.simps)
    qed
  qed
qed

lemma decode_uri_plain: "CHR ''%'' \<notin> set s \<Longrightarrow> decode_uri s = Some s"
proof -
  have "CHR ''%'' \<notin> set s \<Longrightarrow> decode_fuel (length s) s = Some s"
    by (induction s) auto
  then show "CHR ''%'' \<notin> set s \<Longrightarrow> decode_uri s = Some s" by (simp add: decode_uri_def)
qed

end
