(* ===== verification/Scope_Match.thy ===== *)
theory Scope_Match
  imports Domain Text
begin

text \<open>
  Scope matching, \<^verbatim>\<open>apps/api/src/services/authorization/scope-match.ts\<close>, and the part of
  \<^verbatim>\<open>create.ts\<close> that bounds a scope to its target.  \<open>to_ascii\<close> is node's \<^verbatim>\<open>domainToASCII\<close> (the empty
  string on failure), a parameter.  The table of standard ports is a JavaScript object literal, so
  a lookup also finds what every object inherits: \<open>Inherited\<close> is such a value, which is neither
  \<^verbatim>\<open>undefined\<close> nor a number.
\<close>

section \<open>Scopes and destinations\<close>

datatype scope_kind = WEB | REPO

record scope_definition =
  sd_kind :: scope_kind
  sd_included_hosts :: "string list"
  sd_excluded_hosts :: "string list"
  sd_included_paths :: "string list"
  sd_excluded_paths :: "string list"
  sd_schemes :: "string list"
  sd_ports :: "int list"
  sd_repository :: "string option"
  sd_included_refs :: "string list"
  sd_excluded_refs :: "string list"

record web_destination =
  wd_host :: string
  wd_path :: string
  wd_scheme :: string
  wd_port :: "int option"

record repository_destination =
  rd_repository :: string
  rd_ref :: string
  rd_path :: string

datatype destination = To_Web web_destination | To_Repository repository_destination

section \<open>Normal forms\<close>

definition label_char :: "char \<Rightarrow> bool" where
  "label_char c =
     (CHR ''a'' \<le> c \<and> c \<le> CHR ''z'' \<or> CHR ''0'' \<le> c \<and> c \<le> CHR ''9''
      \<or> c = CHR ''_'' \<or> c = CHR ''-'')"

definition label_ok :: "string \<Rightarrow> bool" where
  "label_ok l = (l \<noteq> [] \<and> list_all label_char l)"

definition normalize_host :: "(string \<Rightarrow> string) \<Rightarrow> string \<Rightarrow> string option" where
  "normalize_host to_ascii raw =
     (let lowered = lower raw;
          stripped = (if suffix ''.'' lowered then butlast lowered else lowered) in
      if stripped = [] then None
      else let folded = to_ascii stripped in
        if folded = [] then None
        else if list_all label_ok (split_on CHR ''.'' folded) then Some folded else None)"

text \<open>\<^verbatim>\<open>pop\<close> on an empty array does nothing.\<close>

fun resolve_segments :: "string list \<Rightarrow> string list \<Rightarrow> string list" where
  "resolve_segments resolved [] = resolved"
| "resolve_segments resolved (s # ss) =
     (if s = [] \<or> s = ''.'' then resolve_segments resolved ss
      else if s = ''..'' then resolve_segments (butlast resolved) ss
      else resolve_segments (resolved @ [s]) ss)"

definition without_query :: "string \<Rightarrow> string" where
  "without_query raw = takeWhile (\<lambda>c. c \<noteq> CHR ''?'' \<and> c \<noteq> CHR ''#'') raw"

definition path_segments :: "string \<Rightarrow> string list option" where
  "path_segments raw =
     map_option (\<lambda>d. resolve_segments [] (split_on CHR ''/'' d)) (decode_uri (without_query raw))"

definition render_path :: "string list \<Rightarrow> string" where
  "render_path ss = (if ss = [] then [] else CHR ''/'' # join_with CHR ''/'' ss)"

definition normalize_path :: "string \<Rightarrow> string option" where
  "normalize_path raw = map_option render_path (path_segments raw)"

section \<open>Patterns\<close>

definition matches_host_pattern :: "(string \<Rightarrow> string) \<Rightarrow> string \<Rightarrow> string \<Rightarrow> bool" where
  "matches_host_pattern to_ascii pattern host =
     (if prefix ''*.'' pattern then
        (case normalize_host to_ascii (drop 2 pattern) of
           None \<Rightarrow> False
         | Some base \<Rightarrow>
             if \<not> suffix (CHR ''.'' # base) host then False
             else let pre = take (length host - length base - 1) host in
               0 < length pre \<and> CHR ''.'' \<notin> set pre)
      else normalize_host to_ascii pattern = Some host)"

definition matches_path_prefix :: "string \<Rightarrow> string \<Rightarrow> bool" where
  "matches_path_prefix pre path =
     (case normalize_path pre of
        None \<Rightarrow> False
      | Some p \<Rightarrow> if p = [] then True else path = p \<or> prefix (p @ ''/'') path)"

definition any_host :: "(string \<Rightarrow> string) \<Rightarrow> string list \<Rightarrow> string \<Rightarrow> bool" where
  "any_host to_ascii patterns host = list_ex (\<lambda>p. matches_host_pattern to_ascii p host) patterns"

definition any_path :: "string list \<Rightarrow> string \<Rightarrow> bool" where
  "any_path pres path = list_ex (\<lambda>p. matches_path_prefix p path) pres"

section \<open>The matcher\<close>

datatype port_entry = Port int | Inherited

definition standard_port :: "string \<Rightarrow> port_entry option" where
  "standard_port scheme =
     (if scheme = ''http'' then Some (Port 80)
      else if scheme = ''https'' then Some (Port 443)
      else if scheme = ''constructor'' \<or> scheme = ''__proto__'' then Some Inherited
      else None)"

text \<open>\<^verbatim>\<open>destination.port ?? standardPort\<close>, then the test that it is an integer port.\<close>

definition chosen_port :: "int option \<Rightarrow> port_entry \<Rightarrow> int option" where
  "chosen_port given std =
     (let p = (case given of Some n \<Rightarrow> Port n | None \<Rightarrow> std) in
      (case p of
         Port n \<Rightarrow> if n < 1 \<or> 65535 < n then None else Some n
       | Inherited \<Rightarrow> None))"

definition is_in_web_scope :: "(string \<Rightarrow> string) \<Rightarrow> scope_definition \<Rightarrow> web_destination \<Rightarrow> bool" where
  "is_in_web_scope to_ascii scope d =
     (let scheme = lower (wd_scheme d) in
      (case (normalize_host to_ascii (wd_host d), normalize_path (wd_path d), standard_port scheme) of
         (Some host, Some path, Some std) \<Rightarrow>
           (case chosen_port (wd_port d) std of
              None \<Rightarrow> False
            | Some port \<Rightarrow>
                if any_host to_ascii (sd_excluded_hosts scope) host
                   \<or> any_path (sd_excluded_paths scope) path then False
                else
                  (if sd_schemes scope = [] then True
                   else list_ex (\<lambda>a. lower a = scheme) (sd_schemes scope))
                  \<and> (if sd_ports scope = [] then Port port = std else port \<in> set (sd_ports scope))
                  \<and> any_host to_ascii (sd_included_hosts scope) host
                  \<and> any_path (sd_included_paths scope) path)
       | _ \<Rightarrow> False))"

definition is_in_repository_scope :: "scope_definition \<Rightarrow> repository_destination \<Rightarrow> bool" where
  "is_in_repository_scope scope d =
     (case sd_repository scope of
        None \<Rightarrow> False
      | Some full \<Rightarrow>
          if lower full \<noteq> lower (rd_repository d) then False
          else (case normalize_path (rd_path d) of
              None \<Rightarrow> False
            | Some path \<Rightarrow>
                if rd_ref d \<in> set (sd_excluded_refs scope) \<or> any_path (sd_excluded_paths scope) path
                then False
                else rd_ref d \<in> set (sd_included_refs scope)
                     \<and> any_path (sd_included_paths scope) path))"

definition is_in_scope :: "(string \<Rightarrow> string) \<Rightarrow> scope_definition \<Rightarrow> destination \<Rightarrow> bool" where
  "is_in_scope to_ascii scope d =
     (case d of
        To_Repository r \<Rightarrow> sd_kind scope = REPO \<and> is_in_repository_scope scope r
      | To_Web w \<Rightarrow> sd_kind scope = WEB \<and> is_in_web_scope to_ascii scope w)"

section \<open>Bounding a scope to its target\<close>

text \<open>\<open>url_hostname\<close> is the WHATWG parser's hostname of an absolute URL (\<open>None\<close> when it throws).\<close>

definition target_host :: "(string \<Rightarrow> string) \<Rightarrow> (string \<Rightarrow> string option) \<Rightarrow> string \<Rightarrow> string option" where
  "target_host to_ascii url_hostname canonical =
     (case url_hostname canonical of
        Some h \<Rightarrow> if h \<noteq> [] then normalize_host to_ascii h else normalize_host to_ascii canonical
      | None \<Rightarrow> normalize_host to_ascii canonical)"

definition under_host :: "string \<Rightarrow> string \<Rightarrow> bool" where
  "under_host base host = (host = base \<or> suffix (CHR ''.'' # base) host)"

definition is_bounded_host :: "(string \<Rightarrow> string) \<Rightarrow> string \<Rightarrow> string \<Rightarrow> bool" where
  "is_bounded_host to_ascii entry base =
     (case normalize_host to_ascii (if prefix ''*.'' entry then drop 2 entry else entry) of
        None \<Rightarrow> False
      | Some host \<Rightarrow> under_host base host)"

definition scope_bounded ::
    "(string \<Rightarrow> string) \<Rightarrow> (string \<Rightarrow> string option) \<Rightarrow> scope_definition \<Rightarrow> string \<Rightarrow> bool" where
  "scope_bounded to_ascii url_hostname scope canonical =
     (if sd_kind scope = REPO then sd_repository scope = Some canonical
      else (case target_host to_ascii url_hostname canonical of
          None \<Rightarrow> False
        | Some base \<Rightarrow>
            list_all (\<lambda>e. is_bounded_host to_ascii e base)
              (sd_included_hosts scope @ sd_excluded_hosts scope)))"

section \<open>Paths as segment lists\<close>

text \<open>A resolved path has no empty, dot or dot-dot segment, and no slash inside a segment.\<close>

definition plain_segment :: "string \<Rightarrow> bool" where
  "plain_segment s = (s \<noteq> [] \<and> s \<noteq> ''.'' \<and> s \<noteq> ''..'' \<and> CHR ''/'' \<notin> set s)"

lemma resolve_segments_plain:
  "list_all plain_segment resolved \<Longrightarrow> \<forall>s \<in> set ss. CHR ''/'' \<notin> set s \<Longrightarrow>
   list_all plain_segment (resolve_segments resolved ss)"
proof (induction resolved ss rule: resolve_segments.induct)
  case (2 resolved s ss)
  have "list_all plain_segment (butlast resolved)"
    using 2(4) by (auto simp: list_all_iff dest: in_set_butlastD)
  moreover have "s \<noteq> [] \<Longrightarrow> s \<noteq> ''.'' \<Longrightarrow> s \<noteq> ''..'' \<Longrightarrow> list_all plain_segment (resolved @ [s])"
    using 2(4,5) by (auto simp: plain_segment_def list_all_iff)
  ultimately show ?case using 2 by auto
qed simp

lemma path_segments_plain: "path_segments raw = Some ss \<Longrightarrow> list_all plain_segment ss"
  by (auto simp: path_segments_def intro!: resolve_segments_plain dest: split_on_separator_free)

lemma render_path_Nil_iff [simp]: "render_path ss = [] \<longleftrightarrow> ss = []"
  by (simp add: render_path_def)

lemma split_render_path:
  "ss \<noteq> [] \<Longrightarrow> list_all plain_segment ss \<Longrightarrow> split_on CHR ''/'' (render_path ss) = [] # ss"
  by (auto simp: render_path_def plain_segment_def list_all_iff split_join_with)

lemma render_path_inj:
  assumes "list_all plain_segment ss" "list_all plain_segment ts" "render_path ss = render_path ts"
  shows "ss = ts"
  using assms split_render_path by (cases "ss = []"; cases "ts = []") (metis render_path_Nil_iff list.inject)+

lemma prefix_render_iff:
  assumes ps: "list_all plain_segment ps" "ps \<noteq> []" and qs: "list_all plain_segment qs"
  shows "render_path qs = render_path ps \<or> prefix (render_path ps @ ''/'') (render_path qs)
     \<longleftrightarrow> prefix ps qs"
proof
  assume "render_path qs = render_path ps \<or> prefix (render_path ps @ ''/'') (render_path qs)"
  then show "prefix ps qs"
  proof
    assume "render_path qs = render_path ps"
    with ps qs show ?thesis using render_path_inj by blast
  next
    assume "prefix (render_path ps @ ''/'') (render_path qs)"
    then obtain rest where r: "render_path qs = render_path ps @ CHR ''/'' # rest"
      by (auto simp: prefix_def)
    then have "qs \<noteq> []" by (auto simp: render_path_def)
    have "split_on CHR ''/'' (render_path qs) = split_on CHR ''/'' (render_path ps) @ split_on CHR ''/'' rest"
      unfolding r by (rule split_on_append)
    with \<open>qs \<noteq> []\<close> ps qs have "qs = ps @ split_on CHR ''/'' rest" by (simp add: split_render_path)
    then show ?thesis by simp
  qed
next
  assume "prefix ps qs"
  then obtain ts where ts: "qs = ps @ ts" by (auto simp: prefix_def)
  show "render_path qs = render_path ps \<or> prefix (render_path ps @ ''/'') (render_path qs)"
    using ps ts by (cases "ts = []") (auto simp: render_path_def join_with_append)
qed

end
