(* ===== verification/Safety.thy ===== *)
theory Safety
  imports Scope_Match
begin

text \<open>
  The tables behind authorization, admission and the kill switch (the safety foundation's
  migrations), and the reads the other theories share.  Times are the database clock's
  milliseconds; the identity a function acts for is always read from the tables.
\<close>

section \<open>Tables\<close>

record target_row =
  tg_id :: string
  tg_user :: user_id
  tg_input :: input_type
  tg_canonical :: string

record grant_row =
  gr_id :: string
  gr_target :: string
  gr_user :: user_id
  gr_classes :: "execution_class list"
  gr_environments :: "environment list"
  gr_requests :: int
  gr_concurrency :: int
  gr_duration :: int
  gr_granted :: millis
  gr_expires :: millis
  gr_revoked :: "millis option"
  gr_scope :: scope_definition

record stop_row =
  st_id :: string
  st_scope :: safety_scope
  st_scope_id :: string
  st_state :: stop_state
  st_triggered_by :: string
  st_reason :: stop_reason
  st_requested :: millis
  st_acknowledged :: "millis option"
  st_stopped :: "millis option"
  st_escalated :: "millis option"

record lease_row =
  ls_id :: string
  ls_grant :: string
  ls_user :: user_id
  ls_target :: string
  ls_scan :: "string option"
  ls_execution :: string
  ls_key :: string
  ls_token :: string
  ls_expires :: millis
  ls_released :: "millis option"
  ls_reclaimed :: "millis option"

record consumption_row =
  co_grant :: string
  co_user :: user_id
  co_execution :: string
  co_key :: string

record counter_row =
  ct_grant :: string
  ct_user :: user_id
  ct_requests :: int
  ct_active :: int

record audit_row =
  au_type :: audit_type
  au_actor :: string
  au_target :: "string option"
  au_grant :: "string option"
  au_scan :: "string option"
  au_execution :: "string option"
  au_outcome :: string

text \<open>The administrative log (\<^verbatim>\<open>AuditLogEntry\<close>): actor, action, subject.\<close>

record log_row =
  lg_actor :: string
  lg_action :: string
  lg_subject :: string

record scan_ref =
  sr_id :: string
  sr_user :: user_id
  sr_target :: string

record safety_db =
  sf_targets :: "target_row list"
  sf_environments :: "string \<Rightarrow> environment option"
  sf_operators :: "user_id list"
  sf_scans :: "scan_ref list"
  sf_grants :: "grant_row list"
  sf_stops :: "stop_row list"
  sf_leases :: "lease_row list"
  sf_consumptions :: "consumption_row list"
  sf_counters :: "counter_row list"
  sf_audit :: "audit_row list"
  sf_log :: "log_row list"

section \<open>Reads\<close>

definition audit ::
    "audit_type \<Rightarrow> string \<Rightarrow> string option \<Rightarrow> string option \<Rightarrow> string option \<Rightarrow> string option \<Rightarrow> string
     \<Rightarrow> safety_db \<Rightarrow> safety_db" where
  "audit ty actor target grant scan execution outcome db =
     db\<lparr> sf_audit := sf_audit db @
       [\<lparr> au_type = ty, au_actor = actor, au_target = target, au_grant = grant, au_scan = scan,
          au_execution = execution, au_outcome = outcome \<rparr>] \<rparr>"

definition target_owner :: "safety_db \<Rightarrow> string \<Rightarrow> user_id option" where
  "target_owner db t = map_option tg_user (find_row tg_id t (sf_targets db))"

text \<open>A lease holds its slot until it is released or reclaimed; it is live while it has not expired.\<close>

definition holds_slot :: "lease_row \<Rightarrow> bool" where
  "holds_slot l = (ls_released l = None \<and> ls_reclaimed l = None)"

definition is_live :: "millis \<Rightarrow> lease_row \<Rightarrow> bool" where
  "is_live now l = (holds_slot l \<and> now < ls_expires l)"

fun lease_in_scope :: "safety_scope \<Rightarrow> string \<Rightarrow> lease_row \<Rightarrow> bool" where
  "lease_in_scope SC_EXECUTION i l = (ls_execution l = i)"
| "lease_in_scope SC_SCAN i l = (ls_scan l = Some i)"
| "lease_in_scope SC_GRANT i l = (ls_grant l = i)"
| "lease_in_scope SC_TARGET i l = (ls_target l = i)"
| "lease_in_scope SC_TENANT i l = (ls_user l = i)"
| "lease_in_scope SC_PLATFORM i l = True"

definition scope_has_live_execution :: "millis \<Rightarrow> safety_db \<Rightarrow> safety_scope \<Rightarrow> string \<Rightarrow> bool" where
  "scope_has_live_execution now db sc i =
     list_ex (\<lambda>l. is_live now l \<and> lease_in_scope sc i l) (sf_leases db)"

section \<open>Pending stops\<close>

record safety_identity =
  id_execution :: string
  id_scan :: "string option"
  id_grant :: string
  id_target :: string
  id_user :: user_id

fun scope_key :: "safety_identity \<Rightarrow> safety_scope \<Rightarrow> string option" where
  "scope_key x SC_EXECUTION = Some (id_execution x)"
| "scope_key x SC_SCAN = id_scan x"
| "scope_key x SC_GRANT = Some (id_grant x)"
| "scope_key x SC_TARGET = Some (id_target x)"
| "scope_key x SC_TENANT = Some (id_user x)"
| "scope_key x SC_PLATFORM = Some ''platform''"

definition covers :: "safety_identity \<Rightarrow> stop_row \<Rightarrow> bool" where
  "covers x k = (scope_key x (st_scope k) = Some (st_scope_id k))"

definition blocks_admission :: "stop_row \<Rightarrow> bool" where
  "blocks_admission k =
     (st_state k = K_REQUESTED \<or> st_state k = K_ACKNOWLEDGED
      \<or> st_scope k = SC_EXECUTION \<and> st_state k = K_STOPPED)"

text \<open>The rows are unique per scope and id, so the order by scope is total among covering rows.\<close>

definition stop_pending :: "safety_db \<Rightarrow> safety_identity \<Rightarrow> stop_row option" where
  "stop_pending db x =
     List.find (\<lambda>k. True)
       (concat (map (\<lambda>sc. filter (\<lambda>k. st_scope k = sc \<and> covers x k \<and> blocks_admission k) (sf_stops db))
                 safety_scopes))"

definition pending_stop_reason :: "safety_db \<Rightarrow> safety_identity \<Rightarrow> stop_reason option" where
  "pending_stop_reason db x = map_option st_reason (stop_pending db x)"

definition find_stop :: "safety_db \<Rightarrow> safety_scope \<Rightarrow> string \<Rightarrow> stop_row option" where
  "find_stop db sc i = List.find (\<lambda>k. st_scope k = sc \<and> st_scope_id k = i) (sf_stops db)"

definition lease_identity :: "lease_row \<Rightarrow> safety_identity" where
  "lease_identity l =
     \<lparr> id_execution = ls_execution l, id_scan = ls_scan l, id_grant = ls_grant l,
       id_target = ls_target l, id_user = ls_user l \<rparr>"

lemma mem_safety_scopes [simp]: "sc \<in> set safety_scopes"
  by (cases sc) (simp_all add: safety_scopes_def)

lemma stop_pending_None_iff:
  "stop_pending db x = None \<longleftrightarrow> (\<forall>k \<in> set (sf_stops db). covers x k \<longrightarrow> \<not> blocks_admission k)"
  by (auto simp: stop_pending_def find_None_iff)

lemma stop_pending_SomeD:
  "stop_pending db x = Some k \<Longrightarrow> k \<in> set (sf_stops db) \<and> covers x k \<and> blocks_admission k"
  by (auto simp: stop_pending_def find_Some_iff dest!: nth_mem)

lemma covers_lease_identity:
  "st_scope k = SC_PLATFORM \<Longrightarrow> st_scope_id k = ''platform'' \<Longrightarrow> covers x k"
  by (simp add: covers_def)

lemma audit_simps [simp]:
  "sf_targets (audit ty a t g s e out db) = sf_targets db"
  "sf_environments (audit ty a t g s e out db) = sf_environments db"
  "sf_operators (audit ty a t g s e out db) = sf_operators db"
  "sf_scans (audit ty a t g s e out db) = sf_scans db"
  "sf_grants (audit ty a t g s e out db) = sf_grants db"
  "sf_stops (audit ty a t g s e out db) = sf_stops db"
  "sf_leases (audit ty a t g s e out db) = sf_leases db"
  "sf_consumptions (audit ty a t g s e out db) = sf_consumptions db"
  "sf_counters (audit ty a t g s e out db) = sf_counters db"
  "sf_log (audit ty a t g s e out db) = sf_log db"
  by (simp_all add: audit_def)

end
