(* ===== verification/Leases.thy ===== *)
theory Leases
  imports Safety
begin

text \<open>
  Admission and leases: the database functions \<^verbatim>\<open>f07_admit\<close>, \<^verbatim>\<open>f07_renew_lease\<close>,
  \<^verbatim>\<open>f07_release_lease_by_token\<close>, \<^verbatim>\<open>f07_release_leases_by_execution\<close> and
  \<^verbatim>\<open>f07_reclaim_expired_leases\<close>, each one transaction.  \<open>now\<close> is the clock the function reads
  when it starts; a fresh lease id and token are arguments.  A raised error is \<open>None\<close>: the
  transaction rolls back.
\<close>

section \<open>Results\<close>

datatype admission_refusal =
    NO_MATCHING_GRANT
  | REVOKED
  | EXPIRED
  | OUT_OF_SCOPE
  | ENVIRONMENT_UNCLASSIFIED_OR_NOT_PERMITTED
  | BUDGET_EXHAUSTED_REQUEST
  | BUDGET_EXHAUSTED_CONCURRENCY
  | KILL_SWITCH_PENDING
  | EXECUTION_ALREADY_LEASED
  | INTERNAL_ERROR

datatype admission_result =
    Granted string "(string \<times> string) option" bool
  | Refused admission_refusal "(safety_scope \<times> string) option"

record admit_args =
  aa_target :: string
  aa_grant :: string
  aa_execution :: string
  aa_scan :: "string option"
  aa_key :: string
  aa_request :: bool
  aa_concurrency :: bool

definition lease_ms :: int where
  "lease_ms = 30000"

section \<open>Admission\<close>

definition find_grant :: "safety_db \<Rightarrow> string \<Rightarrow> grant_row option" where
  "find_grant db g = find_row gr_id g (sf_grants db)"

definition grant_of :: "safety_db \<Rightarrow> string \<Rightarrow> string \<Rightarrow> user_id \<Rightarrow> grant_row option" where
  "grant_of db g t u =
     List.find (\<lambda>r. gr_id r = g \<and> gr_target r = t \<and> gr_user r = u) (sf_grants db)"

definition grant_dead :: "millis \<Rightarrow> grant_row \<Rightarrow> admission_refusal option" where
  "grant_dead now g =
     (if gr_revoked g \<noteq> None then Some REVOKED
      else if gr_expires g \<le> now then Some EXPIRED else None)"

definition foreign_scan :: "safety_db \<Rightarrow> admit_args \<Rightarrow> user_id \<Rightarrow> bool" where
  "foreign_scan db a u =
     (case aa_scan a of
        None \<Rightarrow> False
      | Some s \<Rightarrow> \<not> list_ex (\<lambda>r. sr_id r = s \<and> sr_user r = u \<and> sr_target r = aa_target a) (sf_scans db))"

definition foreign_execution :: "safety_db \<Rightarrow> admit_args \<Rightarrow> user_id \<Rightarrow> bool" where
  "foreign_execution db a u =
     (list_ex (\<lambda>l. ls_execution l = aa_execution a \<and> ls_user l \<noteq> u) (sf_leases db)
      \<or> list_ex (\<lambda>c. co_execution c = aa_execution a \<and> co_user c \<noteq> u) (sf_consumptions db))"

definition find_counter :: "safety_db \<Rightarrow> string \<Rightarrow> counter_row option" where
  "find_counter db g = find_row ct_grant g (sf_counters db)"

definition ensure_counter :: "string \<Rightarrow> user_id \<Rightarrow> safety_db \<Rightarrow> safety_db" where
  "ensure_counter g u db =
     (case find_counter db g of
        Some _ \<Rightarrow> db
      | None \<Rightarrow> db\<lparr> sf_counters := sf_counters db @
          [\<lparr> ct_grant = g, ct_user = u, ct_requests = 0, ct_active = 0 \<rparr>] \<rparr>)"

definition update_counter :: "string \<Rightarrow> (counter_row \<Rightarrow> counter_row) \<Rightarrow> safety_db \<Rightarrow> safety_db" where
  "update_counter g f db = db\<lparr> sf_counters := update_rows ct_grant g f (sf_counters db) \<rparr>"

definition consume_request :: "admit_args \<Rightarrow> user_id \<Rightarrow> safety_db \<Rightarrow> safety_db" where
  "consume_request a u db =
     audit A_BUDGET_CONSUMED u (Some (aa_target a)) (Some (aa_grant a)) (aa_scan a)
       (Some (aa_execution a)) ''CONSUMED''
       (update_counter (aa_grant a) (\<lambda>c. c\<lparr> ct_requests := ct_requests c + 1 \<rparr>)
         (db\<lparr> sf_consumptions := sf_consumptions db @
            [\<lparr> co_grant = aa_grant a, co_user = u, co_execution = aa_execution a, co_key = aa_key a \<rparr>] \<rparr>))"

definition new_lease :: "millis \<Rightarrow> string \<Rightarrow> string \<Rightarrow> admit_args \<Rightarrow> user_id \<Rightarrow> lease_row" where
  "new_lease now lid token a u =
     \<lparr> ls_id = lid, ls_grant = aa_grant a, ls_user = u, ls_target = aa_target a, ls_scan = aa_scan a,
       ls_execution = aa_execution a, ls_key = aa_key a, ls_token = token,
       ls_expires = now + lease_ms, ls_released = None, ls_reclaimed = None \<rparr>"

definition reserve_slot ::
    "millis \<Rightarrow> string \<Rightarrow> string \<Rightarrow> admit_args \<Rightarrow> user_id \<Rightarrow> safety_db \<Rightarrow> safety_db" where
  "reserve_slot now lid token a u db =
     audit A_BUDGET_RESERVED u (Some (aa_target a)) (Some (aa_grant a)) (aa_scan a)
       (Some (aa_execution a)) ''RESERVED''
       (update_counter (aa_grant a) (\<lambda>c. c\<lparr> ct_active := ct_active c + 1 \<rparr>)
         (db\<lparr> sf_leases := sf_leases db @ [new_lease now lid token a u] \<rparr>))"

text \<open>The part under the counter row's lock: replay, duplicate, budgets, then the writes.\<close>

definition admit_under_counter ::
    "millis \<Rightarrow> string \<Rightarrow> string \<Rightarrow> admit_args \<Rightarrow> user_id \<Rightarrow> grant_row \<Rightarrow> safety_db
     \<Rightarrow> admission_result \<times> safety_db" where
  "admit_under_counter now lid token a u g db0 =
     (let db = ensure_counter (aa_grant a) u db0;
          requests = (case find_counter db (aa_grant a) of Some c \<Rightarrow> ct_requests c | None \<Rightarrow> 0);
          active = (case find_counter db (aa_grant a) of Some c \<Rightarrow> ct_active c | None \<Rightarrow> 0);
          old = List.find (\<lambda>l. ls_grant l = aa_grant a \<and> ls_key l = aa_key a) (sf_leases db);
          consumed = list_ex (\<lambda>c. co_grant c = aa_grant a \<and> co_key c = aa_key a) (sf_consumptions db);
          note = (\<lambda>ty out. audit ty u (Some (aa_target a)) (Some (aa_grant a)) (aa_scan a)
                     (Some (aa_execution a)) out) in
      if old \<noteq> None \<or> consumed
      then (Granted (aa_grant a) (map_option (\<lambda>l. (ls_id l, ls_token l)) old) True, db)
      else if aa_concurrency a
              \<and> list_ex (\<lambda>l. ls_execution l = aa_execution a \<and> is_live now l \<and> ls_key l \<noteq> aa_key a)
                  (sf_leases db)
      then (Refused EXECUTION_ALREADY_LEASED None,
            note A_ADMISSION_REFUSED ''EXECUTION_ALREADY_LEASED'' db)
      else if aa_request a \<and> gr_requests g < requests + 1
      then (Refused BUDGET_EXHAUSTED_REQUEST None,
            note A_BUDGET_EXHAUSTED ''BUDGET_EXHAUSTED_REQUEST'' db)
      else if aa_concurrency a \<and> gr_concurrency g < active + 1
      then (Refused BUDGET_EXHAUSTED_CONCURRENCY None,
            note A_BUDGET_EXHAUSTED ''BUDGET_EXHAUSTED_CONCURRENCY'' db)
      else
        let db1 = (if aa_request a then consume_request a u db else db);
            db2 = (if aa_concurrency a then reserve_slot now lid token a u db1 else db1) in
        (Granted (aa_grant a) (if aa_concurrency a then Some (lid, token) else None) False,
         note A_ADMISSION_GRANTED ''GRANTED'' db2))"

definition args_identity :: "admit_args \<Rightarrow> user_id \<Rightarrow> safety_identity" where
  "args_identity a u =
     \<lparr> id_execution = aa_execution a, id_scan = aa_scan a, id_grant = aa_grant a,
       id_target = aa_target a, id_user = u \<rparr>"

definition f07_admit ::
    "millis \<Rightarrow> string \<Rightarrow> string \<Rightarrow> admit_args \<Rightarrow> safety_db
     \<Rightarrow> (admission_result \<times> safety_db) option" where
  "f07_admit now lid token a db =
     (if aa_target a = [] \<or> aa_grant a = [] \<or> aa_execution a = [] \<or> aa_key a = []
         \<or> \<not> (aa_request a \<or> aa_concurrency a) then None
      else Some (case target_owner db (aa_target a) of
          None \<Rightarrow> (Refused NO_MATCHING_GRANT None, db)
        | Some u \<Rightarrow>
            let refuse = (\<lambda>grant scan out. audit A_ADMISSION_REFUSED u (Some (aa_target a)) grant scan
                            (Some (aa_execution a)) out db) in
            (case grant_of db (aa_grant a) (aa_target a) u of
               None \<Rightarrow> (Refused NO_MATCHING_GRANT None, refuse None (aa_scan a) ''NO_MATCHING_GRANT'')
             | Some g \<Rightarrow>
                 if foreign_scan db a u
                 then (Refused NO_MATCHING_GRANT None,
                       refuse (Some (aa_grant a)) None ''NO_MATCHING_GRANT'')
                 else if foreign_execution db a u
                 then (Refused NO_MATCHING_GRANT None,
                       refuse (Some (aa_grant a)) (aa_scan a) ''NO_MATCHING_GRANT'')
                 else (case stop_pending db (args_identity a u) of
                     Some k \<Rightarrow> (Refused KILL_SWITCH_PENDING (Some (st_scope k, st_scope_id k)),
                         refuse (Some (aa_grant a)) (aa_scan a) ''KILL_SWITCH_PENDING'')
                   | None \<Rightarrow>
                       (case grant_dead now g of
                          Some r \<Rightarrow> (Refused r None,
                            refuse (Some (aa_grant a)) (aa_scan a)
                              (if r = REVOKED then ''REVOKED'' else ''EXPIRED''))
                        | None \<Rightarrow>
                            (case sf_environments db (aa_target a) of
                               None \<Rightarrow> (Refused ENVIRONMENT_UNCLASSIFIED_OR_NOT_PERMITTED None,
                                 refuse (Some (aa_grant a)) (aa_scan a)
                                   ''ENVIRONMENT_UNCLASSIFIED_OR_NOT_PERMITTED'')
                             | Some e \<Rightarrow>
                                 if e \<in> set (gr_environments g)
                                 then admit_under_counter now lid token a u g db
                                 else (Refused ENVIRONMENT_UNCLASSIFIED_OR_NOT_PERMITTED None,
                                   refuse (Some (aa_grant a)) (aa_scan a)
                                     ''ENVIRONMENT_UNCLASSIFIED_OR_NOT_PERMITTED''))))))) "

section \<open>Renewal\<close>

datatype renew_result =
    Renewed millis
  | Stop_Pending safety_scope string
  | Grant_Invalid admission_refusal
  | Fenced
  | Uncertain

definition f07_renew_lease ::
    "millis \<Rightarrow> string \<Rightarrow> string \<Rightarrow> safety_db \<Rightarrow> renew_result \<times> safety_db" where
  "f07_renew_lease now lid token db =
     (case find_row ls_id lid (sf_leases db) of
        None \<Rightarrow> (Fenced, db)
      | Some l \<Rightarrow>
          if ls_token l \<noteq> token then (Fenced, db)
          else (case stop_pending db (lease_identity l) of
              Some k \<Rightarrow> (Stop_Pending (st_scope k) (st_scope_id k), db)
            | None \<Rightarrow>
                (case find_grant db (ls_grant l) of
                   None \<Rightarrow> (Grant_Invalid REVOKED, db)
                 | Some g \<Rightarrow>
                     (case grant_dead now g of
                        Some r \<Rightarrow> (Grant_Invalid r, db)
                      | None \<Rightarrow>
                          if is_live now l then
                            (Renewed (now + lease_ms),
                             db\<lparr> sf_leases := update_rows ls_id lid
                                   (\<lambda>r. r\<lparr> ls_expires := now + lease_ms \<rparr>) (sf_leases db) \<rparr>)
                          else
                            (Fenced, audit A_SAFETY_VIOLATION (ls_user l) (Some (ls_target l))
                               (Some (ls_grant l)) (ls_scan l) (Some (ls_execution l))
                               ''LEASE_RENEWAL_FENCED'' db)))))"

section \<open>Release\<close>

definition drop_active :: "int \<Rightarrow> counter_row \<Rightarrow> counter_row" where
  "drop_active n c = c\<lparr> ct_active := max (ct_active c - n) 0 \<rparr>"

definition f07_release_lease_by_token ::
    "millis \<Rightarrow> string \<Rightarrow> string \<Rightarrow> bool \<Rightarrow> safety_db \<Rightarrow> bool \<times> safety_db" where
  "f07_release_lease_by_token now lid token completed db =
     (case find_row ls_id lid (sf_leases db) of
        None \<Rightarrow> (False, db)
      | Some l \<Rightarrow>
          if ls_token l \<noteq> token \<or> \<not> holds_slot l then (False, db)
          else
            let note = (\<lambda>ty out. audit ty (ls_user l) (Some (ls_target l)) (Some (ls_grant l)) (ls_scan l)
                           (Some (ls_execution l)) out);
                db1 = note A_BUDGET_RELEASED ''RELEASED''
                  (update_counter (ls_grant l) (drop_active 1)
                    (db\<lparr> sf_leases := update_rows ls_id lid
                           (\<lambda>r. r\<lparr> ls_released := Some now \<rparr>) (sf_leases db) \<rparr>)) in
            (True, if completed then note A_EXECUTION_COMPLETED ''COMPLETED'' db1 else db1))"

definition slot_grants :: "(lease_row \<Rightarrow> bool) \<Rightarrow> safety_db \<Rightarrow> string list" where
  "slot_grants p db = sort (uniq (map ls_grant (filter (\<lambda>l. holds_slot l \<and> p l) (sf_leases db))))"

definition mark_leases :: "(lease_row \<Rightarrow> bool) \<Rightarrow> (lease_row \<Rightarrow> lease_row) \<Rightarrow> safety_db \<Rightarrow> safety_db" where
  "mark_leases p f db = db\<lparr> sf_leases := map (\<lambda>l. if p l then f l else l) (sf_leases db) \<rparr>"

definition audit_each :: "string option \<Rightarrow> string \<Rightarrow> lease_row list \<Rightarrow> safety_db \<Rightarrow> safety_db" where
  "audit_each actor out ls db =
     foldl (\<lambda>d l. audit A_BUDGET_RELEASED (case actor of Some a \<Rightarrow> a | None \<Rightarrow> ls_user l)
              (Some (ls_target l)) (Some (ls_grant l)) (ls_scan l) (Some (ls_execution l)) out d) db ls"

text \<open>One grant's turn of the loop: mark the leases, then take their number off the counter.\<close>

definition release_grant ::
    "millis \<Rightarrow> string \<Rightarrow> string \<Rightarrow> safety_db \<Rightarrow> nat \<times> safety_db" where
  "release_grant now execution g db =
     (let hit = (\<lambda>l. ls_grant l = g \<and> ls_execution l = execution \<and> holds_slot l);
          gone = filter hit (sf_leases db);
          n = length gone;
          db1 = audit_each None ''RELEASED_BY_AUTHORITY'' gone
                  (mark_leases hit (\<lambda>l. l\<lparr> ls_released := Some now \<rparr>) db) in
      (n, if 0 < n then update_counter g (drop_active (int n)) db1 else db1))"

fun release_grants :: "millis \<Rightarrow> string \<Rightarrow> string list \<Rightarrow> safety_db \<Rightarrow> nat \<times> safety_db" where
  "release_grants now execution [] db = (0, db)"
| "release_grants now execution (g # gs) db =
     (let (n, db1) = release_grant now execution g db;
          (m, db2) = release_grants now execution gs db1 in (n + m, db2))"

definition f07_release_leases_by_execution ::
    "millis \<Rightarrow> string \<Rightarrow> safety_db \<Rightarrow> (nat \<times> safety_db) option" where
  "f07_release_leases_by_execution now execution db =
     (if execution = [] then None
      else Some (release_grants now execution
        (slot_grants (\<lambda>l. ls_execution l = execution) db) db))"

section \<open>Reclaiming expired leases\<close>

definition slots_of :: "safety_db \<Rightarrow> string \<Rightarrow> int" where
  "slots_of db g = int (length (filter (\<lambda>l. ls_grant l = g \<and> holds_slot l) (sf_leases db)))"

definition set_active :: "string \<Rightarrow> safety_db \<Rightarrow> safety_db" where
  "set_active g db = update_counter g (\<lambda>c. c\<lparr> ct_active := slots_of db g \<rparr>) db"

record reclaim_result =
  re_reclaimed :: nat
  re_skipped :: nat
  re_corrected :: nat

text \<open>\<open>busy\<close> says whose counter row another transaction has locked (\<^verbatim>\<open>SKIP LOCKED\<close>).\<close>

definition reclaim_grant ::
    "millis \<Rightarrow> (string \<Rightarrow> bool) \<Rightarrow> string \<Rightarrow> reclaim_result \<times> safety_db \<Rightarrow> reclaim_result \<times> safety_db" where
  "reclaim_grant now busy g = (\<lambda>(r, db).
     if busy g \<or> find_counter db g = None then (r\<lparr> re_skipped := re_skipped r + 1 \<rparr>, db)
     else
       let hit = (\<lambda>l. ls_grant l = g \<and> holds_slot l \<and> ls_expires l \<le> now);
           gone = filter hit (sf_leases db);
           db1 = audit_each (Some ''SYSTEM'') ''RECLAIMED_EXPIRED'' gone
                   (mark_leases hit (\<lambda>l. l\<lparr> ls_reclaimed := Some now \<rparr>) db) in
       (r\<lparr> re_reclaimed := re_reclaimed r + length gone \<rparr>, set_active g db1))"

definition drifted :: "safety_db \<Rightarrow> string list" where
  "drifted db =
     sort (map ct_grant (filter (\<lambda>c. ct_active c \<noteq> slots_of db (ct_grant c)) (sf_counters db)))"

definition correct_grant ::
    "(string \<Rightarrow> bool) \<Rightarrow> string \<Rightarrow> reclaim_result \<times> safety_db \<Rightarrow> reclaim_result \<times> safety_db" where
  "correct_grant busy g = (\<lambda>(r, db).
     if busy g then (r, db)
     else (r\<lparr> re_corrected := re_corrected r +
               (case find_counter db g of
                  Some c \<Rightarrow> if ct_active c \<noteq> slots_of db g then 1 else 0
                | None \<Rightarrow> 0) \<rparr>, set_active g db))"

definition f07_reclaim_expired_leases ::
    "millis \<Rightarrow> (string \<Rightarrow> bool) \<Rightarrow> nat \<Rightarrow> safety_db \<Rightarrow> (reclaim_result \<times> safety_db) option" where
  "f07_reclaim_expired_leases now busy limit db =
     (if limit < 1 \<or> 1000 < limit then None
      else Some (
        let due = take limit (slot_grants (\<lambda>l. ls_expires l \<le> now) db);
            (r1, db1) = fold (reclaim_grant now busy) due
              (\<lparr> re_reclaimed = 0, re_skipped = 0, re_corrected = 0 \<rparr>, db) in
        fold (correct_grant busy) (take limit (drifted db1)) (r1, db1)))"

end
