(* ===== verification/Stops.thy ===== *)
theory Stops
  imports Leases
begin

text \<open>
  The kill switch: \<^verbatim>\<open>f07_trigger_stop\<close>, \<^verbatim>\<open>f07_ack_stop\<close>, \<^verbatim>\<open>f07_record_stopped\<close>,
  \<^verbatim>\<open>f07_mark_escalated\<close> and \<^verbatim>\<open>f07_reconcile_stranded_stops\<close>, with the TypeScript table of
  \<^verbatim>\<open>safety/stop-lifecycle.ts\<close>.  An exception is \<open>Inl\<close>: the transaction rolls back.
\<close>

section \<open>The lifecycle table\<close>

fun stop_allowed :: "stop_state \<Rightarrow> stop_state list" where
  "stop_allowed K_REQUESTED = [K_ACKNOWLEDGED]"
| "stop_allowed K_ACKNOWLEDGED = [K_STOPPED]"
| "stop_allowed K_STOPPED = []"

definition is_allowed_stop_transition :: "stop_state \<Rightarrow> stop_state \<Rightarrow> bool" where
  "is_allowed_stop_transition from' to' = (to' \<in> set (stop_allowed from'))"

definition is_stop_pending :: "stop_state \<Rightarrow> bool" where
  "is_stop_pending s = (s = K_REQUESTED \<or> s = K_ACKNOWLEDGED)"

section \<open>Requesting a stop\<close>

datatype safety_error = Invalid_Argument | Forbidden

definition update_stop :: "safety_scope \<Rightarrow> string \<Rightarrow> (stop_row \<Rightarrow> stop_row) \<Rightarrow> safety_db \<Rightarrow> safety_db" where
  "update_stop sc i f db =
     db\<lparr> sf_stops := map (\<lambda>k. if st_scope k = sc \<and> st_scope_id k = i then f k else k) (sf_stops db) \<rparr>"

definition audit_scope ::
    "audit_type \<Rightarrow> string \<Rightarrow> safety_scope \<Rightarrow> string \<Rightarrow> string option \<Rightarrow> string \<Rightarrow> safety_db \<Rightarrow> safety_db" where
  "audit_scope ty actor sc i execution out =
     audit ty actor
       (if sc = SC_TARGET then Some i else None)
       (if sc = SC_GRANT then Some i else None)
       (if sc = SC_SCAN then Some i else None)
       (if sc = SC_EXECUTION then Some i else execution) out"

definition may_trigger :: "safety_db \<Rightarrow> safety_scope \<Rightarrow> string \<Rightarrow> string \<Rightarrow> stop_reason \<Rightarrow> bool" where
  "may_trigger db sc i by' reason =
     (if by' = ''SYSTEM''
      then (sc = SC_GRANT \<or> sc = SC_EXECUTION)
           \<and> reason \<in> {AUTHORIZATION_REVOKED, ENVIRONMENT_RECLASSIFIED, SYSTEM_SAFETY_POLICY}
      else if by' \<in> set (sf_operators db) then True
      else if reason = USER_CANCELLATION then
        (case sc of
           SC_SCAN \<Rightarrow> list_ex (\<lambda>r. sr_id r = i \<and> sr_user r = by') (sf_scans db)
         | SC_EXECUTION \<Rightarrow>
             list_ex (\<lambda>l. ls_execution l = i \<and> ls_user l = by') (sf_leases db)
             \<and> \<not> list_ex (\<lambda>l. ls_execution l = i \<and> ls_user l \<noteq> by') (sf_leases db)
         | _ \<Rightarrow> False)
      else False)"

fun reason_text :: "stop_reason \<Rightarrow> string" where
  "reason_text USER_CANCELLATION = ''USER_CANCELLATION''"
| "reason_text AUTHORIZATION_REVOKED = ''AUTHORIZATION_REVOKED''"
| "reason_text ENVIRONMENT_RECLASSIFIED = ''ENVIRONMENT_RECLASSIFIED''"
| "reason_text OPERATOR_EMERGENCY_STOP = ''OPERATOR_EMERGENCY_STOP''"
| "reason_text SYSTEM_SAFETY_POLICY = ''SYSTEM_SAFETY_POLICY''"

record trigger_result =
  tr_created :: bool
  tr_state :: stop_state

definition f07_trigger_stop ::
    "millis \<Rightarrow> string \<Rightarrow> safety_scope \<Rightarrow> string \<Rightarrow> string \<Rightarrow> stop_reason \<Rightarrow> safety_db
     \<Rightarrow> safety_error + trigger_result \<times> safety_db" where
  "f07_trigger_stop now sid sc i by' reason db =
     (if i = [] \<or> by' = [] \<or> sc = SC_PLATFORM \<and> i \<noteq> ''platform'' then Inl Invalid_Argument
      else if \<not> may_trigger db sc i by' reason then Inl Forbidden
      else
        let fresh = \<lparr> st_id = sid, st_scope = sc, st_scope_id = i, st_state = K_REQUESTED,
                      st_triggered_by = by', st_reason = reason, st_requested = now,
                      st_acknowledged = None, st_stopped = None, st_escalated = None \<rparr>;
            note = audit_scope A_STOP_REQUESTED by' sc i None (reason_text reason) in
        (case find_stop db sc i of
           None \<Rightarrow>
             Inr (\<lparr> tr_created = True, tr_state = K_REQUESTED \<rparr>,
                  note (db\<lparr> sf_stops := sf_stops db @ [fresh] \<rparr>))
         | Some k \<Rightarrow>
             if is_stop_pending (st_state k)
             then Inr (\<lparr> tr_created = False, tr_state = st_state k \<rparr>, db)
             else Inr (\<lparr> tr_created = True, tr_state = K_REQUESTED \<rparr>,
                  note (update_stop sc i (\<lambda>k. fresh\<lparr> st_id := st_id k \<rparr>) db))))"

section \<open>Acknowledging and recording\<close>

definition f07_ack_stop ::
    "millis \<Rightarrow> string option \<Rightarrow> safety_scope \<Rightarrow> string \<Rightarrow> safety_db
     \<Rightarrow> safety_error + (bool \<times> stop_state option) \<times> safety_db" where
  "f07_ack_stop now execution sc i db =
     (if i = [] then Inl Invalid_Argument
      else (case find_stop db sc i of
          None \<Rightarrow> Inr ((False, None), db)
        | Some k \<Rightarrow>
            if st_state k \<noteq> K_REQUESTED then Inr ((False, Some (st_state k)), db)
            else Inr ((True, Some K_ACKNOWLEDGED),
              audit_scope A_STOP_ACKNOWLEDGED (case execution of Some e \<Rightarrow> e | None \<Rightarrow> ''SYSTEM'')
                sc i execution ''ACKNOWLEDGED''
                (update_stop sc i
                  (\<lambda>k. k\<lparr> st_state := K_ACKNOWLEDGED, st_acknowledged := Some now \<rparr>) db))))"

definition f07_ack_stop_by_authority ::
    "millis \<Rightarrow> string \<Rightarrow> safety_db \<Rightarrow> safety_error + bool \<times> safety_db" where
  "f07_ack_stop_by_authority now execution db =
     (case f07_ack_stop now (Some execution) SC_EXECUTION execution db of
        Inl e \<Rightarrow> Inl e
      | Inr ((changed, _), db') \<Rightarrow> Inr (changed, db'))"

datatype stopped_result = Stopped_Now | Already_Stopped | Stop_Not_Found | Not_Acknowledged | Live_Lease

definition f07_record_stopped ::
    "millis \<Rightarrow> string option \<Rightarrow> safety_scope \<Rightarrow> string \<Rightarrow> safety_db
     \<Rightarrow> safety_error + stopped_result \<times> safety_db" where
  "f07_record_stopped now execution sc i db =
     (if i = [] then Inl Invalid_Argument
      else (case find_stop db sc i of
          None \<Rightarrow> Inr (Stop_Not_Found, db)
        | Some k \<Rightarrow>
            if st_state k = K_STOPPED then Inr (Already_Stopped, db)
            else if st_state k \<noteq> K_ACKNOWLEDGED then Inr (Not_Acknowledged, db)
            else if scope_has_live_execution now db sc i then Inr (Live_Lease, db)
            else Inr (Stopped_Now,
              audit_scope A_STOPPED (case execution of Some e \<Rightarrow> e | None \<Rightarrow> ''SYSTEM'')
                sc i execution ''STOPPED''
                (update_stop sc i (\<lambda>k. k\<lparr> st_state := K_STOPPED, st_stopped := Some now \<rparr>) db))))"

definition f07_mark_escalated ::
    "millis \<Rightarrow> string option \<Rightarrow> safety_scope \<Rightarrow> string \<Rightarrow> safety_db
     \<Rightarrow> safety_error + bool \<times> safety_db" where
  "f07_mark_escalated now execution sc i db =
     (if i = [] then Inl Invalid_Argument
      else (case find_stop db sc i of
          None \<Rightarrow> Inr (False, db)
        | Some k \<Rightarrow>
            if st_escalated k \<noteq> None \<or> st_state k = K_STOPPED then Inr (False, db)
            else Inr (True,
              audit_scope A_ESCALATED (case execution of Some e \<Rightarrow> e | None \<Rightarrow> ''SYSTEM'')
                sc i execution ''ESCALATED''
                (update_stop sc i (\<lambda>k. k\<lparr> st_escalated := Some now \<rparr>) db))))"

section \<open>The reconciler\<close>

record reconcile_result =
  rc_acknowledged :: nat
  rc_stopped :: nat
  rc_skipped :: nat

definition reconcile_row ::
    "millis \<Rightarrow> int \<Rightarrow> (stop_row \<Rightarrow> bool) \<Rightarrow> stop_row \<Rightarrow> reconcile_result \<times> safety_db
     \<Rightarrow> reconcile_result \<times> safety_db" where
  "reconcile_row now grace_ms scope_busy k = (\<lambda>(r, db).
     if scope_busy k then (r\<lparr> rc_skipped := rc_skipped r + 1 \<rparr>, db)
     else if scope_has_live_execution now db (st_scope k) (st_scope_id k) then (r, db)
     else if st_state k = K_REQUESTED then
       (if grace_ms \<le> now - st_requested k then
          (r\<lparr> rc_acknowledged := rc_acknowledged r + 1 \<rparr>,
           audit_scope A_STOP_ACKNOWLEDGED ''SYSTEM'' (st_scope k) (st_scope_id k) None ''RECONCILED''
             (update_stop (st_scope k) (st_scope_id k)
               (\<lambda>k. k\<lparr> st_state := K_ACKNOWLEDGED, st_acknowledged := Some now \<rparr>) db))
        else (r, db))
     else
       (r\<lparr> rc_stopped := rc_stopped r + 1 \<rparr>,
        audit_scope A_STOPPED ''SYSTEM'' (st_scope k) (st_scope_id k) None ''RECONCILED''
          (update_stop (st_scope k) (st_scope_id k)
            (\<lambda>k. k\<lparr> st_state := K_STOPPED, st_stopped := Some now \<rparr>) db)))"

text \<open>\<open>row_busy\<close> are the rows another transaction has locked, \<open>scope_busy\<close> the advisory locks taken.\<close>

definition pending_rows :: "(stop_row \<Rightarrow> bool) \<Rightarrow> safety_db \<Rightarrow> stop_row list" where
  "pending_rows row_busy db =
     sort_key (\<lambda>k. (st_requested k, st_id k))
       (filter (\<lambda>k. is_stop_pending (st_state k) \<and> \<not> row_busy k) (sf_stops db))"

definition f07_reconcile_stranded_stops ::
    "millis \<Rightarrow> nat \<Rightarrow> int \<Rightarrow> (stop_row \<Rightarrow> bool) \<Rightarrow> (stop_row \<Rightarrow> bool) \<Rightarrow> safety_db
     \<Rightarrow> safety_error + reconcile_result \<times> safety_db" where
  "f07_reconcile_stranded_stops now limit grace_seconds row_busy scope_busy db =
     (if limit < 1 \<or> 500 < limit \<or> grace_seconds < 0 then Inl Invalid_Argument
      else Inr (fold (reconcile_row now (grace_seconds * 1000) scope_busy)
        (take limit (pending_rows row_busy db))
        (\<lparr> rc_acknowledged = 0, rc_stopped = 0, rc_skipped = 0 \<rparr>, db)))"

section \<open>The TypeScript entry points\<close>

text \<open>\<^verbatim>\<open>kill-switch.ts\<close> passes each call on; a refusal on authority grounds is the closed error.\<close>

definition trigger_stop ::
    "millis \<Rightarrow> string \<Rightarrow> safety_scope \<Rightarrow> string \<Rightarrow> string \<Rightarrow> stop_reason \<Rightarrow> safety_db
     \<Rightarrow> safety_error + trigger_result \<times> safety_db" where
  "trigger_stop now sid sc i by' reason db = f07_trigger_stop now sid sc i by' reason db"

definition acknowledge_stop_by_authority ::
    "millis \<Rightarrow> string \<Rightarrow> safety_db \<Rightarrow> safety_error + bool \<times> safety_db" where
  "acknowledge_stop_by_authority now execution db = f07_ack_stop_by_authority now execution db"

definition acknowledge_stop ::
    "millis \<Rightarrow> string option \<Rightarrow> safety_scope \<Rightarrow> string \<Rightarrow> safety_db
     \<Rightarrow> safety_error + (bool \<times> stop_state option) \<times> safety_db" where
  "acknowledge_stop now execution sc i db = f07_ack_stop now execution sc i db"

definition record_stopped ::
    "millis \<Rightarrow> string option \<Rightarrow> safety_scope \<Rightarrow> string \<Rightarrow> safety_db
     \<Rightarrow> safety_error + stopped_result \<times> safety_db" where
  "record_stopped now execution sc i db = f07_record_stopped now execution sc i db"

definition mark_escalated ::
    "millis \<Rightarrow> string option \<Rightarrow> safety_scope \<Rightarrow> string \<Rightarrow> safety_db
     \<Rightarrow> safety_error + bool \<times> safety_db" where
  "mark_escalated now execution sc i db = f07_mark_escalated now execution sc i db"

lemmas stop_entry_defs =
  trigger_stop_def acknowledge_stop_by_authority_def acknowledge_stop_def record_stopped_def
  mark_escalated_def

lemma update_stop_simps [simp]:
  "sf_targets (update_stop sc i f db) = sf_targets db"
  "sf_environments (update_stop sc i f db) = sf_environments db"
  "sf_operators (update_stop sc i f db) = sf_operators db"
  "sf_scans (update_stop sc i f db) = sf_scans db"
  "sf_grants (update_stop sc i f db) = sf_grants db"
  "sf_leases (update_stop sc i f db) = sf_leases db"
  "sf_consumptions (update_stop sc i f db) = sf_consumptions db"
  "sf_counters (update_stop sc i f db) = sf_counters db"
  by (simp_all add: update_stop_def)

lemma audit_scope_simps [simp]:
  "sf_targets (audit_scope ty a sc i e out db) = sf_targets db"
  "sf_environments (audit_scope ty a sc i e out db) = sf_environments db"
  "sf_operators (audit_scope ty a sc i e out db) = sf_operators db"
  "sf_scans (audit_scope ty a sc i e out db) = sf_scans db"
  "sf_grants (audit_scope ty a sc i e out db) = sf_grants db"
  "sf_stops (audit_scope ty a sc i e out db) = sf_stops db"
  "sf_leases (audit_scope ty a sc i e out db) = sf_leases db"
  "sf_consumptions (audit_scope ty a sc i e out db) = sf_consumptions db"
  "sf_counters (audit_scope ty a sc i e out db) = sf_counters db"
  by (simp_all add: audit_scope_def)

end
