(* ===== verification/Authorization.thy ===== *)
theory Authorization
  imports Stops
begin

text \<open>
  The authorization decision (\<^verbatim>\<open>derive-state.ts\<close>, \<^verbatim>\<open>check.ts\<close>) and the life of a grant
  (\<^verbatim>\<open>create.ts\<close>, \<^verbatim>\<open>narrow.ts\<close>, \<^verbatim>\<open>revoke.ts\<close>, \<^verbatim>\<open>classify-environment.ts\<close>) of
  \<^verbatim>\<open>apps/api/src/services/authorization\<close>.  Rows are typed, so the run-time shape tests of
  \<^verbatim>\<open>isUsable\<close> hold of every row; the live control level is what \<^verbatim>\<open>reconfirmControl\<close> returned, an
  argument.
\<close>

section \<open>Derived state\<close>

datatype authorization_state = AZ_REVOKED | AZ_EXPIRED | AZ_BUDGET_EXHAUSTED | AZ_ACTIVE

record budget_consumption =
  bc_requests :: int
  bc_concurrency :: int

definition is_budget_exhausted :: "grant_row \<Rightarrow> budget_consumption \<Rightarrow> bool" where
  "is_budget_exhausted g c =
     (if bc_requests c < 0 \<or> bc_concurrency c < 0 then True
      else gr_requests g \<le> bc_requests c \<or> gr_concurrency g \<le> bc_concurrency c)"

definition derive_state :: "grant_row \<Rightarrow> millis \<Rightarrow> budget_consumption option \<Rightarrow> authorization_state" where
  "derive_state g now c =
     (if gr_revoked g \<noteq> None then AZ_REVOKED
      else if gr_expires g \<le> now then AZ_EXPIRED
      else (case c of
          None \<Rightarrow> AZ_ACTIVE
        | Some b \<Rightarrow> if is_budget_exhausted g b then AZ_BUDGET_EXHAUSTED else AZ_ACTIVE))"

section \<open>The check\<close>

datatype authz_refusal =
    RF_REVOKED
  | RF_EXPIRED
  | RF_OUT_OF_SCOPE
  | RF_ENVIRONMENT
  | RF_BUDGET_EXHAUSTED

datatype authz_result =
    Authorized string
  | Authz_Refused authz_refusal string
  | No_Matching_Grant

fun refusal_depth :: "authz_refusal \<Rightarrow> nat" where
  "refusal_depth RF_REVOKED = 1"
| "refusal_depth RF_EXPIRED = 1"
| "refusal_depth RF_OUT_OF_SCOPE = 2"
| "refusal_depth RF_ENVIRONMENT = 3"
| "refusal_depth RF_BUDGET_EXHAUSTED = 4"

record check_input =
  ci_target :: string
  ci_user :: user_id
  ci_class :: execution_class
  ci_destination :: destination
  ci_now :: millis
  ci_consumption :: "string \<Rightarrow> budget_consumption option"

definition evaluate_grant ::
    "(string \<Rightarrow> string) \<Rightarrow> check_input \<Rightarrow> environment option \<Rightarrow> grant_row \<Rightarrow> authz_result" where
  "evaluate_grant to_ascii x env g =
     (let state = derive_state g (ci_now x) (ci_consumption x (gr_id g)) in
      if state = AZ_REVOKED then Authz_Refused RF_REVOKED (gr_id g)
      else if state = AZ_EXPIRED then Authz_Refused RF_EXPIRED (gr_id g)
      else if \<not> is_in_scope to_ascii (gr_scope g) (ci_destination x)
      then Authz_Refused RF_OUT_OF_SCOPE (gr_id g)
      else if (case env of None \<Rightarrow> True | Some e \<Rightarrow> e \<notin> set (gr_environments g))
      then Authz_Refused RF_ENVIRONMENT (gr_id g)
      else if state = AZ_BUDGET_EXHAUSTED then Authz_Refused RF_BUDGET_EXHAUSTED (gr_id g)
      else Authorized (gr_id g))"

text \<open>The loop over the candidates, with the refusal that got furthest so far.\<close>

fun check_loop ::
    "(string \<Rightarrow> string) \<Rightarrow> check_input \<Rightarrow> environment option \<Rightarrow> (authz_refusal \<times> string) option
     \<Rightarrow> grant_row list \<Rightarrow> authz_result" where
  "check_loop to_ascii x env furthest [] =
     (case furthest of None \<Rightarrow> No_Matching_Grant | Some (r, g) \<Rightarrow> Authz_Refused r g)"
| "check_loop to_ascii x env furthest (g # gs) =
     (case evaluate_grant to_ascii x env g of
        Authorized i \<Rightarrow> Authorized i
      | No_Matching_Grant \<Rightarrow> check_loop to_ascii x env furthest gs
      | Authz_Refused r i \<Rightarrow>
          check_loop to_ascii x env
            (case furthest of
               None \<Rightarrow> Some (r, i)
             | Some (r0, i0) \<Rightarrow> if refusal_depth r0 < refusal_depth r then Some (r, i) else Some (r0, i0))
            gs)"

definition candidate_grants :: "safety_db \<Rightarrow> check_input \<Rightarrow> grant_row list" where
  "candidate_grants db x =
     sort_key (\<lambda>g. (- gr_granted g, gr_id g))
       (filter (\<lambda>g. gr_target g = ci_target x \<and> gr_user g = ci_user x \<and> ci_class x \<in> set (gr_classes g))
         (sf_grants db))"

text \<open>The environment of the target, read through its owner.\<close>

definition read_environment :: "safety_db \<Rightarrow> check_input \<Rightarrow> environment option" where
  "read_environment db x =
     (if target_owner db (ci_target x) = Some (ci_user x)
      then sf_environments db (ci_target x) else None)"

definition is_authorized :: "(string \<Rightarrow> string) \<Rightarrow> safety_db \<Rightarrow> check_input \<Rightarrow> authz_result" where
  "is_authorized to_ascii db x =
     check_loop to_ascii x (read_environment db x) None (candidate_grants db x)"

section \<open>Creating a grant\<close>

datatype authorization_error =
    Not_Found
  | Control_Level_Required
  | Execution_Classes_Invalid
  | Environment_Restriction_Invalid
  | Production_Not_Permitted
  | Budget_Out_Of_Range
  | Scope_Kind_Mismatch
  | Scope_Malformed
  | Scope_Not_Bounded
  | Grant_Not_Active
  | Stop_Failed safety_error

record budgets =
  bu_requests :: int
  bu_concurrency :: int
  bu_duration :: int

record create_input =
  cr_target :: string
  cr_user :: user_id
  cr_classes :: "execution_class list"
  cr_scope :: scope_definition
  cr_environments :: "environment list"
  cr_budgets :: budgets

definition production_forbidden_classes :: "execution_class list" where
  "production_forbidden_classes = [X_ACTIVE_SECURITY, X_AUTHENTICATED_WORKFLOW, X_LOAD_CAPACITY]"

definition validate_classes_and_environment :: "create_input \<Rightarrow> authorization_error option" where
  "validate_classes_and_environment i =
     (if cr_classes i = [] \<or> \<not> distinct (cr_classes i) then Some Execution_Classes_Invalid
      else if cr_environments i = [] then Some Environment_Restriction_Invalid
      else if PRODUCTION \<in> set (cr_environments i)
              \<and> list_ex (\<lambda>c. c \<in> set production_forbidden_classes) (cr_classes i)
      then Some Production_Not_Permitted
      else None)"

definition within :: "int \<Rightarrow> int \<Rightarrow> int \<Rightarrow> bool" where
  "within lo hi v = (lo \<le> v \<and> v \<le> hi)"

definition validate_budgets :: "budgets \<Rightarrow> authorization_error option" where
  "validate_budgets b =
     (if within 1 1000000 (bu_requests b) \<and> within 1 1000 (bu_concurrency b)
         \<and> within 1 2592000 (bu_duration b)
      then None else Some Budget_Out_Of_Range)"

definition expected_kind :: "input_type \<Rightarrow> scope_kind" where
  "expected_kind t = (if t = URL then WEB else REPO)"

definition scope_shape_ok :: "scope_definition \<Rightarrow> bool" where
  "scope_shape_ok s =
     (list_all (within 1 65535) (sd_ports s)
      \<and> list_all (\<lambda>x. x = ''http'' \<or> x = ''https'') (sd_schemes s)
      \<and> (if sd_kind s = WEB
         then sd_repository s = None \<and> sd_included_refs s = [] \<and> sd_excluded_refs s = []
         else sd_repository s \<noteq> None \<and> sd_repository s \<noteq> Some []
              \<and> sd_included_hosts s = [] \<and> sd_excluded_hosts s = []
              \<and> sd_schemes s = [] \<and> sd_ports s = []))"

definition validate_grant_request ::
    "(string \<Rightarrow> string) \<Rightarrow> (string \<Rightarrow> string option) \<Rightarrow> control_level \<Rightarrow> safety_db \<Rightarrow> create_input
     \<Rightarrow> authorization_error + target_row" where
  "validate_grant_request to_ascii url_hostname control db i =
     (case List.find (\<lambda>t. tg_id t = cr_target i \<and> tg_user t = cr_user i) (sf_targets db) of
        None \<Rightarrow> Inl Not_Found
      | Some t \<Rightarrow>
          if control_level_rank control < control_level_rank C_ATTESTED then Inl Control_Level_Required
          else (case validate_classes_and_environment i of
              Some e \<Rightarrow> Inl e
            | None \<Rightarrow>
                (case validate_budgets (cr_budgets i) of
                   Some e \<Rightarrow> Inl e
                 | None \<Rightarrow>
                     if sd_kind (cr_scope i) \<noteq> expected_kind (tg_input t) then Inl Scope_Kind_Mismatch
                     else if \<not> scope_shape_ok (cr_scope i) then Inl Scope_Malformed
                     else if \<not> scope_bounded to_ascii url_hostname (cr_scope i) (tg_canonical t)
                     then Inl Scope_Not_Bounded
                     else Inr t)))"

definition log_entry :: "string \<Rightarrow> string \<Rightarrow> string \<Rightarrow> safety_db \<Rightarrow> safety_db" where
  "log_entry actor action subject db =
     db\<lparr> sf_log := sf_log db @ [\<lparr> lg_actor = actor, lg_action = action, lg_subject = subject \<rparr>] \<rparr>"

definition insert_grant ::
    "string \<Rightarrow> millis \<Rightarrow> create_input \<Rightarrow> target_row \<Rightarrow> safety_db \<Rightarrow> grant_row \<times> safety_db" where
  "insert_grant gid now i t db =
     (let g = \<lparr> gr_id = gid, gr_target = tg_id t, gr_user = cr_user i, gr_classes = cr_classes i,
                gr_environments = cr_environments i, gr_requests = bu_requests (cr_budgets i),
                gr_concurrency = bu_concurrency (cr_budgets i), gr_duration = bu_duration (cr_budgets i),
                gr_granted = now, gr_expires = now + bu_duration (cr_budgets i) * 1000,
                gr_revoked = None, gr_scope = cr_scope i \<rparr> in
      (g, log_entry (cr_user i) ''authorization.granted'' gid
            (db\<lparr> sf_grants := sf_grants db @ [g] \<rparr>)))"

definition create_authorization ::
    "(string \<Rightarrow> string) \<Rightarrow> (string \<Rightarrow> string option) \<Rightarrow> control_level \<Rightarrow> string \<Rightarrow> millis
     \<Rightarrow> create_input \<Rightarrow> safety_db \<Rightarrow> authorization_error + grant_row \<times> safety_db" where
  "create_authorization to_ascii url_hostname control gid now i db =
     (case validate_grant_request to_ascii url_hostname control db i of
        Inl e \<Rightarrow> Inl e
      | Inr t \<Rightarrow> Inr (insert_grant gid now i t db))"

section \<open>Ending a grant\<close>

definition revoke_row :: "millis \<Rightarrow> grant_row \<Rightarrow> grant_row" where
  "revoke_row now g = g\<lparr> gr_revoked := Some now \<rparr>"

text \<open>One transaction.  \<open>claimed\<close> is the caller's operator claim, \<open>now\<close> the service's clock and
  \<open>db_now\<close> the database's; the conditional write can only lose to a concurrent revocation, and the
  transaction reads the row it writes.\<close>

definition revoke_authorization ::
    "millis \<Rightarrow> millis \<Rightarrow> string \<Rightarrow> string \<Rightarrow> user_id \<Rightarrow> bool \<Rightarrow> safety_db
     \<Rightarrow> authorization_error + grant_row \<times> safety_db" where
  "revoke_authorization now db_now sid gid acting claimed db =
     (let operator = (claimed \<and> acting \<in> set (sf_operators db)) in
      (case List.find (\<lambda>g. gr_id g = gid \<and> (operator \<or> gr_user g = acting)) (sf_grants db) of
         None \<Rightarrow> Inl Not_Found
       | Some g \<Rightarrow>
           if gr_revoked g \<noteq> None \<or> gr_expires g \<le> now then Inr (g, db)
           else
             let db1 = db\<lparr> sf_grants := update_rows gr_id gid (revoke_row now) (sf_grants db) \<rparr>;
                 db2 = log_entry acting
                         (if operator \<and> gr_user g \<noteq> acting then ''authorization.revoked_by_operator''
                          else ''authorization.revoked'') gid db1 in
             (case trigger_stop db_now sid SC_GRANT gid ''SYSTEM'' AUTHORIZATION_REVOKED db2 of
                Inl e \<Rightarrow> Inl (Stop_Failed e)
              | Inr (_, db3) \<Rightarrow> Inr (revoke_row now g, db3))))"

section \<open>Narrowing a grant\<close>

record partial_budgets =
  pb_requests :: "int option"
  pb_concurrency :: "int option"
  pb_duration :: "int option"

definition narrow_to :: "int \<Rightarrow> int option \<Rightarrow> int option" where
  "narrow_to ceiling requested =
     (case requested of
        None \<Rightarrow> Some ceiling
      | Some v \<Rightarrow> if v < 1 \<or> ceiling < v then None else Some v)"

definition narrowed_budgets :: "grant_row \<Rightarrow> partial_budgets \<Rightarrow> millis \<Rightarrow> budgets option" where
  "narrowed_budgets g p now =
     (let remaining = max 1 (min (gr_duration g) ((gr_expires g - now) div 1000)) in
      (case (narrow_to (gr_requests g) (pb_requests p),
             narrow_to (gr_concurrency g) (pb_concurrency p),
             narrow_to remaining (pb_duration p)) of
         (Some r, Some c, Some d) \<Rightarrow> Some \<lparr> bu_requests = r, bu_concurrency = c, bu_duration = d \<rparr>
       | _ \<Rightarrow> None))"

text \<open>The replacement's transaction: the conditional write decides the race with a concurrent
  revocation or narrowing.\<close>

definition live_grant :: "millis \<Rightarrow> string \<Rightarrow> user_id \<Rightarrow> grant_row \<Rightarrow> bool" where
  "live_grant now gid acting r =
     (gr_id r = gid \<and> gr_user r = acting \<and> gr_revoked r = None \<and> now < gr_expires r)"

definition replace_grant ::
    "string \<Rightarrow> millis \<Rightarrow> string \<Rightarrow> user_id \<Rightarrow> create_input \<Rightarrow> target_row \<Rightarrow> safety_db
     \<Rightarrow> authorization_error + grant_row \<times> safety_db" where
  "replace_grant new_gid now gid acting i t db =
     (if \<not> list_ex (live_grant now gid acting) (sf_grants db) then Inl Grant_Not_Active
      else
        let db1 = db\<lparr> sf_grants :=
                    map (\<lambda>r. if live_grant now gid acting r then revoke_row now r else r) (sf_grants db) \<rparr>;
            (n, db2) = insert_grant new_gid now i t db1 in
        Inr (n, log_entry acting ''authorization.replaced'' gid db2))"

text \<open>The original and the request are read and validated on \<open>seen\<close>, before the transaction on \<open>db\<close>.\<close>

definition narrow_authorization ::
    "(string \<Rightarrow> string) \<Rightarrow> (string \<Rightarrow> string option) \<Rightarrow> control_level \<Rightarrow> string \<Rightarrow> millis
     \<Rightarrow> string \<Rightarrow> user_id \<Rightarrow> scope_definition \<Rightarrow> partial_budgets \<Rightarrow> safety_db \<Rightarrow> safety_db
     \<Rightarrow> authorization_error + grant_row \<times> safety_db" where
  "narrow_authorization to_ascii url_hostname control new_gid now gid acting scope p seen db =
     (case List.find (\<lambda>g. gr_id g = gid \<and> gr_user g = acting) (sf_grants seen) of
        None \<Rightarrow> Inl Not_Found
      | Some g \<Rightarrow>
          if gr_revoked g \<noteq> None \<or> gr_expires g \<le> now then Inl Grant_Not_Active
          else (case narrowed_budgets g p now of
              None \<Rightarrow> Inl Budget_Out_Of_Range
            | Some b \<Rightarrow>
                let i = \<lparr> cr_target = gr_target g, cr_user = acting, cr_classes = gr_classes g,
                          cr_scope = scope, cr_environments = gr_environments g, cr_budgets = b \<rparr> in
                (case validate_grant_request to_ascii url_hostname control seen i of
                   Inl e \<Rightarrow> Inl e
                 | Inr t \<Rightarrow> replace_grant new_gid now gid acting i t db)))"

section \<open>Classifying the environment\<close>

fun trigger_all ::
    "millis \<Rightarrow> (string \<Rightarrow> string) \<Rightarrow> string list \<Rightarrow> safety_db \<Rightarrow> authorization_error + safety_db" where
  "trigger_all db_now new_id [] db = Inr db"
| "trigger_all db_now new_id (g # gs) db =
     (case trigger_stop db_now (new_id g) SC_GRANT g ''SYSTEM'' ENVIRONMENT_RECLASSIFIED db of
        Inl e \<Rightarrow> Inl (Stop_Failed e)
      | Inr (_, db') \<Rightarrow> trigger_all db_now new_id gs db')"

definition classify_environment ::
    "millis \<Rightarrow> millis \<Rightarrow> (string \<Rightarrow> string) \<Rightarrow> string \<Rightarrow> user_id \<Rightarrow> environment \<Rightarrow> safety_db
     \<Rightarrow> authorization_error + safety_db" where
  "classify_environment now db_now new_id t acting env db =
     (case List.find (\<lambda>r. tg_id r = t \<and> tg_user r = acting) (sf_targets db) of
        None \<Rightarrow> Inl Not_Found
      | Some _ \<Rightarrow>
          let existing = sf_environments db t;
              db1 = log_entry acting
                (if existing = None then ''environment.classified'' else ''environment.reclassified'') t
                (db\<lparr> sf_environments := (sf_environments db)(t := Some env) \<rparr>) in
          if existing \<noteq> None \<and> existing \<noteq> Some env then
            trigger_all db_now new_id
              (map gr_id (filter (\<lambda>g. gr_target g = t \<and> gr_user g = acting \<and> gr_revoked g = None
                                    \<and> now < gr_expires g \<and> env \<notin> set (gr_environments g))
                           (sf_grants db1))) db1
          else Inr db1)"

end
