(* ===== verification/Checkpoint.thy ===== *)
theory Checkpoint
  imports Authorization
begin

text \<open>
  The TypeScript layer over the database functions: \<^verbatim>\<open>safety/admission.ts\<close>,
  \<^verbatim>\<open>safety/checkpoint.ts\<close>, \<^verbatim>\<open>safety/budget-counter.ts\<close> and \<^verbatim>\<open>failClosed\<close> of \<^verbatim>\<open>safety/db.ts\<close>.
  \<open>broken\<close> says that a statement of the transaction fails; a failed transaction leaves the database
  as it was and yields the fail-closed value.  A checkpoint is several transactions: \<open>env k\<close> is what
  other writers do before its \<open>k\<close>-th one.
\<close>

section \<open>Failing closed\<close>

definition fail_closed :: "bool \<Rightarrow> 'a \<Rightarrow> ('a \<times> safety_db) option \<Rightarrow> safety_db \<Rightarrow> 'a \<times> safety_db" where
  "fail_closed broken on_error outcome db =
     (if broken then (on_error, db) else (case outcome of None \<Rightarrow> (on_error, db) | Some r \<Rightarrow> r))"

section \<open>Admission\<close>

record admission_request =
  ar_target :: string
  ar_class :: execution_class
  ar_destination :: destination
  ar_execution :: string
  ar_scan :: "string option"
  ar_key :: string
  ar_request :: bool
  ar_concurrency :: bool

definition load_budget_consumption ::
    "safety_db \<Rightarrow> string \<Rightarrow> user_id \<Rightarrow> string \<Rightarrow> budget_consumption option" where
  "load_budget_consumption db t u g =
     (if grant_of db g t u \<noteq> None \<and> target_owner db t = Some u then
        map_option (\<lambda>c. \<lparr> bc_requests = ct_requests c, bc_concurrency = ct_active c \<rparr>) (find_counter db g)
      else None)"

fun refusal_reason :: "authz_refusal \<Rightarrow> admission_refusal" where
  "refusal_reason RF_REVOKED = REVOKED"
| "refusal_reason RF_EXPIRED = EXPIRED"
| "refusal_reason RF_OUT_OF_SCOPE = OUT_OF_SCOPE"
| "refusal_reason RF_ENVIRONMENT = ENVIRONMENT_UNCLASSIFIED_OR_NOT_PERMITTED"
| "refusal_reason RF_BUDGET_EXHAUSTED = BUDGET_EXHAUSTED_REQUEST"

fun refusal_text :: "admission_refusal \<Rightarrow> string" where
  "refusal_text NO_MATCHING_GRANT = ''NO_MATCHING_GRANT''"
| "refusal_text REVOKED = ''REVOKED''"
| "refusal_text EXPIRED = ''EXPIRED''"
| "refusal_text OUT_OF_SCOPE = ''OUT_OF_SCOPE''"
| "refusal_text ENVIRONMENT_UNCLASSIFIED_OR_NOT_PERMITTED = ''ENVIRONMENT_UNCLASSIFIED_OR_NOT_PERMITTED''"
| "refusal_text BUDGET_EXHAUSTED_REQUEST = ''BUDGET_EXHAUSTED_REQUEST''"
| "refusal_text BUDGET_EXHAUSTED_CONCURRENCY = ''BUDGET_EXHAUSTED_CONCURRENCY''"
| "refusal_text KILL_SWITCH_PENDING = ''KILL_SWITCH_PENDING''"
| "refusal_text EXECUTION_ALREADY_LEASED = ''EXECUTION_ALREADY_LEASED''"
| "refusal_text INTERNAL_ERROR = ''INTERNAL_ERROR''"

definition refuse_admission ::
    "admission_request \<Rightarrow> user_id \<Rightarrow> admission_refusal \<Rightarrow> string option
     \<Rightarrow> (safety_scope \<times> string) option \<Rightarrow> safety_db \<Rightarrow> admission_result \<times> safety_db" where
  "refuse_admission r u reason grant extra db =
     (Refused reason extra,
      audit A_ADMISSION_REFUSED u (Some (ar_target r)) grant (ar_scan r) (Some (ar_execution r))
        (refusal_text reason) db)"

definition request_args :: "admission_request \<Rightarrow> string \<Rightarrow> admit_args" where
  "request_args r g =
     \<lparr> aa_target = ar_target r, aa_grant = g, aa_execution = ar_execution r, aa_scan = ar_scan r,
       aa_key = ar_key r, aa_request = ar_request r, aa_concurrency = ar_concurrency r \<rparr>"

definition request_identity :: "admission_request \<Rightarrow> user_id \<Rightarrow> string \<Rightarrow> safety_identity" where
  "request_identity r u g =
     \<lparr> id_execution = ar_execution r, id_scan = ar_scan r, id_grant = g,
       id_target = ar_target r, id_user = u \<rparr>"

text \<open>\<open>now\<close> is the clock read for the authorization, \<open>now2\<close> the one \<^verbatim>\<open>f07_admit\<close> reads.  F01's budget
  verdict is an advisory read: the locked check decides.\<close>

definition admit ::
    "(string \<Rightarrow> string) \<Rightarrow> millis \<Rightarrow> millis \<Rightarrow> string \<Rightarrow> string \<Rightarrow> admission_request \<Rightarrow> safety_db
     \<Rightarrow> (admission_result \<times> safety_db) option" where
  "admit to_ascii now now2 lid token r db =
     (case target_owner db (ar_target r) of
        None \<Rightarrow> Some (Refused NO_MATCHING_GRANT None, db)
      | Some u \<Rightarrow>
          (case stop_pending db (request_identity r u []) of
             Some k \<Rightarrow> Some (refuse_admission r u KILL_SWITCH_PENDING None
                        (Some (st_scope k, st_scope_id k)) db)
           | None \<Rightarrow>
               (case is_authorized to_ascii db
                   \<lparr> ci_target = ar_target r, ci_user = u, ci_class = ar_class r,
                     ci_destination = ar_destination r, ci_now = now,
                     ci_consumption = load_budget_consumption db (ar_target r) u \<rparr> of
                  Authorized g \<Rightarrow> f07_admit now2 lid token (request_args r g) db
                | Authz_Refused reason g \<Rightarrow>
                    if reason = RF_BUDGET_EXHAUSTED then f07_admit now2 lid token (request_args r g) db
                    else Some (refuse_admission r u (refusal_reason reason) (Some g) None db)
                | No_Matching_Grant \<Rightarrow> Some (refuse_admission r u NO_MATCHING_GRANT None None db))))"

definition request_admission ::
    "bool \<Rightarrow> (string \<Rightarrow> string) \<Rightarrow> millis \<Rightarrow> millis \<Rightarrow> string \<Rightarrow> string \<Rightarrow> admission_request \<Rightarrow> safety_db
     \<Rightarrow> admission_result \<times> safety_db" where
  "request_admission broken to_ascii now now2 lid token r db =
     (if ar_target r = [] \<or> ar_execution r = [] \<or> ar_key r = [] \<or> \<not> ar_request r \<and> \<not> ar_concurrency r
      then (Refused INTERNAL_ERROR None, db)
      else fail_closed broken (Refused INTERNAL_ERROR None)
             (admit to_ascii now now2 lid token r db) db)"

section \<open>Leases\<close>

definition renew_lease :: "bool \<Rightarrow> millis \<Rightarrow> string \<Rightarrow> string \<Rightarrow> safety_db \<Rightarrow> renew_result \<times> safety_db" where
  "renew_lease broken now lid token db =
     fail_closed broken Uncertain (Some (f07_renew_lease now lid token db)) db"

definition release_lease_by_token ::
    "millis \<Rightarrow> string \<Rightarrow> string \<Rightarrow> bool \<Rightarrow> safety_db \<Rightarrow> bool \<times> safety_db" where
  "release_lease_by_token now lid token completed db =
     f07_release_lease_by_token now lid token completed db"

definition release_leases_by_execution :: "millis \<Rightarrow> string \<Rightarrow> safety_db \<Rightarrow> (nat \<times> safety_db) option" where
  "release_leases_by_execution now execution db = f07_release_leases_by_execution now execution db"

section \<open>The checkpoint\<close>

datatype checkpoint_reason = CK_Refused admission_refusal | CK_LEASE_FENCED | CK_STATE_UNCERTAIN

datatype checkpoint_result =
    Proceed string "(string \<times> string) option"
  | Stop checkpoint_reason "(safety_scope \<times> string) option"

record held_lease =
  hl_grant :: string
  hl_lease :: string
  hl_token :: string

text \<open>The fresh authorization of a held lease.  An environment refusal also requests a stop of the
  execution; if that write fails the state is uncertain.\<close>

definition recheck_authorization ::
    "bool \<Rightarrow> (string \<Rightarrow> string) \<Rightarrow> millis \<Rightarrow> string \<Rightarrow> admission_request \<Rightarrow> safety_db
     \<Rightarrow> checkpoint_reason option \<times> safety_db" where
  "recheck_authorization broken to_ascii now sid r db =
     (if broken then (Some CK_STATE_UNCERTAIN, db)
      else (case target_owner db (ar_target r) of
          None \<Rightarrow> (Some (CK_Refused NO_MATCHING_GRANT), db)
        | Some u \<Rightarrow>
            (case is_authorized to_ascii db
                \<lparr> ci_target = ar_target r, ci_user = u, ci_class = ar_class r,
                  ci_destination = ar_destination r, ci_now = now, ci_consumption = (\<lambda>_. None) \<rparr> of
               Authorized _ \<Rightarrow> (None, db)
             | No_Matching_Grant \<Rightarrow> (Some (CK_Refused NO_MATCHING_GRANT), db)
             | Authz_Refused reason _ \<Rightarrow>
                 if reason = RF_BUDGET_EXHAUSTED then (None, db)
                 else if reason = RF_ENVIRONMENT then
                   (case trigger_stop now sid SC_EXECUTION (ar_execution r) ''SYSTEM''
                           ENVIRONMENT_RECLASSIFIED db of
                      Inl _ \<Rightarrow> (Some CK_STATE_UNCERTAIN, db)
                    | Inr (_, db') \<Rightarrow>
                        (Some (CK_Refused ENVIRONMENT_UNCLASSIFIED_OR_NOT_PERMITTED), db'))
                 else (Some (CK_Refused (refusal_reason reason)), db))))"

text \<open>\<open>Inl ()\<close> is the uncertain read.\<close>

definition pending_stop_for ::
    "bool \<Rightarrow> admission_request \<Rightarrow> string \<Rightarrow> safety_db \<Rightarrow> unit + stop_row option" where
  "pending_stop_for broken r grant db =
     (if broken then Inl ()
      else (case target_owner db (ar_target r) of
          None \<Rightarrow> Inr None
        | Some u \<Rightarrow> Inr (stop_pending db (request_identity r u grant))))"

record checkpoint_call =
  cc_now :: "nat \<Rightarrow> millis"
  cc_broken :: "nat \<Rightarrow> bool"
  cc_env :: "nat \<Rightarrow> safety_db \<Rightarrow> safety_db"
  cc_fresh :: "nat \<Rightarrow> string"

definition checkpoint_held ::
    "(string \<Rightarrow> string) \<Rightarrow> checkpoint_call \<Rightarrow> admission_request \<Rightarrow> held_lease \<Rightarrow> safety_db
     \<Rightarrow> checkpoint_result \<times> safety_db" where
  "checkpoint_held to_ascii c r h db0 =
     (let db = cc_env c 0 db0 in
      (case pending_stop_for (cc_broken c 0) r (hl_grant h) db of
         Inl _ \<Rightarrow> (Stop CK_STATE_UNCERTAIN None, db)
       | Inr (Some k) \<Rightarrow> (Stop (CK_Refused KILL_SWITCH_PENDING) (Some (st_scope k, st_scope_id k)), db)
       | Inr None \<Rightarrow>
           (case recheck_authorization (cc_broken c 1) to_ascii (cc_now c 1) (cc_fresh c 1) r
                   (cc_env c 1 db) of
              (Some reason, db1) \<Rightarrow> (Stop reason None, db1)
            | (None, db1) \<Rightarrow>
                (case renew_lease (cc_broken c 2) (cc_now c 2) (hl_lease h) (hl_token h)
                        (cc_env c 2 db1) of
                   (Renewed _, db2) \<Rightarrow> (Proceed (hl_grant h) (Some (hl_lease h, hl_token h)), db2)
                 | (Stop_Pending sc i, db2) \<Rightarrow> (Stop (CK_Refused KILL_SWITCH_PENDING) (Some (sc, i)), db2)
                 | (Grant_Invalid reason, db2) \<Rightarrow> (Stop (CK_Refused reason) None, db2)
                 | (Uncertain, db2) \<Rightarrow> (Stop CK_STATE_UNCERTAIN None, db2)
                 | (Fenced, db2) \<Rightarrow> (Stop CK_LEASE_FENCED None, db2)))))"

definition checkpoint_fresh ::
    "(string \<Rightarrow> string) \<Rightarrow> checkpoint_call \<Rightarrow> admission_request \<Rightarrow> safety_db
     \<Rightarrow> checkpoint_result \<times> safety_db" where
  "checkpoint_fresh to_ascii c r db =
     (case request_admission (cc_broken c 0) to_ascii (cc_now c 0) (cc_now c 1) (cc_fresh c 0)
             (cc_fresh c 1) r (cc_env c 0 db) of
        (Granted g lease _, db') \<Rightarrow> (Proceed g lease, db')
      | (Refused reason extra, db') \<Rightarrow>
          (Stop (if reason = INTERNAL_ERROR then CK_STATE_UNCERTAIN else CK_Refused reason) extra, db'))"

text \<open>The answer, and whether the caller's controller was aborted: exactly when the answer is a stop.\<close>

definition safety_checkpoint ::
    "(string \<Rightarrow> string) \<Rightarrow> checkpoint_call \<Rightarrow> admission_request \<Rightarrow> held_lease option \<Rightarrow> safety_db
     \<Rightarrow> (checkpoint_result \<times> bool) \<times> safety_db" where
  "safety_checkpoint to_ascii c r held db =
     (let (res, db') = (case held of
            Some h \<Rightarrow> checkpoint_held to_ascii c r h db
          | None \<Rightarrow> checkpoint_fresh to_ascii c r db) in
      ((res, case res of Proceed _ _ \<Rightarrow> False | Stop _ _ \<Rightarrow> True), db'))"

section \<open>Sweeps\<close>

definition default_ack_grace_seconds :: int where
  "default_ack_grace_seconds = 30"

definition reclaim_expired_leases ::
    "millis \<Rightarrow> (string \<Rightarrow> bool) \<Rightarrow> nat \<Rightarrow> safety_db \<Rightarrow> (reclaim_result \<times> safety_db) option" where
  "reclaim_expired_leases now busy limit db = f07_reclaim_expired_leases now busy limit db"

definition reconcile_stranded_stops ::
    "millis \<Rightarrow> (stop_row \<Rightarrow> bool) \<Rightarrow> (stop_row \<Rightarrow> bool) \<Rightarrow> nat option \<Rightarrow> int option \<Rightarrow> safety_db
     \<Rightarrow> safety_error + reconcile_result \<times> safety_db" where
  "reconcile_stranded_stops now row_busy scope_busy limit grace db =
     f07_reconcile_stranded_stops now
       (case limit of Some n \<Rightarrow> n | None \<Rightarrow> 50)
       (case grace of Some s \<Rightarrow> s | None \<Rightarrow> default_ack_grace_seconds)
       row_busy scope_busy db"

end
