(* ===== verification/Safety_Inv.thy ===== *)
theory Safety_Inv
  imports Checkpoint
begin

text \<open>
  The bookkeeping of admission.  A grant's counter is a cache of two counts: the leases that hold a
  slot and the requests consumed.  \<open>safety_ok\<close> says that the cache is exact, that no grant is over
  its budgets, and that the live leases of one execution share their idempotency key; every
  operation keeps it.
\<close>

section \<open>The invariant\<close>

definition active_of :: "safety_db \<Rightarrow> string \<Rightarrow> int" where
  "active_of db g = (case find_counter db g of Some c \<Rightarrow> ct_active c | None \<Rightarrow> 0)"

definition requests_of :: "safety_db \<Rightarrow> string \<Rightarrow> int" where
  "requests_of db g = (case find_counter db g of Some c \<Rightarrow> ct_requests c | None \<Rightarrow> 0)"

definition consumed_of :: "safety_db \<Rightarrow> string \<Rightarrow> int" where
  "consumed_of db g = int (length (filter (\<lambda>c. co_grant c = g) (sf_consumptions db)))"

definition cache_exact :: "safety_db \<Rightarrow> bool" where
  "cache_exact db = (\<forall>g. active_of db g = slots_of db g \<and> requests_of db g = consumed_of db g)"

definition within_budgets :: "safety_db \<Rightarrow> bool" where
  "within_budgets db =
     list_all (\<lambda>g. 1 \<le> gr_requests g \<and> 1 \<le> gr_concurrency g
       \<and> active_of db (gr_id g) \<le> gr_concurrency g \<and> requests_of db (gr_id g) \<le> gr_requests g)
       (sf_grants db)"

definition one_key_live :: "millis \<Rightarrow> safety_db \<Rightarrow> bool" where
  "one_key_live t db =
     (\<forall>a \<in> set (sf_leases db). \<forall>b \<in> set (sf_leases db).
        is_live t a \<and> is_live t b \<and> ls_execution a = ls_execution b \<longrightarrow> ls_key a = ls_key b)"

definition keys_unique :: "safety_db \<Rightarrow> bool" where
  "keys_unique db =
     (distinct (map ls_id (sf_leases db)) \<and> distinct (map gr_id (sf_grants db))
      \<and> distinct (map (\<lambda>l. (ls_grant l, ls_key l)) (sf_leases db))
      \<and> set (map ls_grant (sf_leases db)) \<union> set (map co_grant (sf_consumptions db))
          \<subseteq> set (map gr_id (sf_grants db)))"

definition safety_ok :: "millis \<Rightarrow> safety_db \<Rightarrow> bool" where
  "safety_ok t db = (cache_exact db \<and> within_budgets db \<and> one_key_live t db \<and> keys_unique db)"

lemma one_key_live_cong: "sf_leases a = sf_leases b \<Longrightarrow> one_key_live t a \<longleftrightarrow> one_key_live t b"
  by (simp only: one_key_live_def)

text \<open>Nothing but the leases, consumptions, counters and grants matters.\<close>

definition same_books :: "safety_db \<Rightarrow> safety_db \<Rightarrow> bool" where
  "same_books a b =
     (sf_leases a = sf_leases b \<and> sf_consumptions a = sf_consumptions b
      \<and> sf_counters a = sf_counters b \<and> sf_grants a = sf_grants b)"

lemma same_booksD:
  assumes "same_books a b"
  shows "find_counter a g = find_counter b g" "active_of a g = active_of b g"
    "requests_of a g = requests_of b g" "slots_of a g = slots_of b g" "consumed_of a g = consumed_of b g"
  using assms
  by (simp_all add: same_books_def find_counter_def active_of_def requests_of_def slots_of_def consumed_of_def)

lemma safety_ok_cong:
  assumes "sf_leases a = sf_leases b" "sf_grants a = sf_grants b"
    "sf_consumptions a = sf_consumptions b" "active_of a = active_of b" "requests_of a = requests_of b"
  shows "safety_ok t a \<longleftrightarrow> safety_ok t b"
  unfolding safety_ok_def cache_exact_def within_budgets_def one_key_live_def keys_unique_def
    slots_of_def consumed_of_def
  by (simp only: assms)

lemma safety_ok_same_books: "same_books a b \<Longrightarrow> safety_ok t b \<Longrightarrow> safety_ok t a"
  using same_booksD(2,3) [of a b] safety_ok_cong [of a b t]
  by (simp add: same_books_def fun_eq_iff)

lemma same_books_refl [simp]: "same_books a a"
  by (simp add: same_books_def)

lemma same_books_audit [simp]:
  "same_books (audit ty x t g s e out a) b \<longleftrightarrow> same_books a b"
  "same_books (audit_scope ty x sc i e out a) b \<longleftrightarrow> same_books a b"
  "same_books (update_stop sc i f a) b \<longleftrightarrow> same_books a b"
  "same_books (log_entry x y z a) b \<longleftrightarrow> same_books a b"
  "same_books (a\<lparr> sf_stops := ss \<rparr>) b \<longleftrightarrow> same_books a b"
  "same_books (a\<lparr> sf_environments := es \<rparr>) b \<longleftrightarrow> same_books a b"
  by (simp_all add: same_books_def log_entry_def)

lemma one_key_live_later: "one_key_live t db \<Longrightarrow> t \<le> t' \<Longrightarrow> one_key_live t' db"
  unfolding one_key_live_def is_live_def by (meson order_le_less_trans)

lemma safety_ok_later: "safety_ok t db \<Longrightarrow> t \<le> t' \<Longrightarrow> safety_ok t' db"
  by (auto simp: safety_ok_def intro: one_key_live_later)

section \<open>Counters\<close>

lemma find_counter_simps [simp]:
  "find_counter (audit ty a t g s e out db) x = find_counter db x"
  "find_counter (db\<lparr> sf_leases := ls \<rparr>) x = find_counter db x"
  "find_counter (db\<lparr> sf_consumptions := cs \<rparr>) x = find_counter db x"
  "find_counter (db\<lparr> sf_grants := gs \<rparr>) x = find_counter db x"
  by (simp_all add: find_counter_def)

lemma find_counter_update:
  assumes "\<And>c. ct_grant (f c) = ct_grant c"
  shows "find_counter (update_counter g f db) x =
    (if x = g then map_option f (find_counter db x) else find_counter db x)"
  using assms by (simp add: find_counter_def update_counter_def row_simps)

lemma find_row_Cons [simp]:
  "find_row key i (r # rs) = (if key r = i then Some r else find_row key i rs)"
  by (simp add: find_row_def)

lemma find_row_Nil [simp]: "find_row key i [] = None"
  by (simp add: find_row_def)

lemma find_counter_ensure:
  "find_counter (ensure_counter g u db) x =
     (if x = g \<and> find_counter db g = None
      then Some \<lparr> ct_grant = g, ct_user = u, ct_requests = 0, ct_active = 0 \<rparr>
      else find_counter db x)"
  by (cases "find_row ct_grant g (sf_counters db)")
    (simp_all add: ensure_counter_def find_counter_def find_row_append split: option.split)

lemma ensure_counter_simps [simp]:
  "sf_leases (ensure_counter g u db) = sf_leases db"
  "sf_consumptions (ensure_counter g u db) = sf_consumptions db"
  "sf_grants (ensure_counter g u db) = sf_grants db"
  "sf_stops (ensure_counter g u db) = sf_stops db"
  "sf_targets (ensure_counter g u db) = sf_targets db"
  "sf_environments (ensure_counter g u db) = sf_environments db"
  "sf_operators (ensure_counter g u db) = sf_operators db"
  "sf_scans (ensure_counter g u db) = sf_scans db"
  by (simp_all add: ensure_counter_def split: option.split)

lemma update_counter_simps [simp]:
  "sf_leases (update_counter g f db) = sf_leases db"
  "sf_consumptions (update_counter g f db) = sf_consumptions db"
  "sf_grants (update_counter g f db) = sf_grants db"
  "sf_stops (update_counter g f db) = sf_stops db"
  "sf_targets (update_counter g f db) = sf_targets db"
  "sf_environments (update_counter g f db) = sf_environments db"
  "sf_operators (update_counter g f db) = sf_operators db"
  "sf_scans (update_counter g f db) = sf_scans db"
  by (simp_all add: update_counter_def)

lemma ensure_counter_counts [simp]:
  "active_of (ensure_counter g u db) x = active_of db x"
  "requests_of (ensure_counter g u db) x = requests_of db x"
  "slots_of (ensure_counter g u db) x = slots_of db x"
  "consumed_of (ensure_counter g u db) x = consumed_of db x"
  by (auto simp: active_of_def requests_of_def find_counter_ensure slots_of_def consumed_of_def
      split: option.splits)

lemma safety_ok_ensure: "safety_ok t db \<Longrightarrow> safety_ok t (ensure_counter g u db)"
  by (subst safety_ok_cong [of _ db]) (simp_all add: fun_eq_iff)

section \<open>The effect of an admission on the books\<close>

lemma counts_consume:
  assumes "find_counter db (aa_grant a) \<noteq> None"
  shows "active_of (consume_request a u db) x = active_of db x"
    and "requests_of (consume_request a u db) x = requests_of db x + (if x = aa_grant a then 1 else 0)"
    and "slots_of (consume_request a u db) x = slots_of db x"
    and "consumed_of (consume_request a u db) x = consumed_of db x + (if x = aa_grant a then 1 else 0)"
  using assms
  by (auto simp: consume_request_def active_of_def requests_of_def slots_of_def consumed_of_def
      find_counter_update)

lemma counts_reserve:
  assumes "find_counter db (aa_grant a) \<noteq> None"
  shows "active_of (reserve_slot now lid tok a u db) x = active_of db x + (if x = aa_grant a then 1 else 0)"
    and "requests_of (reserve_slot now lid tok a u db) x = requests_of db x"
    and "slots_of (reserve_slot now lid tok a u db) x = slots_of db x + (if x = aa_grant a then 1 else 0)"
    and "consumed_of (reserve_slot now lid tok a u db) x = consumed_of db x"
  using assms
  by (auto simp: reserve_slot_def active_of_def requests_of_def slots_of_def consumed_of_def
      find_counter_update new_lease_def holds_slot_def)

lemma find_counter_consume:
  "find_counter (consume_request a u db) x \<noteq> None \<longleftrightarrow> find_counter db x \<noteq> None"
  by (auto simp: consume_request_def find_counter_update)

lemma consume_request_simps [simp]:
  "sf_leases (consume_request a u db) = sf_leases db"
  "sf_grants (consume_request a u db) = sf_grants db"
  "sf_stops (consume_request a u db) = sf_stops db"
  "sf_targets (consume_request a u db) = sf_targets db"
  "sf_consumptions (consume_request a u db) = sf_consumptions db @
     [\<lparr> co_grant = aa_grant a, co_user = u, co_execution = aa_execution a, co_key = aa_key a \<rparr>]"
  by (simp_all add: consume_request_def)

lemma reserve_slot_simps [simp]:
  "sf_leases (reserve_slot now lid tok a u db) = sf_leases db @ [new_lease now lid tok a u]"
  "sf_grants (reserve_slot now lid tok a u db) = sf_grants db"
  "sf_stops (reserve_slot now lid tok a u db) = sf_stops db"
  "sf_targets (reserve_slot now lid tok a u db) = sf_targets db"
  "sf_consumptions (reserve_slot now lid tok a u db) = sf_consumptions db"
  by (simp_all add: reserve_slot_def)

lemma new_lease_simps [simp]:
  "ls_id (new_lease now lid tok a u) = lid" "ls_grant (new_lease now lid tok a u) = aa_grant a"
  "ls_key (new_lease now lid tok a u) = aa_key a"
  "ls_execution (new_lease now lid tok a u) = aa_execution a"
  "ls_user (new_lease now lid tok a u) = u" "ls_target (new_lease now lid tok a u) = aa_target a"
  "ls_scan (new_lease now lid tok a u) = aa_scan a" "ls_token (new_lease now lid tok a u) = tok"
  "ls_expires (new_lease now lid tok a u) = now + lease_ms"
  "holds_slot (new_lease now lid tok a u)"
  by (simp_all add: new_lease_def holds_slot_def)

end
