(* ===== verification/Safety_Keep.thy ===== *)
theory Safety_Keep
  imports Safety_Inv
begin

text \<open>Every operation of the safety foundation keeps \<open>safety_ok\<close>.\<close>

section \<open>Admission\<close>

lemma within_budgetsI:
  assumes "distinct (map gr_id (sf_grants db))" "within_budgets db" "g \<in> set (sf_grants db)"
    and "sf_grants db' = sf_grants db"
    and "\<And>x. x \<noteq> gr_id g \<Longrightarrow> active_of db' x \<le> active_of db x"
    and "\<And>x. x \<noteq> gr_id g \<Longrightarrow> requests_of db' x \<le> requests_of db x"
    and "active_of db' (gr_id g) \<le> gr_concurrency g" "requests_of db' (gr_id g) \<le> gr_requests g"
  shows "within_budgets db'"
  unfolding within_budgets_def list_all_iff
proof
  fix x assume x: "x \<in> set (sf_grants db')"
  then have x': "x \<in> set (sf_grants db)" using assms(4) by simp
  have old: "1 \<le> gr_requests x" "1 \<le> gr_concurrency x" "active_of db (gr_id x) \<le> gr_concurrency x"
    "requests_of db (gr_id x) \<le> gr_requests x"
    using assms(2) x' by (simp_all add: within_budgets_def list_all_iff)
  show "1 \<le> gr_requests x \<and> 1 \<le> gr_concurrency x \<and> active_of db' (gr_id x) \<le> gr_concurrency x
      \<and> requests_of db' (gr_id x) \<le> gr_requests x"
  proof (cases "gr_id x = gr_id g")
    case True
    then have "x = g" using assms(1,3) x' by (auto simp: distinct_map dest: inj_onD)
    with assms(7,8) old show ?thesis by simp
  next
    case False
    with assms(5,6) [of "gr_id x"] old show ?thesis by force
  qed
qed

lemma safety_okD:
  assumes "safety_ok t db"
  shows "within_budgets db" and "distinct (map gr_id (sf_grants db))"
    and "g \<in> set (sf_grants db) \<Longrightarrow> active_of db (gr_id g) \<le> gr_concurrency g"
    and "g \<in> set (sf_grants db) \<Longrightarrow> requests_of db (gr_id g) \<le> gr_requests g"
  using assms by (auto simp: safety_ok_def keys_unique_def within_budgets_def list_all_iff)

lemma safety_ok_consume:
  assumes ok: "safety_ok t db" and c: "find_counter db (aa_grant a) \<noteq> None"
    and g: "g \<in> set (sf_grants db)" "gr_id g = aa_grant a"
    and room: "requests_of db (aa_grant a) + 1 \<le> gr_requests g"
  shows "safety_ok t (consume_request a u db)"
proof -
  let ?d = "consume_request a u db"
  have gin: "aa_grant a \<in> gr_id ` set (sf_grants db)" using g by (metis image_eqI)
  have "cache_exact ?d" using ok by (simp add: safety_ok_def cache_exact_def counts_consume [OF c])
  moreover have "within_budgets ?d"
    by (rule within_budgetsI [OF safety_okD(2,1) [OF ok] g(1)])
      (use safety_okD(3) [OF ok g(1)] g(2) room in \<open>simp_all add: counts_consume [OF c]\<close>)
  moreover have "one_key_live t ?d"
    using ok one_key_live_cong [of ?d db] by (simp add: safety_ok_def)
  moreover have "keys_unique ?d" using ok gin by (simp add: safety_ok_def keys_unique_def)
  ultimately show ?thesis by (simp add: safety_ok_def)
qed

lemma one_key_liveD:
  "one_key_live t db \<Longrightarrow> x \<in> set (sf_leases db) \<Longrightarrow> y \<in> set (sf_leases db) \<Longrightarrow> is_live t x \<Longrightarrow>
   is_live t y \<Longrightarrow> ls_execution x = ls_execution y \<Longrightarrow> ls_key x = ls_key y"
  unfolding one_key_live_def by blast

lemma one_key_liveI:
  "(\<And>x y. x \<in> set (sf_leases db) \<Longrightarrow> y \<in> set (sf_leases db) \<Longrightarrow> is_live t x \<Longrightarrow> is_live t y \<Longrightarrow>
     ls_execution x = ls_execution y \<Longrightarrow> ls_key x = ls_key y) \<Longrightarrow> one_key_live t db"
  unfolding one_key_live_def by blast

lemma one_key_live_append:
  assumes old: "one_key_live t db"
    and new: "\<And>l. l \<in> set (sf_leases db) \<Longrightarrow> is_live t l \<Longrightarrow> ls_execution l = ls_execution n \<Longrightarrow> ls_key l = ls_key n"
    and db': "sf_leases db' = sf_leases db @ [n]"
  shows "one_key_live t db'"
proof (rule one_key_liveI)
  fix x y
  assume xy: "x \<in> set (sf_leases db')" "y \<in> set (sf_leases db')" "is_live t x" "is_live t y"
    "ls_execution x = ls_execution y"
  have "x \<in> set (sf_leases db) \<or> x = n" "y \<in> set (sf_leases db) \<or> y = n"
    using xy(1,2) db' by auto
  then show "ls_key x = ls_key y"
    using xy(3-5) old new one_key_liveD [OF old, of x y] new [of x] new [of y] by metis
qed

lemma safety_ok_reserve:
  assumes ok: "safety_ok t db" and c: "find_counter db (aa_grant a) \<noteq> None"
    and g: "g \<in> set (sf_grants db)" "gr_id g = aa_grant a"
    and room: "active_of db (aa_grant a) + 1 \<le> gr_concurrency g"
    and fresh: "lid \<notin> ls_id ` set (sf_leases db)"
    and key: "\<forall>l \<in> set (sf_leases db). \<not> (ls_grant l = aa_grant a \<and> ls_key l = aa_key a)"
    and only: "\<And>l. l \<in> set (sf_leases db) \<Longrightarrow> is_live t l \<Longrightarrow> ls_execution l = aa_execution a \<Longrightarrow> ls_key l = aa_key a"
  shows "safety_ok t (reserve_slot now lid tok a u db)"
proof -
  let ?d = "reserve_slot now lid tok a u db"
  have gin: "aa_grant a \<in> gr_id ` set (sf_grants db)" using g by (metis image_eqI)
  have "cache_exact ?d" using ok by (simp add: safety_ok_def cache_exact_def counts_reserve [OF c])
  moreover have "within_budgets ?d"
    by (rule within_budgetsI [OF safety_okD(2,1) [OF ok] g(1)])
      (use safety_okD(4) [OF ok g(1)] g(2) room in \<open>simp_all add: counts_reserve [OF c]\<close>)
  moreover have "one_key_live t ?d"
  proof (rule one_key_live_append [of t db "new_lease now lid tok a u"])
    show "one_key_live t db" using ok by (simp add: safety_ok_def)
  qed (use only in \<open>simp_all\<close>)
  moreover have "keys_unique ?d" using ok gin fresh key by (auto simp: safety_ok_def keys_unique_def)
  ultimately show ?thesis by (simp add: safety_ok_def)
qed

lemma safety_ok_admit_under_counter:
  assumes ok: "safety_ok now db" and g: "g \<in> set (sf_grants db)" "gr_id g = aa_grant a"
    and fresh: "lid \<notin> ls_id ` set (sf_leases db)"
    and run: "admit_under_counter now lid tok a u g db = (res, db')"
  shows "safety_ok now db'"
proof -
  let ?e = "ensure_counter (aa_grant a) u db"
  have oke: "safety_ok now ?e" using ok by (rule safety_ok_ensure)
  have ce: "find_counter ?e (aa_grant a) \<noteq> None" by (simp add: find_counter_ensure)
  let ?d1 = "if aa_request a then consume_request a u ?e else ?e"
  let ?d2 = "if aa_concurrency a then reserve_slot now lid tok a u ?d1 else ?d1"
  consider (same) "same_books db' ?e"
    | (granted) "same_books db' ?d2"
        "List.find (\<lambda>l. ls_grant l = aa_grant a \<and> ls_key l = aa_key a) (sf_leases ?e) = None"
        "aa_concurrency a \<longrightarrow> \<not> list_ex (\<lambda>l. ls_execution l = aa_execution a \<and> is_live now l
            \<and> ls_key l \<noteq> aa_key a) (sf_leases ?e)"
        "aa_request a \<longrightarrow> requests_of ?e (aa_grant a) + 1 \<le> gr_requests g"
        "aa_concurrency a \<longrightarrow> active_of ?e (aa_grant a) + 1 \<le> gr_concurrency g"
    using run unfolding admit_under_counter_def Let_def active_of_def requests_of_def
    by (auto simp: not_less split: if_splits)
  then show ?thesis
  proof cases
    case same
    then show ?thesis using oke by (rule safety_ok_same_books)
  next
    case granted
    have ok1: "safety_ok now ?d1"
      using oke ce g granted(4) by (auto intro: safety_ok_consume)
    have "safety_ok now ?d2"
    proof (cases "aa_concurrency a")
      case True
      have "safety_ok now (reserve_slot now lid tok a u ?d1)"
      proof (rule safety_ok_reserve [OF ok1 _ _ g(2)])
        show "find_counter ?d1 (aa_grant a) \<noteq> None" using ce find_counter_consume [of a u ?e "aa_grant a"] by simp
        show "active_of ?d1 (aa_grant a) + 1 \<le> gr_concurrency g"
          using granted(5) True counts_consume(1) [OF ce] by simp
        show "\<forall>l \<in> set (sf_leases ?d1). \<not> (ls_grant l = aa_grant a \<and> ls_key l = aa_key a)"
          using granted(2) by (auto simp: find_None_iff)
        show "ls_key l = aa_key a" if "l \<in> set (sf_leases ?d1)" "is_live now l"
          "ls_execution l = aa_execution a" for l
          using granted(3) True that by (auto simp: list_ex_iff split: if_splits)
      qed (use g fresh in simp_all)
      with True show ?thesis by simp
    next
      case False
      with ok1 show ?thesis by simp
    qed
    with granted(1) show ?thesis by (rule safety_ok_same_books)
  qed
qed

lemma grant_of_SomeD:
  "grant_of db i t u = Some g \<Longrightarrow> g \<in> set (sf_grants db) \<and> gr_id g = i \<and> gr_target g = t \<and> gr_user g = u"
  by (auto simp: grant_of_def find_Some_iff)

lemma safety_ok_f07_admit:
  assumes ok: "safety_ok now db" and fresh: "lid \<notin> ls_id ` set (sf_leases db)"
    and run: "f07_admit now lid tok a db = Some (res, db')"
  shows "safety_ok now db'"
proof -
  consider "same_books db' db"
    | u g where "grant_of db (aa_grant a) (aa_target a) u = Some g"
        "admit_under_counter now lid tok a u g db = (res, db')"
    using run unfolding f07_admit_def Let_def
    by (auto split: option.splits if_splits)
  then show ?thesis
  proof cases
    case 1
    then show ?thesis using ok by (rule safety_ok_same_books)
  next
    case 2
    then show ?thesis using grant_of_SomeD [OF 2(1)]
      by (intro safety_ok_admit_under_counter [OF ok _ _ fresh 2(2)]) auto
  qed
qed

lemma safety_ok_request_admission:
  assumes ok: "safety_ok now2 db" and fresh: "lid \<notin> ls_id ` set (sf_leases db)"
    and run: "request_admission broken to_ascii now now2 lid tok r db = (res, db')"
  shows "safety_ok now2 db'"
proof -
  consider "same_books db' db" | a where "f07_admit now2 lid tok a db = Some (res, db')"
    using run unfolding request_admission_def fail_closed_def admit_def Let_def refuse_admission_def
    by (auto split: option.splits if_splits authz_result.splits prod.splits)
  then show ?thesis
    by cases (use ok fresh safety_ok_same_books safety_ok_f07_admit in blast)+
qed

section \<open>Renewal and release\<close>

text \<open>Rewriting lease rows in place: neither the grants, keys and executions nor the row identities
  change, and no lease becomes live.\<close>

definition keeps_row :: "(lease_row \<Rightarrow> lease_row) \<Rightarrow> bool" where
  "keeps_row f =
     (\<forall>l. ls_id (f l) = ls_id l \<and> ls_grant (f l) = ls_grant l \<and> ls_key (f l) = ls_key l
        \<and> ls_execution (f l) = ls_execution l)"

lemma keeps_rowD:
  assumes "keeps_row f"
  shows "ls_id (f l) = ls_id l" "ls_grant (f l) = ls_grant l" "ls_key (f l) = ls_key l"
    "ls_execution (f l) = ls_execution l"
  using assms by (simp_all add: keeps_row_def)

lemma safety_ok_rewrite:
  assumes ok: "safety_ok t db" and f: "keeps_row f"
    and leases: "sf_leases db' = map f (sf_leases db)"
    and same: "sf_grants db' = sf_grants db" "sf_consumptions db' = sf_consumptions db"
    and req: "\<And>x. requests_of db' x = requests_of db x"
    and exact: "\<And>x. active_of db' x = slots_of db' x"
    and fewer: "\<And>x. slots_of db' x \<le> slots_of db x"
    and live: "\<And>l. l \<in> set (sf_leases db) \<Longrightarrow> is_live t (f l) \<Longrightarrow> is_live t l"
  shows "safety_ok t db'"
proof -
  have act: "active_of db x = slots_of db x" "requests_of db x = consumed_of db x" for x
    using ok by (auto simp: safety_ok_def cache_exact_def)
  have "consumed_of db' x = consumed_of db x" for x by (simp add: consumed_of_def same)
  then have "cache_exact db'" using act req exact by (simp add: cache_exact_def)
  moreover have "within_budgets db'"
    unfolding within_budgets_def list_all_iff same
  proof
    fix x assume "x \<in> set (sf_grants db)"
    with safety_okD(1) [OF ok] have "1 \<le> gr_requests x \<and> 1 \<le> gr_concurrency x
        \<and> active_of db (gr_id x) \<le> gr_concurrency x \<and> requests_of db (gr_id x) \<le> gr_requests x"
      by (simp add: within_budgets_def list_all_iff)
    then show "1 \<le> gr_requests x \<and> 1 \<le> gr_concurrency x
        \<and> active_of db' (gr_id x) \<le> gr_concurrency x \<and> requests_of db' (gr_id x) \<le> gr_requests x"
      using exact [of "gr_id x"] fewer [of "gr_id x"] act(1) [of "gr_id x"] req [of "gr_id x"] by simp
  qed
  moreover have "one_key_live t db'"
  proof (rule one_key_liveI)
    fix x y
    assume "x \<in> set (sf_leases db')" "y \<in> set (sf_leases db')" and xy: "is_live t x" "is_live t y"
      "ls_execution x = ls_execution y"
    then obtain a b where ab: "a \<in> set (sf_leases db)" "b \<in> set (sf_leases db)" "x = f a" "y = f b"
      by (auto simp: leases)
    have old: "one_key_live t db" using ok by (simp add: safety_ok_def)
    show "ls_key x = ls_key y"
      using one_key_liveD [OF old ab(1,2)] live ab xy by (simp add: keeps_rowD [OF f])
  qed
  moreover have "keys_unique db'"
    using ok by (simp add: safety_ok_def keys_unique_def leases same comp_def keeps_rowD [OF f]
        image_image)
  ultimately show ?thesis by (simp add: safety_ok_def)
qed

lemma safety_ok_renew:
  assumes ok: "safety_ok now db" and run: "f07_renew_lease now lid tok db = (res, db')"
  shows "safety_ok now db'"
proof (cases "\<exists>l. find_row ls_id lid (sf_leases db) = Some l \<and> is_live now l \<and> res = Renewed (now + lease_ms)
    \<and> db' = db\<lparr> sf_leases := update_rows ls_id lid (\<lambda>r. r\<lparr> ls_expires := now + lease_ms \<rparr>) (sf_leases db) \<rparr>")
  case True
  then obtain l where l: "find_row ls_id lid (sf_leases db) = Some l" "is_live now l"
    and db': "db' = db\<lparr> sf_leases := update_rows ls_id lid (\<lambda>r. r\<lparr> ls_expires := now + lease_ms \<rparr>)
                  (sf_leases db) \<rparr>"
    by auto
  let ?f = "\<lambda>r. if ls_id r = lid then r\<lparr> ls_expires := now + lease_ms \<rparr> else r"
  have slots: "slots_of db' x = slots_of db x" for x
    unfolding slots_of_def db' update_rows_def
    by (simp add: filter_map comp_def holds_slot_def if_distrib [of ls_grant] if_distrib [of ls_released]
        if_distrib [of ls_reclaimed] cong: if_cong)
  have counts: "active_of db' x = active_of db x" "requests_of db' x = requests_of db x" for x
    by (simp_all add: db' active_of_def requests_of_def)
  show ?thesis
  proof (rule safety_ok_rewrite [OF ok, of ?f])
    show "keeps_row ?f" by (simp add: keeps_row_def)
    show "sf_leases db' = map ?f (sf_leases db)" by (simp add: db' update_rows_def)
    show "active_of db' x = slots_of db' x" for x
      using ok by (simp add: counts slots safety_ok_def cache_exact_def)
    show "is_live now k" if "k \<in> set (sf_leases db)" "is_live now (?f k)" for k
    proof (cases "ls_id k = lid")
      case True
      then have "k = l"
        using that(1) l(1) find_row_SomeD [OF l(1)] ok
        by (auto simp: safety_ok_def keys_unique_def distinct_map dest: inj_onD)
      with l(2) show ?thesis by simp
    qed (use that in simp)
    show "requests_of db' x = requests_of db x" "slots_of db' x \<le> slots_of db x" for x
      by (simp_all only: counts slots order_refl)
  qed (simp_all add: db')
next
  case False
  then have "same_books db' db"
    using run unfolding f07_renew_lease_def
    by (auto split: option.splits if_splits)
  then show ?thesis using ok by (rule safety_ok_same_books)
qed

text \<open>Taking leases that hold a slot of one grant off that grant.\<close>

lemma marked_slots:
  fixes hit :: "lease_row \<Rightarrow> bool"
  assumes "\<And>l. l \<in> set ls \<Longrightarrow> hit l \<Longrightarrow> ls_grant l = g \<and> holds_slot l"
    and "\<And>l. ls_grant (f l) = ls_grant l" and "\<And>l. \<not> holds_slot (f l)"
  shows "int (length (filter (\<lambda>l. ls_grant l = x \<and> holds_slot l) (map (\<lambda>l. if hit l then f l else l) ls)))
     = int (length (filter (\<lambda>l. ls_grant l = x \<and> holds_slot l) ls))
       - (if x = g then int (length (filter hit ls)) else 0)"
  using assms by (induction ls) auto

lemma safety_ok_mark:
  assumes ok: "safety_ok t db" and f: "keeps_row f" and gone: "\<And>l. \<not> holds_slot (f l)"
    and hit: "\<And>l. l \<in> set (sf_leases db) \<Longrightarrow> hit l \<Longrightarrow> ls_grant l = g \<and> holds_slot l"
    and leases: "sf_leases db' = map (\<lambda>l. if hit l then f l else l) (sf_leases db)"
    and same: "sf_grants db' = sf_grants db" "sf_consumptions db' = sf_consumptions db"
    and req: "\<And>x. requests_of db' x = requests_of db x"
    and act: "\<And>x. active_of db' x = active_of db x
                 - (if x = g then int (length (filter hit (sf_leases db))) else 0)"
  shows "safety_ok t db'"
proof -
  have slots: "slots_of db' x = slots_of db x
      - (if x = g then int (length (filter hit (sf_leases db))) else 0)" for x
    unfolding slots_of_def leases
    by (rule marked_slots [of "sf_leases db" hit g f x]) (use hit keeps_rowD(2) [OF f] gone in auto)
  show ?thesis
  proof (rule safety_ok_rewrite [OF ok, of "\<lambda>l. if hit l then f l else l"])
    show "keeps_row (\<lambda>l. if hit l then f l else l)"
      using f by (simp add: keeps_row_def)
    show "active_of db' x = slots_of db' x" for x
      using ok by (simp add: act slots safety_ok_def cache_exact_def)
    show "is_live t l" if "is_live t (if hit l then f l else l)" for l
      using that gone by (auto simp: is_live_def split: if_splits)
  qed (use leases same req in \<open>simp_all add: slots\<close>)
qed

lemma active_drop:
  assumes "active_of db g \<ge> n" "0 < n"
  shows "active_of (update_counter g (drop_active n) db) x = active_of db x - (if x = g then n else 0)"
    and "requests_of (update_counter g (drop_active n) db) x = requests_of db x"
  using assms
  by (auto simp: active_of_def requests_of_def find_counter_update drop_active_def split: option.splits)

lemma length_filter_key:
  "distinct (map key rows) \<Longrightarrow> r \<in> set rows \<Longrightarrow> length (filter (\<lambda>x. key x = key r) rows) = 1"
proof (induction rows)
  case (Cons y ys)
  show ?case
  proof (cases "key y = key r")
    case True
    with Cons.prems have "filter (\<lambda>x. key x = key r) ys = []"
      by (auto simp: filter_empty_conv) (metis image_eqI)+
    with True show ?thesis by simp
  next
    case False
    with Cons show ?thesis by auto
  qed
qed simp

lemma safety_ok_release_token:
  assumes ok: "safety_ok t db" and run: "f07_release_lease_by_token now lid tok completed db = (res, db')"
  shows "safety_ok t db'"
proof (cases "\<exists>l. find_row ls_id lid (sf_leases db) = Some l \<and> holds_slot l \<and> ls_token l = tok")
  case False
  then have "db' = db" using run unfolding f07_release_lease_by_token_def
    by (auto split: option.splits if_splits)
  with ok show ?thesis by simp
next
  case True
  then obtain l where l: "find_row ls_id lid (sf_leases db) = Some l" "holds_slot l" "ls_token l = tok"
    by blast
  let ?hit = "\<lambda>r. ls_id r = lid"
  let ?f = "\<lambda>r. r\<lparr> ls_released := Some now \<rparr>"
  let ?m = "db\<lparr> sf_leases := update_rows ls_id lid ?f (sf_leases db) \<rparr>"
  let ?d = "update_counter (ls_grant l) (drop_active 1) ?m"
  have same: "same_books db' ?d"
    using run l unfolding f07_release_lease_by_token_def Let_def by (auto split: if_splits)
  have lin: "l \<in> set (sf_leases db)" "ls_id l = lid" using find_row_SomeD [OF l(1)] by auto
  have ids: "distinct (map ls_id (sf_leases db))" using ok by (simp add: safety_ok_def keys_unique_def)
  have only: "k = l" if "k \<in> set (sf_leases db)" "ls_id k = lid" for k
    using that lin ids by (auto simp: distinct_map dest: inj_onD)
  have one: "length (filter ?hit (sf_leases db)) = 1"
    using length_filter_key [OF ids lin(1)] lin(2) by simp
  have pos: "1 \<le> slots_of db (ls_grant l)"
  proof -
    have "l \<in> set (filter (\<lambda>k. ls_grant k = ls_grant l \<and> holds_slot k) (sf_leases db))"
      using lin l(2) by simp
    then have "0 < length (filter (\<lambda>k. ls_grant k = ls_grant l \<and> holds_slot k) (sf_leases db))"
      by (metis length_pos_if_in_set)
    then have "Suc 0 \<le> length (filter (\<lambda>k. ls_grant k = ls_grant l \<and> holds_slot k) (sf_leases db))"
      by (rule Suc_leI)
    then show ?thesis unfolding slots_of_def by linarith
  qed
  have am: "active_of ?m x = active_of db x" "requests_of ?m x = requests_of db x" for x
    by (simp_all add: active_of_def requests_of_def)
  have big: "1 \<le> active_of ?m (ls_grant l)"
    using pos ok am by (simp add: safety_ok_def cache_exact_def)
  have "safety_ok t ?d"
  proof (rule safety_ok_mark [OF ok, of ?f ?hit "ls_grant l"])
    show "keeps_row ?f" by (simp add: keeps_row_def)
    show "\<not> holds_slot (?f k)" for k by (simp add: holds_slot_def)
    show "ls_grant k = ls_grant l \<and> holds_slot k" if "k \<in> set (sf_leases db)" "ls_id k = lid" for k
      using only [OF that] l(2) by simp
    show "sf_leases ?d = map (\<lambda>k. if ls_id k = lid then ?f k else k) (sf_leases db)"
      by (simp add: update_rows_def)
    show "requests_of ?d x = requests_of db x" for x using active_drop(2) [OF big] am by simp
    show "active_of ?d x = active_of db x
        - (if x = ls_grant l then int (length (filter ?hit (sf_leases db))) else 0)" for x
      using active_drop(1) [OF big] am one by simp
  qed simp_all
  with same show ?thesis by (rule safety_ok_same_books)
qed

lemma same_books_trans: "same_books a b \<Longrightarrow> same_books b c \<Longrightarrow> same_books a c"
  by (simp add: same_books_def)

lemma same_books_audit_each [simp]: "same_books (audit_each x out ls a) b \<longleftrightarrow> same_books a b"
proof -
  have "same_books (audit_each x out ls a) b = same_books a b" for a
    unfolding audit_each_def by (induction ls arbitrary: a) simp_all
  then show ?thesis .
qed

lemma audit_each_books:
  "sf_leases (audit_each x out ls a) = sf_leases a"
  "sf_consumptions (audit_each x out ls a) = sf_consumptions a"
  "sf_counters (audit_each x out ls a) = sf_counters a"
  "sf_grants (audit_each x out ls a) = sf_grants a"
  using same_books_audit_each [of x out ls a a] by (simp_all add: same_books_def)

lemma length_filter_mono: "(\<And>x. P x \<Longrightarrow> Q x) \<Longrightarrow> length (filter P xs) \<le> length (filter Q xs)"
  by (induction xs) (auto intro: le_SucI)

lemma safety_ok_release_grant:
  assumes ok: "safety_ok t db" and run: "release_grant now e g db = (n, db')"
  shows "safety_ok t db'"
proof -
  let ?hit = "\<lambda>l. ls_grant l = g \<and> ls_execution l = e \<and> holds_slot l"
  let ?f = "\<lambda>l. l\<lparr> ls_released := Some now \<rparr>"
  let ?m = "mark_leases ?hit ?f db"
  let ?n = "int (length (filter ?hit (sf_leases db)))"
  let ?d = "if 0 < ?n then update_counter g (drop_active ?n) ?m else ?m"
  have same: "same_books db' ?d"
    using run unfolding release_grant_def Let_def
    by (auto simp: same_books_def update_counter_def split: if_splits)
      (simp_all add: audit_each_books)
  have am: "active_of ?m x = active_of db x" "requests_of ?m x = requests_of db x" for x
    by (simp_all add: active_of_def requests_of_def mark_leases_def)
  have "?n \<le> slots_of db g"
    unfolding slots_of_def by (intro of_nat_mono length_filter_mono) simp
  then have big: "?n \<le> active_of ?m g" using ok am by (simp add: safety_ok_def cache_exact_def)
  have "safety_ok t ?d"
  proof (rule safety_ok_mark [OF ok, of ?f ?hit g])
    show "keeps_row ?f" by (simp add: keeps_row_def)
    show "\<not> holds_slot (?f k)" for k by (simp add: holds_slot_def)
    show "sf_leases ?d = map (\<lambda>l. if ?hit l then ?f l else l) (sf_leases db)"
      by (simp add: mark_leases_def)
    show "sf_grants ?d = sf_grants db" "sf_consumptions ?d = sf_consumptions db"
      by (simp_all add: mark_leases_def)
    show "requests_of ?d x = requests_of db x" for x
      using active_drop(2) [OF big] am by (cases "0 < ?n") simp_all
    show "active_of ?d x = active_of db x - (if x = g then ?n else 0)" for x
      using active_drop(1) [OF big] am by (cases "0 < ?n") simp_all
  qed simp_all
  with same show ?thesis by (rule safety_ok_same_books)
qed

lemma safety_ok_release_grants:
  "safety_ok t db \<Longrightarrow> release_grants now e gs db = (n, db') \<Longrightarrow> safety_ok t db'"
proof (induction gs arbitrary: n db)
  case (Cons g gs)
  obtain k d where d: "release_grant now e g db = (k, d)" by fastforce
  obtain m d2 where d2: "release_grants now e gs d = (m, d2)" by fastforce
  have "db' = d2" using Cons.prems(2) d d2 by simp
  with Cons.IH [OF safety_ok_release_grant [OF Cons.prems(1) d]] d2 show ?case by simp
qed simp

lemma safety_ok_release_execution:
  "safety_ok t db \<Longrightarrow> f07_release_leases_by_execution now e db = Some (n, db') \<Longrightarrow> safety_ok t db'"
  by (auto simp: f07_release_leases_by_execution_def split: if_splits dest: safety_ok_release_grants)

section \<open>Reclaiming\<close>

lemma set_active_counts:
  assumes "find_counter db g \<noteq> None"
  shows "active_of (set_active g db) x = (if x = g then slots_of db g else active_of db x)"
    and "requests_of (set_active g db) x = requests_of db x"
  using assms by (auto simp: set_active_def active_of_def requests_of_def find_counter_update)

lemma set_active_simps [simp]:
  "sf_leases (set_active g db) = sf_leases db"
  "sf_consumptions (set_active g db) = sf_consumptions db"
  "sf_grants (set_active g db) = sf_grants db"
  "sf_stops (set_active g db) = sf_stops db"
  by (simp_all add: set_active_def)

lemma safety_ok_reclaim_grant:
  assumes ok: "safety_ok t db" and run: "reclaim_grant now busy g (r, db) = (r', db')"
  shows "safety_ok t db'"
proof (cases "busy g \<or> find_counter db g = None")
  case True
  then show ?thesis using ok run by (simp add: reclaim_grant_def)
next
  case False
  let ?hit = "\<lambda>l. ls_grant l = g \<and> holds_slot l \<and> ls_expires l \<le> now"
  let ?f = "\<lambda>l. l\<lparr> ls_reclaimed := Some now \<rparr>"
  let ?m = "mark_leases ?hit ?f db"
  let ?a = "audit_each (Some ''SYSTEM'') ''RECLAIMED_EXPIRED'' (filter ?hit (sf_leases db)) ?m"
  have db': "db' = set_active g ?a" using run False by (simp add: reclaim_grant_def Let_def)
  have books: "same_books ?a ?m" by simp
  note eq = same_booksD [OF books]
  have c: "find_counter ?a g \<noteq> None"
    using False eq(1) [of g] by (simp add: mark_leases_def)
  have slots: "slots_of ?m x = slots_of db x
      - (if x = g then int (length (filter ?hit (sf_leases db))) else 0)" for x
  proof -
    have "sf_leases ?m = map (\<lambda>l. if ?hit l then ?f l else l) (sf_leases db)"
      by (simp add: mark_leases_def)
    then show ?thesis
      unfolding slots_of_def by (simp only:) (rule marked_slots, auto simp: holds_slot_def)
  qed
  have am: "active_of ?m x = slots_of db x" "requests_of ?m x = requests_of db x" for x
    using ok by (simp_all add: active_of_def requests_of_def mark_leases_def safety_ok_def cache_exact_def)
  show ?thesis
  proof (rule safety_ok_mark [OF ok, of ?f ?hit g])
    show "keeps_row ?f" by (simp add: keeps_row_def)
    show "\<not> holds_slot (?f k)" for k by (simp add: holds_slot_def)
    show "sf_leases db' = map (\<lambda>l. if ?hit l then ?f l else l) (sf_leases db)"
      using books by (simp add: db' same_books_def mark_leases_def)
    show "sf_grants db' = sf_grants db" "sf_consumptions db' = sf_consumptions db"
      using books by (simp_all add: db' same_books_def mark_leases_def)
    show "requests_of db' x = requests_of db x" for x
      by (simp add: db' set_active_counts [OF c] eq am)
    show "active_of db' x = active_of db x
        - (if x = g then int (length (filter ?hit (sf_leases db))) else 0)" for x
      using ok by (simp add: db' set_active_counts [OF c] eq am slots safety_ok_def cache_exact_def)
  qed simp
qed

lemma safety_ok_reclaim_grants:
  "safety_ok t (snd p) \<Longrightarrow> safety_ok t (snd (fold (reclaim_grant now busy) gs p))"
proof (induction gs arbitrary: p)
  case (Cons g gs)
  have "safety_ok t (snd (reclaim_grant now busy g p))"
    using Cons.prems by (metis safety_ok_reclaim_grant surjective_pairing)
  then show ?case using Cons.IH by simp
qed simp

text \<open>The cache being exact, the drift pass rewrites a counter to the value it has.\<close>

lemma safety_ok_correct_grant:
  assumes ok: "safety_ok t db"
  shows "safety_ok t (snd (correct_grant busy g (r, db)))"
    and "re_corrected (fst (correct_grant busy g (r, db))) = re_corrected r"
proof -
  have act: "active_of db x = slots_of db x" for x
    using ok by (simp add: safety_ok_def cache_exact_def)
  have counts: "active_of (set_active g db) x = active_of db x"
    "requests_of (set_active g db) x = requests_of db x" for x
    using act [of g]
    by (auto simp: set_active_def active_of_def requests_of_def find_counter_update
        split: option.splits)
  have "safety_ok t (set_active g db)"
    using ok by (subst safety_ok_cong [of _ db]) (simp_all add: fun_eq_iff counts)
  then show "safety_ok t (snd (correct_grant busy g (r, db)))"
    using ok by (simp add: correct_grant_def)
  show "re_corrected (fst (correct_grant busy g (r, db))) = re_corrected r"
    using act [of g] by (auto simp: correct_grant_def active_of_def split: option.splits)
qed

lemma safety_ok_correct_grants:
  "safety_ok t (snd p) \<Longrightarrow> safety_ok t (snd (fold (correct_grant busy) gs p))
     \<and> re_corrected (fst (fold (correct_grant busy) gs p)) = re_corrected (fst p)"
proof (induction gs arbitrary: p)
  case (Cons g gs)
  obtain r db where p: "p = (r, db)" by fastforce
  have ok: "safety_ok t db" using Cons.prems p by simp
  show ?case
    using Cons.IH [OF safety_ok_correct_grant(1) [OF ok, of busy g r]]
      safety_ok_correct_grant(2) [OF ok, of busy g r] by (simp add: p)
qed simp

lemma reclaim_grants_corrected:
  "re_corrected (fst (fold (reclaim_grant now busy) gs p)) = re_corrected (fst p)"
proof (induction gs arbitrary: p)
  case (Cons g gs)
  have "re_corrected (fst (reclaim_grant now busy g p)) = re_corrected (fst p)"
    by (cases p) (simp add: reclaim_grant_def Let_def)
  with Cons.IH show ?case by simp
qed simp

lemma safety_ok_reclaim:
  assumes ok: "safety_ok t db" and run: "f07_reclaim_expired_leases now busy limit db = Some (res, db')"
  shows "safety_ok t db'" and "re_corrected res = 0"
proof -
  let ?p = "fold (reclaim_grant now busy) (take limit (slot_grants (\<lambda>l. ls_expires l \<le> now) db))
              (\<lparr> re_reclaimed = 0, re_skipped = 0, re_corrected = 0 \<rparr>, db)"
  have ok1: "safety_ok t (snd ?p)" by (rule safety_ok_reclaim_grants) (simp add: ok)
  have eq: "(res, db') = fold (correct_grant busy) (take limit (drifted (snd ?p))) ?p"
    using run by (simp add: f07_reclaim_expired_leases_def Let_def case_prod_unfold split: if_splits)
  show "safety_ok t db'"
    using safety_ok_correct_grants [OF ok1, of busy "take limit (drifted (snd ?p))"]
    by (metis eq snd_conv)
  show "re_corrected res = 0"
    using safety_ok_correct_grants [OF ok1, of busy "take limit (drifted (snd ?p))"]
      reclaim_grants_corrected [of now busy]
    by (metis eq fst_conv reclaim_result.select_convs(3))
qed

section \<open>Stops and grants\<close>

lemma trigger_stop_books:
  "trigger_stop now sid sc i by' reason db = Inr (r, db') \<Longrightarrow> same_books db' db"
  by (auto simp: trigger_stop_def f07_trigger_stop_def Let_def split: if_splits option.splits)

lemma ack_stop_books: "f07_ack_stop now e sc i db = Inr (r, db') \<Longrightarrow> same_books db' db"
  by (auto simp: f07_ack_stop_def split: if_splits option.splits)

lemma record_stopped_books: "f07_record_stopped now e sc i db = Inr (r, db') \<Longrightarrow> same_books db' db"
  by (auto simp: f07_record_stopped_def split: if_splits option.splits)

lemma mark_escalated_books: "f07_mark_escalated now e sc i db = Inr (r, db') \<Longrightarrow> same_books db' db"
  by (auto simp: f07_mark_escalated_def split: if_splits option.splits)

lemma reconcile_row_books: "same_books (snd (reconcile_row now gr busy k p)) (snd p)"
  by (cases p) (simp add: reconcile_row_def)

lemma reconcile_rows_books: "same_books (snd (fold (reconcile_row now gr busy) ks p)) (snd p)"
proof (induction ks arbitrary: p)
  case (Cons k ks)
  show ?case
    using Cons.IH [of "reconcile_row now gr busy k p"] reconcile_row_books
    by (metis fold_simps(2) same_books_trans)
qed simp

lemma reconcile_books:
  assumes "f07_reconcile_stranded_stops now limit gr row_busy busy db = Inr (r, db')"
  shows "same_books db' db"
proof -
  let ?p = "fold (reconcile_row now (gr * 1000) busy) (take limit (pending_rows row_busy db))
              (\<lparr> rc_acknowledged = 0, rc_stopped = 0, rc_skipped = 0 \<rparr>, db)"
  have "(r, db') = ?p"
    using assms by (simp add: f07_reconcile_stranded_stops_def split: if_splits)
  then have "db' = snd ?p" by (metis snd_conv)
  with reconcile_rows_books show ?thesis by (metis snd_conv)
qed

lemma trigger_all_books: "trigger_all now new_id gs db = Inr db' \<Longrightarrow> same_books db' db"
proof (induction gs arbitrary: db)
  case (Cons g gs)
  then obtain r d where "trigger_stop now (new_id g) SC_GRANT g ''SYSTEM'' ENVIRONMENT_RECLASSIFIED db
      = Inr (r, d)" "trigger_all now new_id gs d = Inr db'"
    by (auto split: sum.splits)
  with Cons.IH show ?case by (meson same_books_trans trigger_stop_books)
qed simp

lemma classify_books:
  assumes "classify_environment now db_now new_id t who env db = Inr db'"
  shows "same_books db' db"
proof -
  have "same_books d db"
    if "trigger_all db_now new_id gs
          (log_entry who act t (db\<lparr> sf_environments := (sf_environments db)(t := Some env) \<rparr>)) = Inr d"
    for gs act d
    using trigger_all_books [OF that] by (rule same_books_trans) simp
  then show ?thesis
    using assms unfolding classify_environment_def Let_def
    by (auto split: option.splits if_splits)
qed

end
