(* ===== verification/Safety_System.thy ===== *)
theory Safety_System
  imports Safety_Keep
begin

text \<open>
  The safety foundation as a system: any sequence of its transactions, each with the clock it
  read, in the order they commit.  The runs keep the books, and a pending stop drains its scope.
\<close>

section \<open>Steps and runs\<close>

inductive safety_step ::
    "(string \<Rightarrow> string) \<Rightarrow> (string \<Rightarrow> string option) \<Rightarrow> millis \<Rightarrow> safety_db \<Rightarrow> safety_db \<Rightarrow> bool"
  for to_ascii url_hostname where
  step_admit: "lid \<notin> ls_id ` set (sf_leases db) \<Longrightarrow>
    request_admission broken to_ascii seen now lid tok r db = (res, db') \<Longrightarrow>
    safety_step to_ascii url_hostname now db db'"
| step_renew: "f07_renew_lease now lid tok db = (res, db') \<Longrightarrow> safety_step to_ascii url_hostname now db db'"
| step_release: "f07_release_lease_by_token now lid tok completed db = (res, db') \<Longrightarrow>
    safety_step to_ascii url_hostname now db db'"
| step_release_all: "f07_release_leases_by_execution now e db = Some (n, db') \<Longrightarrow>
    safety_step to_ascii url_hostname now db db'"
| step_reclaim: "f07_reclaim_expired_leases now busy limit db = Some (rr, db') \<Longrightarrow>
    safety_step to_ascii url_hostname now db db'"
| step_trigger: "trigger_stop now sid sc i by' reason db = Inr (tr, db') \<Longrightarrow>
    safety_step to_ascii url_hostname now db db'"
| step_ack: "f07_ack_stop now eo sc i db = Inr (ar, db') \<Longrightarrow> safety_step to_ascii url_hostname now db db'"
| step_stopped: "f07_record_stopped now eo sc i db = Inr (sr, db') \<Longrightarrow>
    safety_step to_ascii url_hostname now db db'"
| step_escalate: "f07_mark_escalated now eo sc i db = Inr (er, db') \<Longrightarrow>
    safety_step to_ascii url_hostname now db db'"
| step_reconcile: "f07_reconcile_stranded_stops now limit grace row_busy scope_busy db = Inr (rc, db') \<Longrightarrow>
    safety_step to_ascii url_hostname now db db'"
| step_classify: "classify_environment app_now now new_id t who env db = Inr db' \<Longrightarrow>
    safety_step to_ascii url_hostname now db db'"
| step_create: "gid \<notin> gr_id ` set (sf_grants db) \<Longrightarrow>
    create_authorization to_ascii url_hostname control gid app_now inp db = Inr (g, db') \<Longrightarrow>
    safety_step to_ascii url_hostname now db db'"
| step_revoke: "revoke_authorization app_now now sid gid who claimed db = Inr (g, db') \<Longrightarrow>
    safety_step to_ascii url_hostname now db db'"
| step_narrow: "new_gid \<notin> gr_id ` set (sf_grants db) \<Longrightarrow>
    narrow_authorization to_ascii url_hostname control new_gid app_now gid who scope pb earlier db
      = Inr (g, db') \<Longrightarrow>
    safety_step to_ascii url_hostname now db db'"

inductive safety_run ::
    "(string \<Rightarrow> string) \<Rightarrow> (string \<Rightarrow> string option) \<Rightarrow> millis \<Rightarrow> safety_db \<Rightarrow> millis \<Rightarrow> safety_db \<Rightarrow> bool"
  for to_ascii url_hostname where
  run_refl: "safety_run to_ascii url_hostname t db t db"
| run_step: "safety_run to_ascii url_hostname t db t1 db1 \<Longrightarrow> t1 \<le> now \<Longrightarrow>
    safety_step to_ascii url_hostname now db1 db2 \<Longrightarrow> safety_run to_ascii url_hostname t db now db2"

lemma safety_run_time: "safety_run f u t db t' db' \<Longrightarrow> t \<le> t'"
  by (induction rule: safety_run.induct) auto

section \<open>Grants coming and going keep the books\<close>

lemma safety_ok_insert_grant:
  assumes ok: "safety_ok t db" and fresh: "gid \<notin> gr_id ` set (sf_grants db)"
    and b: "validate_budgets (cr_budgets i) = None"
  shows "safety_ok t (snd (insert_grant gid now i tg db))"
proof -
  let ?d = "snd (insert_grant gid now i tg db)"
  have counts: "active_of ?d x = active_of db x" "requests_of ?d x = requests_of db x"
    "slots_of ?d x = slots_of db x" "consumed_of ?d x = consumed_of db x" for x
    by (simp_all add: insert_grant_def Let_def log_entry_def active_of_def requests_of_def slots_of_def
        consumed_of_def find_counter_def)
  have sub: "ls_grant ` set (sf_leases db) \<subseteq> gr_id ` set (sf_grants db)"
    "co_grant ` set (sf_consumptions db) \<subseteq> gr_id ` set (sf_grants db)"
    using ok by (auto simp: safety_ok_def keys_unique_def)
  have "slots_of db gid = 0" "consumed_of db gid = 0"
    using sub fresh by (auto simp: slots_of_def consumed_of_def filter_empty_conv)
  then have zero: "active_of db gid = 0" "requests_of db gid = 0"
    using ok by (simp_all add: safety_ok_def cache_exact_def)
  have "cache_exact ?d" using ok by (simp add: safety_ok_def cache_exact_def counts)
  moreover have "within_budgets ?d"
    using safety_okD(1) [OF ok] b
    by (simp add: within_budgets_def counts list_all_iff)
      (auto simp: insert_grant_def Let_def log_entry_def zero validate_budgets_def within_def split: if_splits)
  moreover have "one_key_live t ?d"
    using ok one_key_live_cong [of ?d db] by (simp add: safety_ok_def insert_grant_def Let_def log_entry_def)
  moreover have "keys_unique ?d"
    using ok fresh by (auto simp: safety_ok_def keys_unique_def insert_grant_def Let_def log_entry_def)
  ultimately show ?thesis by (simp add: safety_ok_def)
qed

lemma safety_ok_revoke_rows:
  assumes ok: "safety_ok t db"
    and same: "sf_leases db' = sf_leases db" "sf_consumptions db' = sf_consumptions db"
      "sf_counters db' = sf_counters db"
    and grants: "sf_grants db' = map (\<lambda>g. if p g then revoke_row now g else g) (sf_grants db)"
  shows "safety_ok t db'"
proof -
  have row: "gr_id (if p g then revoke_row now g else g) = gr_id g"
    "gr_requests (if p g then revoke_row now g else g) = gr_requests g"
    "gr_concurrency (if p g then revoke_row now g else g) = gr_concurrency g" for g
    by (simp_all add: revoke_row_def)
  have counts: "active_of db' x = active_of db x" "requests_of db' x = requests_of db x"
    "slots_of db' x = slots_of db x" "consumed_of db' x = consumed_of db x" for x
    by (simp_all add: active_of_def requests_of_def slots_of_def consumed_of_def find_counter_def same)
  have ids: "map gr_id (sf_grants db') = map gr_id (sf_grants db)" by (simp add: grants comp_def row)
  then have id_set: "gr_id ` set (sf_grants db') = gr_id ` set (sf_grants db)"
    by (metis set_map)
  have "within_budgets db'"
    using safety_okD(1) [OF ok]
    unfolding within_budgets_def grants list.pred_map comp_def row counts .
  then show ?thesis
    using ok ids id_set one_key_live_cong [of db' db] same
    by (simp add: safety_ok_def cache_exact_def keys_unique_def counts)
qed

lemma validate_grant_request_budgets:
  "validate_grant_request f u c db i = Inr t \<Longrightarrow> validate_budgets (cr_budgets i) = None"
  by (auto simp: validate_grant_request_def split: option.splits if_splits)

lemma safety_ok_create:
  assumes "safety_ok t db" and "gid \<notin> gr_id ` set (sf_grants db)"
    and "create_authorization f u c gid now i db = Inr (g, db')"
  shows "safety_ok t db'"
proof -
  obtain tg where tg: "validate_grant_request f u c db i = Inr tg" "insert_grant gid now i tg db = (g, db')"
    using assms(3) by (auto simp: create_authorization_def split: sum.splits)
  show ?thesis
    using safety_ok_insert_grant [OF assms(1,2) validate_grant_request_budgets [OF tg(1)], of now tg] tg(2)
    by simp
qed

lemma safety_ok_revoke:
  assumes ok: "safety_ok t db"
    and run: "revoke_authorization now db_now sid gid who claimed db = Inr (g, db')"
  shows "safety_ok t db'"
proof -
  let ?d = "\<lambda>act. log_entry who act gid
    (db\<lparr> sf_grants := update_rows gr_id gid (revoke_row now) (sf_grants db) \<rparr>)"
  consider "db' = db" | act where "same_books db' (?d act)"
    using run unfolding revoke_authorization_def Let_def
    by (auto split: option.splits if_splits sum.splits prod.splits dest!: trigger_stop_books)
  then show ?thesis
  proof cases
    case 1
    with ok show ?thesis by simp
  next
    case 2
    have "safety_ok t (?d act)"
      by (rule safety_ok_revoke_rows [OF ok, where p = "\<lambda>g. gr_id g = gid" and now = now])
        (simp_all add: log_entry_def update_rows_def)
    with 2 show ?thesis by (rule safety_ok_same_books)
  qed
qed

lemma safety_ok_replace:
  assumes ok: "safety_ok t db" and fresh: "new_gid \<notin> gr_id ` set (sf_grants db)"
    and b: "validate_budgets (cr_budgets i) = None"
    and run: "replace_grant new_gid now gid who i tg db = Inr (g, db')"
  shows "safety_ok t db'"
proof -
  let ?m = "db\<lparr> sf_grants := map (\<lambda>r. if live_grant now gid who r then revoke_row now r else r) (sf_grants db) \<rparr>"
  obtain n d where nd: "insert_grant new_gid now i tg ?m = (n, d)" by fastforce
  have db': "db' = log_entry who ''authorization.replaced'' gid d"
    using run nd unfolding replace_grant_def Let_def by (simp split: if_split_asm)
  have m: "safety_ok t ?m"
    by (rule safety_ok_revoke_rows [OF ok, where p = "live_grant now gid who" and now = now]) simp_all
  have "map gr_id (sf_grants ?m) = map gr_id (sf_grants db)" by (simp add: revoke_row_def)
  then have "gr_id ` set (sf_grants ?m) = gr_id ` set (sf_grants db)" by (metis set_map)
  then have "new_gid \<notin> gr_id ` set (sf_grants ?m)" using fresh by simp
  from safety_ok_insert_grant [OF m this b, of now tg] nd have "safety_ok t d" by simp
  then show ?thesis unfolding db' by (rule safety_ok_same_books [rotated]) simp
qed

lemma safety_ok_narrow:
  assumes ok: "safety_ok t db" and fresh: "new_gid \<notin> gr_id ` set (sf_grants db)"
    and run: "narrow_authorization f u c new_gid now gid who sc pb earlier db = Inr (g, db')"
  shows "safety_ok t db'"
proof -
  obtain i tg where "validate_grant_request f u c earlier i = Inr tg"
    "replace_grant new_gid now gid who i tg db = Inr (g, db')"
    using run unfolding narrow_authorization_def Let_def
    by (auto split: option.splits if_splits sum.splits)
  then show ?thesis using safety_ok_replace [OF ok fresh] validate_grant_request_budgets by blast
qed

lemmas step_books =
  safety_ok_request_admission safety_ok_renew safety_ok_release_token safety_ok_release_execution
  safety_ok_reclaim(1) safety_ok_create safety_ok_revoke safety_ok_narrow

lemmas stop_books =
  trigger_stop_books ack_stop_books record_stopped_books mark_escalated_books reconcile_books classify_books

lemma safety_ok_step:
  assumes "safety_step f u now db db'" and "safety_ok now db"
  shows "safety_ok now db'"
  using assms
  by (induction rule: safety_step.induct)
    (blast intro: step_books safety_ok_same_books dest: stop_books)+

lemma safety_ok_run: "safety_run f u t db t' db' \<Longrightarrow> safety_ok t db \<Longrightarrow> safety_ok t' db'"
  by (induction rule: safety_run.induct) (auto intro: safety_ok_step safety_ok_later)

end
