(* ===== verification/Safety_Stops.thy ===== *)
theory Safety_Stops
  imports Safety_System
begin

text \<open>
  What a pending stop does: nothing in its scope is admitted or renewed, so the live executions in
  scope only become fewer; and it is recorded as stopped only when there are none.
\<close>

section \<open>Blocked scopes and live leases\<close>

definition blocked :: "safety_scope \<Rightarrow> string \<Rightarrow> safety_db \<Rightarrow> bool" where
  "blocked sc i db =
     ((sc = SC_PLATFORM \<longrightarrow> i = ''platform'')
      \<and> list_ex (\<lambda>k. st_scope k = sc \<and> st_scope_id k = i \<and> blocks_admission k) (sf_stops db))"

definition live_in_scope :: "millis \<Rightarrow> safety_db \<Rightarrow> safety_scope \<Rightarrow> string \<Rightarrow> string set" where
  "live_in_scope now db sc i =
     ls_id ` {l \<in> set (sf_leases db). is_live now l \<and> lease_in_scope sc i l}"

lemma live_in_scope_empty: "\<not> scope_has_live_execution now db sc i \<Longrightarrow> live_in_scope now db sc i = {}"
  by (auto simp: live_in_scope_def scope_has_live_execution_def list_ex_iff)

lemma live_in_scope_later: "t \<le> t' \<Longrightarrow> live_in_scope t' db sc i \<subseteq> live_in_scope t db sc i"
  by (auto simp: live_in_scope_def is_live_def)

lemma live_in_scope_same: "sf_leases a = sf_leases b \<Longrightarrow> live_in_scope t a sc i = live_in_scope t b sc i"
  by (simp add: live_in_scope_def)

lemma blocked_same: "sf_stops a = sf_stops b \<Longrightarrow> blocked sc i a = blocked sc i b"
  by (simp add: blocked_def)

text \<open>Whoever is in a blocked scope is covered by a pending stop.\<close>

lemma in_scope_covered:
  assumes "scope_key x sc = Some i" and "blocked sc i db"
  shows "stop_pending db x \<noteq> None"
  using assms by (auto simp: blocked_def list_ex_iff covers_def stop_pending_None_iff)

lemma lease_in_scope_key:
  "lease_in_scope sc i l \<Longrightarrow> sc = SC_PLATFORM \<longrightarrow> i = ''platform'' \<Longrightarrow> scope_key (lease_identity l) sc = Some i"
  by (cases sc) (simp_all add: lease_identity_def)

section \<open>Admission and renewal in a blocked scope\<close>

lemma admit_under_counter_leases:
  assumes "admit_under_counter now lid tok a u g db = (res, db')"
  shows "sf_stops db' = sf_stops db"
    and "sf_leases db' = sf_leases db \<or> sf_leases db' = sf_leases db @ [new_lease now lid tok a u]"
  using assms by (auto simp: admit_under_counter_def Let_def consume_request_def reserve_slot_def split: if_splits)

text \<open>\<open>untouched\<close>: neither a lease nor a stop changed.\<close>

definition untouched :: "safety_db \<Rightarrow> safety_db \<Rightarrow> bool" where
  "untouched a b = (sf_leases a = sf_leases b \<and> sf_stops a = sf_stops b)"

lemma untouched_audit [simp]:
  "untouched (audit ty x t g s e out a) b \<longleftrightarrow> untouched a b" "untouched a a"
  by (simp_all add: untouched_def)

lemma f07_admit_cases:
  assumes "f07_admit now lid tok a db = Some (res, db')"
  shows "untouched db' db \<or> (\<exists>u. stop_pending db (args_identity a u) = None \<and> sf_stops db' = sf_stops db
      \<and> sf_leases db' = sf_leases db @ [new_lease now lid tok a u])"
proof -
  have "untouched db' db \<or> (\<exists>u g. stop_pending db (args_identity a u) = None
      \<and> admit_under_counter now lid tok a u g db = (res, db'))"
    using assms unfolding f07_admit_def Let_def
    by (auto split: option.splits if_splits)
  then show ?thesis
    using admit_under_counter_leases unfolding untouched_def by blast
qed

lemma request_admission_cases:
  assumes "request_admission broken f now0 now lid tok r db = (res, db')"
  shows "untouched db' db \<or> (\<exists>a u. stop_pending db (args_identity a u) = None \<and> sf_stops db' = sf_stops db
      \<and> sf_leases db' = sf_leases db @ [new_lease now lid tok a u])"
proof -
  have "untouched db' db \<or> (\<exists>a. f07_admit now lid tok a db = Some (res, db'))"
    using assms unfolding request_admission_def fail_closed_def admit_def Let_def refuse_admission_def
    by (auto split: option.splits if_splits authz_result.splits prod.splits)
  then show ?thesis using f07_admit_cases by blast
qed

lemma new_lease_scope:
  assumes "lease_in_scope sc i (new_lease now lid tok a u)" and "sc = SC_PLATFORM \<longrightarrow> i = ''platform''"
  shows "scope_key (args_identity a u) sc = Some i"
  using assms by (cases sc) (simp_all add: args_identity_def new_lease_def)

lemma admission_blocked:
  assumes "request_admission broken f now0 now lid tok r db = (res, db')" and "blocked sc i db"
  shows "live_in_scope now db' sc i \<subseteq> live_in_scope now db sc i" and "sf_stops db' = sf_stops db"
proof -
  have "live_in_scope now db' sc i \<subseteq> live_in_scope now db sc i \<and> sf_stops db' = sf_stops db"
    using request_admission_cases [OF assms(1)]
  proof (elim disjE exE conjE)
    fix a u
    assume none: "stop_pending db (args_identity a u) = None"
      and new: "sf_stops db' = sf_stops db" "sf_leases db' = sf_leases db @ [new_lease now lid tok a u]"
    have plat: "sc = SC_PLATFORM \<longrightarrow> i = ''platform''" using assms(2) by (simp add: blocked_def)
    have "\<not> lease_in_scope sc i (new_lease now lid tok a u)"
    proof
      assume "lease_in_scope sc i (new_lease now lid tok a u)"
      from in_scope_covered [OF new_lease_scope [OF this plat] assms(2)] none show False by contradiction
    qed
    with new show ?thesis by (auto simp: live_in_scope_def)
  qed (simp add: live_in_scope_def untouched_def)
  then show "live_in_scope now db' sc i \<subseteq> live_in_scope now db sc i" "sf_stops db' = sf_stops db"
    by blast+
qed

lemma renew_cases:
  assumes "f07_renew_lease now lid tok db = (res, db')"
  shows "untouched db' db \<or> (\<exists>l. l \<in> set (sf_leases db) \<and> ls_id l = lid
      \<and> stop_pending db (lease_identity l) = None \<and> sf_stops db' = sf_stops db
      \<and> sf_leases db' = update_rows ls_id lid (\<lambda>r. r\<lparr> ls_expires := now + lease_ms \<rparr>) (sf_leases db))"
proof (cases "find_row ls_id lid (sf_leases db)")
  case None
  with assms show ?thesis by (auto simp: f07_renew_lease_def)
next
  case (Some l)
  with assms find_row_SomeD [OF Some] show ?thesis
    by (auto simp: f07_renew_lease_def split: option.splits if_splits)
qed

lemma renewal_blocked:
  assumes "f07_renew_lease now lid tok db = (res, db')" and "blocked sc i db"
    and ids: "distinct (map ls_id (sf_leases db))"
  shows "live_in_scope now db' sc i \<subseteq> live_in_scope now db sc i" and "sf_stops db' = sf_stops db"
proof -
  have "live_in_scope now db' sc i \<subseteq> live_in_scope now db sc i \<and> sf_stops db' = sf_stops db"
    using renew_cases [OF assms(1)]
  proof (elim disjE exE conjE)
    fix l
    assume l: "l \<in> set (sf_leases db)" "ls_id l = lid" and none: "stop_pending db (lease_identity l) = None"
      and new: "sf_stops db' = sf_stops db"
        "sf_leases db' = update_rows ls_id lid (\<lambda>r. r\<lparr> ls_expires := now + lease_ms \<rparr>) (sf_leases db)"
    have plat: "sc = SC_PLATFORM \<longrightarrow> i = ''platform''" using assms(2) by (simp add: blocked_def)
    have out: "\<not> lease_in_scope sc i l"
    proof
      assume "lease_in_scope sc i l"
      from in_scope_covered [OF lease_in_scope_key [OF this plat] assms(2)] none show False by contradiction
    qed
    have "k = l" if "k \<in> set (sf_leases db)" "ls_id k = lid" for k
      using that l ids by (auto simp: distinct_map dest: inj_onD)
    moreover have "lease_in_scope sc i (k\<lparr> ls_expires := e \<rparr>) = lease_in_scope sc i k" for k e
      by (cases sc) simp_all
    ultimately show ?thesis
      using out new by (auto simp: live_in_scope_def set_update_rows split: if_splits)
  qed (simp add: live_in_scope_def untouched_def)
  then show "live_in_scope now db' sc i \<subseteq> live_in_scope now db sc i" "sf_stops db' = sf_stops db"
    by blast+
qed

section \<open>Releases only take leases away\<close>

definition fewer :: "millis \<Rightarrow> safety_db \<Rightarrow> safety_db \<Rightarrow> bool" where
  "fewer now a b = (sf_stops a = sf_stops b
     \<and> (\<forall>sc i. live_in_scope now a sc i \<subseteq> live_in_scope now b sc i))"

lemma fewer_refl [simp]: "fewer now a a"
  by (simp add: fewer_def)

lemma fewer_trans: "fewer now a b \<Longrightarrow> fewer now b c \<Longrightarrow> fewer now a c"
  unfolding fewer_def by (metis subset_trans)

lemma fewer_audit [simp]:
  "fewer now (audit ty x t g s e out a) b \<longleftrightarrow> fewer now a b"
  "fewer now (update_counter gr f a) b \<longleftrightarrow> fewer now a b"
  "fewer now (set_active gr a) b \<longleftrightarrow> fewer now a b"
  by (simp_all add: fewer_def live_in_scope_def)

lemma fewer_audit_each [simp]: "fewer now (audit_each x out ls a) b \<longleftrightarrow> fewer now a b"
proof -
  have "fewer now (audit_each x out ls a) b = fewer now a b" for a
    unfolding audit_each_def by (induction ls arbitrary: a) simp_all
  then show ?thesis .
qed

lemma fewer_mark:
  assumes "\<And>l. \<not> holds_slot (f l)" and "sf_stops db' = sf_stops db"
    and "sf_leases db' = map (\<lambda>l. if hit l then f l else l) (sf_leases db)"
  shows "fewer now db' db"
  using assms by (auto simp: fewer_def live_in_scope_def is_live_def)

lemma fewer_release_token:
  assumes "f07_release_lease_by_token now lid tok completed db = (res, db')"
  shows "fewer now db' db"
proof -
  have "fewer now (db\<lparr> sf_leases := update_rows ls_id lid (\<lambda>r. r\<lparr> ls_released := Some now \<rparr>) (sf_leases db) \<rparr>) db"
    by (rule fewer_mark [where f = "\<lambda>r. r\<lparr> ls_released := Some now \<rparr>" and hit = "\<lambda>r. ls_id r = lid"])
      (simp_all add: holds_slot_def update_rows_def)
  then show ?thesis
    using assms unfolding f07_release_lease_by_token_def Let_def
    by (auto split: option.splits if_splits)
qed

lemma fewer_release_grant: "release_grant now e g db = (n, db') \<Longrightarrow> fewer now db' db"
proof -
  assume run: "release_grant now e g db = (n, db')"
  let ?hit = "\<lambda>l. ls_grant l = g \<and> ls_execution l = e \<and> holds_slot l"
  have "fewer now (mark_leases ?hit (\<lambda>l. l\<lparr> ls_released := Some now \<rparr>) db) db"
    by (rule fewer_mark [where f = "\<lambda>l. l\<lparr> ls_released := Some now \<rparr>" and hit = ?hit])
      (simp_all add: holds_slot_def mark_leases_def)
  with run show ?thesis unfolding release_grant_def Let_def by (auto split: if_splits)
qed

lemma fewer_release_grants: "release_grants now e gs db = (n, db') \<Longrightarrow> fewer now db' db"
proof (induction gs arbitrary: n db)
  case (Cons g gs)
  obtain k d where d: "release_grant now e g db = (k, d)" by fastforce
  obtain m d2 where d2: "release_grants now e gs d = (m, d2)" by fastforce
  have "db' = d2" using Cons.prems d d2 by simp
  with Cons.IH d2 fewer_release_grant [OF d] show ?case by (blast intro: fewer_trans)
qed simp

lemma fewer_reclaim_grants: "fewer now (snd (fold (reclaim_grant now busy) gs p)) (snd p)"
proof (induction gs arbitrary: p)
  case (Cons g gs)
  have "fewer now (snd (reclaim_grant now busy g p)) (snd p)"
  proof (cases p)
    case (Pair r db)
    let ?hit = "\<lambda>l. ls_grant l = g \<and> holds_slot l \<and> ls_expires l \<le> now"
    have "fewer now (mark_leases ?hit (\<lambda>l. l\<lparr> ls_reclaimed := Some now \<rparr>) db) db"
      by (rule fewer_mark [where f = "\<lambda>l. l\<lparr> ls_reclaimed := Some now \<rparr>" and hit = ?hit])
        (simp_all add: holds_slot_def mark_leases_def)
    then show ?thesis by (simp add: Pair reclaim_grant_def Let_def)
  qed
  then show ?case using Cons.IH [of "reclaim_grant now busy g p"] by (simp add: fewer_trans)
qed simp

lemma fewer_correct_grants: "fewer now (snd (fold (correct_grant busy) gs p)) (snd p)"
proof (induction gs arbitrary: p)
  case (Cons g gs)
  have "fewer now (snd (correct_grant busy g p)) (snd p)"
    by (cases p) (simp add: correct_grant_def)
  then show ?case using Cons.IH [of "correct_grant busy g p"] by (simp add: fewer_trans)
qed simp

lemma fewer_reclaim:
  assumes "f07_reclaim_expired_leases now busy limit db = Some (res, db')"
  shows "fewer now db' db"
proof -
  let ?p = "fold (reclaim_grant now busy) (take limit (slot_grants (\<lambda>l. ls_expires l \<le> now) db))
              (\<lparr> re_reclaimed = 0, re_skipped = 0, re_corrected = 0 \<rparr>, db)"
  have "(res, db') = fold (correct_grant busy) (take limit (drifted (snd ?p))) ?p"
    using assms by (simp add: f07_reclaim_expired_leases_def Let_def case_prod_unfold split: if_splits)
  then have "fewer now db' (snd ?p)" using fewer_correct_grants by (metis snd_conv)
  moreover have "fewer now (snd ?p) db" using fewer_reclaim_grants by (metis snd_conv)
  ultimately show ?thesis by (rule fewer_trans)
qed

section \<open>The kill switch's own operations\<close>

text \<open>\<open>settles\<close>: the leases are as they were, no stop's row is gone, and a blocked scope stays blocked
  unless nothing in it is live.\<close>

definition stop_keys :: "safety_db \<Rightarrow> (safety_scope \<times> string) set" where
  "stop_keys db = (\<lambda>k. (st_scope k, st_scope_id k)) ` set (sf_stops db)"

lemma stop_keys_cong: "sf_stops a = sf_stops b \<Longrightarrow> stop_keys a = stop_keys b"
  by (simp add: stop_keys_def)

definition settles :: "millis \<Rightarrow> safety_db \<Rightarrow> safety_db \<Rightarrow> bool" where
  "settles now db db' = (sf_leases db' = sf_leases db \<and> stop_keys db \<subseteq> stop_keys db'
     \<and> (\<forall>sc i. blocked sc i db \<longrightarrow> blocked sc i db' \<or> live_in_scope now db sc i = {}))"

lemma settles_refl [simp]: "settles now db db"
  by (simp add: settles_def)

lemma settles_trans: "settles now a b \<Longrightarrow> settles now b c \<Longrightarrow> settles now a c"
  unfolding settles_def by (metis live_in_scope_same subset_trans)

lemma settles_audit [simp]:
  "settles now db (audit ty x t g s e out a) \<longleftrightarrow> settles now db a"
  "settles now db (audit_scope ty x sc i eo out a) \<longleftrightarrow> settles now db a"
  "settles now db (log_entry p q r a) \<longleftrightarrow> settles now db a"
  by (simp_all add: settles_def blocked_def log_entry_def stop_keys_def)

lemma blocked_update_stop:
  assumes "blocked sc i db"
    and "\<And>k. st_scope k = sc' \<Longrightarrow> st_scope_id k = i' \<Longrightarrow> st_scope (f k) = sc' \<and> st_scope_id (f k) = i'"
    and "\<And>k. sc = sc' \<Longrightarrow> i = i' \<Longrightarrow> st_scope k = sc \<Longrightarrow> st_scope_id k = i \<Longrightarrow> blocks_admission k
      \<Longrightarrow> blocks_admission (f k)"
  shows "blocked sc i (update_stop sc' i' f db)"
proof -
  obtain k where k: "k \<in> set (sf_stops db)" "st_scope k = sc" "st_scope_id k = i" "blocks_admission k"
    using assms(1) by (auto simp: blocked_def list_ex_iff)
  let ?k = "if st_scope k = sc' \<and> st_scope_id k = i' then f k else k"
  have "?k \<in> set (sf_stops (update_stop sc' i' f db))" using k(1) by (auto simp: update_stop_def)
  moreover have "st_scope ?k = sc \<and> st_scope_id ?k = i \<and> blocks_admission ?k"
    using k assms(2,3) by auto
  ultimately show ?thesis using assms(1) by (auto simp: blocked_def list_ex_iff)
qed

lemma settles_update_stop:
  assumes "\<And>k. st_scope k = sc' \<Longrightarrow> st_scope_id k = i' \<Longrightarrow> st_scope (f k) = sc' \<and> st_scope_id (f k) = i'"
    and "\<And>k. st_scope k = sc' \<Longrightarrow> st_scope_id k = i' \<Longrightarrow> blocks_admission k \<Longrightarrow>
      blocks_admission (f k) \<or> live_in_scope now db sc' i' = {}"
  shows "settles now db (update_stop sc' i' f db)"
  unfolding settles_def
proof (intro conjI allI impI)
  fix sc i assume b: "blocked sc i db"
  show "blocked sc i (update_stop sc' i' f db) \<or> live_in_scope now db sc i = {}"
  proof (cases "sc = sc' \<and> i = i' \<and> live_in_scope now db sc' i' = {}")
    case False
    have "blocked sc i (update_stop sc' i' f db)"
      by (rule blocked_update_stop [OF b assms(1)]) (use assms(2) False in blast)+
    then show ?thesis ..
  qed simp
next
  have "(st_scope k, st_scope_id k) = (\<lambda>k. (st_scope k, st_scope_id k))
      (if st_scope k = sc' \<and> st_scope_id k = i' then f k else k)" for k
    using assms(1) [of k] by simp
  then show "stop_keys db \<subseteq> stop_keys (update_stop sc' i' f db)"
    unfolding stop_keys_def update_stop_def by force
qed simp

lemma settles_append: "settles now db (db\<lparr> sf_stops := sf_stops db @ ks \<rparr>)"
  by (auto simp: settles_def blocked_def stop_keys_def)

lemma settles_trigger: "trigger_stop now sid sc i by' reason db = Inr (r, db') \<Longrightarrow> settles now' db db'"
  unfolding trigger_stop_def f07_trigger_stop_def Let_def
  by (auto split: if_splits option.splits intro!: settles_append settles_update_stop
      simp: blocks_admission_def)

lemma settles_ack: "f07_ack_stop now eo sc i db = Inr (r, db') \<Longrightarrow> settles now db db'"
  unfolding f07_ack_stop_def
  by (auto split: if_splits option.splits intro!: settles_update_stop simp: blocks_admission_def)

lemma settles_record_stopped: "f07_record_stopped now eo sc i db = Inr (r, db') \<Longrightarrow> settles now db db'"
  unfolding f07_record_stopped_def
  by (auto split: if_splits option.splits intro!: settles_update_stop simp: live_in_scope_empty)

lemma settles_escalated: "f07_mark_escalated now eo sc i db = Inr (r, db') \<Longrightarrow> settles now db db'"
  unfolding f07_mark_escalated_def
  by (auto split: if_splits option.splits intro!: settles_update_stop simp: blocks_admission_def)

lemma settles_reconcile_row: "settles now (snd p) (snd (reconcile_row now gr busy k p))"
proof (cases p)
  case (Pair r db)
  show ?thesis
    unfolding Pair reconcile_row_def
    by (auto intro!: settles_update_stop simp: live_in_scope_empty)
qed

lemma settles_reconcile_rows: "settles now (snd p) (snd (fold (reconcile_row now gr busy) ks p))"
proof (induction ks arbitrary: p)
  case (Cons k ks)
  then show ?case
    using settles_trans [OF settles_reconcile_row Cons.IH [of "reconcile_row now gr busy k p"]] by simp
qed simp

lemma settles_reconcile:
  assumes "f07_reconcile_stranded_stops now limit gr row_busy busy db = Inr (r, db')"
  shows "settles now db db'"
proof -
  let ?p = "fold (reconcile_row now (gr * 1000) busy) (take limit (pending_rows row_busy db))
              (\<lparr> rc_acknowledged = 0, rc_stopped = 0, rc_skipped = 0 \<rparr>, db)"
  have "(r, db') = ?p"
    using assms by (simp add: f07_reconcile_stranded_stops_def split: if_splits)
  then have "db' = snd ?p" by (metis snd_conv)
  with settles_reconcile_rows show ?thesis by (metis snd_conv)
qed

lemma settles_frame [simp]:
  "settles now db (a\<lparr> sf_grants := gs \<rparr>) \<longleftrightarrow> settles now db a"
  "settles now db (a\<lparr> sf_environments := es \<rparr>) \<longleftrightarrow> settles now db a"
  by (simp_all add: settles_def blocked_def stop_keys_def)

lemma settles_trigger_all: "trigger_all now' new_id gs db = Inr db' \<Longrightarrow> settles now db db'"
proof (induction gs arbitrary: db)
  case (Cons g gs)
  then obtain r d where "trigger_stop now' (new_id g) SC_GRANT g ''SYSTEM'' ENVIRONMENT_RECLASSIFIED db
      = Inr (r, d)" "trigger_all now' new_id gs d = Inr db'"
    by (auto split: sum.splits)
  with Cons.IH show ?case by (meson settles_trans settles_trigger)
qed simp

lemma settles_classify:
  assumes "classify_environment app_now now' new_id t who env db = Inr db'"
  shows "settles now db db'"
proof -
  have "settles now db d"
    if "trigger_all now' new_id gs
          (log_entry who act t (db\<lparr> sf_environments := (sf_environments db)(t := Some env) \<rparr>)) = Inr d"
    for gs act d
    by (rule settles_trans [OF _ settles_trigger_all [OF that]]) simp
  then show ?thesis
    using assms unfolding classify_environment_def Let_def
    by (auto split: option.splits if_splits)
qed

lemma settles_insert_grant: "settles now db (snd (insert_grant gid app_now i tg a)) \<longleftrightarrow> settles now db a"
  by (simp add: insert_grant_def Let_def)

lemma settles_create:
  "create_authorization f u c gid app_now i db = Inr (g, db') \<Longrightarrow> settles now db db'"
  by (auto simp: create_authorization_def split: sum.splits dest!: arg_cong [where f = snd])
    (metis settles_insert_grant settles_refl)

lemma settles_narrow:
  assumes "narrow_authorization f u c new_gid app_now gid who sc pb earlier db = Inr (g, db')"
  shows "settles now db db'"
proof -
  obtain i tg where run: "replace_grant new_gid app_now gid who i tg db = Inr (g, db')"
    using assms unfolding narrow_authorization_def Let_def
    by (auto split: option.splits if_splits sum.splits)
  let ?m = "db\<lparr> sf_grants := map (\<lambda>r. if live_grant app_now gid who r then revoke_row app_now r else r)
    (sf_grants db) \<rparr>"
  obtain n d where nd: "insert_grant new_gid app_now i tg ?m = (n, d)" by fastforce
  have "db' = log_entry who ''authorization.replaced'' gid d"
    using run nd unfolding replace_grant_def Let_def by (simp split: if_split_asm)
  moreover have "settles now db d"
    using settles_insert_grant [of now db new_gid app_now i tg ?m] nd by simp
  ultimately show ?thesis by simp
qed

lemma settles_revoke:
  assumes "revoke_authorization app_now now' sid gid who claimed db = Inr (g, db')"
  shows "settles now db db'"
proof -
  have "settles now db d"
    if "trigger_stop now' sid SC_GRANT gid ''SYSTEM'' AUTHORIZATION_REVOKED
          (log_entry who act gid
            (db\<lparr> sf_grants := update_rows gr_id gid (revoke_row app_now) (sf_grants db) \<rparr>)) = Inr (r, d)"
    for act r d
    by (rule settles_trans [OF _ settles_trigger [OF that]]) simp
  then show ?thesis
    using assms unfolding revoke_authorization_def Let_def
    by (auto split: option.splits if_splits sum.splits prod.splits)
qed

section \<open>Draining\<close>

lemma step_drains:
  assumes "safety_step f u now db db'" and "keys_unique db" and that: "blocked sc i db"
  shows "live_in_scope now db' sc i \<subseteq> live_in_scope now db sc i
      \<and> (blocked sc i db' \<or> live_in_scope now db sc i = {})"
proof -
  have drain: "settles now db db' \<or> fewer now db' db
     \<or> (sf_stops db' = sf_stops db \<and> live_in_scope now db' sc i \<subseteq> live_in_scope now db sc i)"
    using assms(1)
  proof (cases rule: safety_step.cases)
    case step_admit
    then show ?thesis using admission_blocked [OF _ that] by blast
  next
    case step_renew
    then show ?thesis using renewal_blocked [OF _ that] assms(2) by (auto simp: keys_unique_def)
  next
    case (step_release_all e n)
    then show ?thesis
      by (auto simp: f07_release_leases_by_execution_def split: if_splits dest: fewer_release_grants)
  qed (auto dest: fewer_release_token fewer_reclaim settles_trigger [of _ _ _ _ _ _ _ _ _ now]
      settles_ack settles_record_stopped settles_escalated settles_reconcile
      settles_classify [where now = now] settles_create [where now = now]
      settles_revoke [where now = now] settles_narrow [where now = now])
  from drain show ?thesis
  proof (elim disjE)
    assume "settles now db db'"
    then show ?thesis
      using that live_in_scope_same [of db' db now sc i] by (auto simp: settles_def)
  next
    assume "fewer now db' db"
    then show ?thesis using that blocked_same [of db' db sc i] by (auto simp: fewer_def)
  next
    assume "sf_stops db' = sf_stops db \<and> live_in_scope now db' sc i \<subseteq> live_in_scope now db sc i"
    then show ?thesis using that blocked_same [of db' db sc i] by auto
  qed
qed

lemma step_keeps_stops:
  assumes "safety_step f u now db db'"
  shows "stop_keys db \<subseteq> stop_keys db'"
proof -
  have "settles now db db' \<or> fewer now db' db \<or> sf_stops db' = sf_stops db"
    using assms
  proof (cases rule: safety_step.cases)
    case step_admit
    then show ?thesis using request_admission_cases unfolding untouched_def by blast
  next
    case step_renew
    then show ?thesis using renew_cases unfolding untouched_def by blast
  next
    case (step_release_all e n)
    then show ?thesis
      by (auto simp: f07_release_leases_by_execution_def split: if_splits dest: fewer_release_grants)
  qed (auto dest: fewer_release_token fewer_reclaim settles_trigger [of _ _ _ _ _ _ _ _ _ now]
      settles_ack settles_record_stopped settles_escalated settles_reconcile
      settles_classify [where now = now] settles_create [where now = now]
      settles_revoke [where now = now] settles_narrow [where now = now])
  then show ?thesis
    using stop_keys_cong [of db' db] by (auto simp: settles_def fewer_def)
qed

text \<open>A pending stop either still holds its scope, whose live leases have only become fewer, or was
  recorded at a moment when no lease in the scope was live.\<close>

definition drained :: "(string \<Rightarrow> string) \<Rightarrow> (string \<Rightarrow> string option) \<Rightarrow> millis \<Rightarrow> safety_db \<Rightarrow> millis
    \<Rightarrow> safety_db \<Rightarrow> safety_scope \<Rightarrow> string \<Rightarrow> bool" where
  "drained f u t db t' db' sc i =
     (\<exists>t1 db1. safety_run f u t db t1 db1 \<and> safety_run f u t1 db1 t' db'
        \<and> live_in_scope t1 db1 sc i = {})"

lemma safety_run_trans:
  "safety_run f u t1 db1 t' db' \<Longrightarrow> safety_run f u t db t1 db1 \<Longrightarrow> safety_run f u t db t' db'"
  by (induction rule: safety_run.induct) (auto intro: run_step)

lemma run_drains:
  assumes "safety_run f u t db t' db'" and "safety_ok t db" and "blocked sc i db"
  shows "blocked sc i db' \<and> live_in_scope t' db' sc i \<subseteq> live_in_scope t db sc i
      \<or> drained f u t db t' db' sc i"
  using assms
proof (induction rule: safety_run.induct)
  case (run_refl t db)
  then show ?case by simp
next
  case (run_step t db t1 db1 now db2)
  have ok: "keys_unique db1" using safety_ok_run [OF run_step.hyps(1) run_step.prems(1)] by (simp add: safety_ok_def)
  have later: "live_in_scope now db1 sc i \<subseteq> live_in_scope t1 db1 sc i"
    using run_step.hyps(2) by (rule live_in_scope_later)
  from run_step.IH [OF run_step.prems] show ?case
  proof
    assume held: "blocked sc i db1 \<and> live_in_scope t1 db1 sc i \<subseteq> live_in_scope t db sc i"
    note d = step_drains [OF run_step.hyps(3) ok conjunct1 [OF held]]
    show ?thesis
    proof (cases "blocked sc i db2")
      case True
      with d later held show ?thesis by blast
    next
      case False
      with d have none: "live_in_scope now db2 sc i = {}" by blast
      have "safety_run f u t db now db2"
        using run_step.hyps by (rule safety_run.run_step)
      moreover have "safety_run f u now db2 now db2" by (rule safety_run.run_refl)
      ultimately show ?thesis using none unfolding drained_def by blast
    qed
  next
    assume "drained f u t db t1 db1 sc i"
    then show ?thesis
      using run_step.hyps(2,3) unfolding drained_def by (meson safety_run.run_step)
  qed
qed

text \<open>An execution's own stop is for ever.\<close>

lemma execution_blocked_iff: "blocked SC_EXECUTION i db \<longleftrightarrow> (SC_EXECUTION, i) \<in> stop_keys db"
proof -
  have "blocks_admission k" if "st_scope k = SC_EXECUTION" for k
    using that by (cases "st_state k") (simp_all add: blocks_admission_def)
  then show ?thesis
    unfolding blocked_def list_ex_iff stop_keys_def image_iff prod.inject
    by (metis safety_scope.distinct(9))
qed

lemma run_keeps_execution_stop:
  assumes "safety_run f u t db t' db'" and "safety_ok t db" and "blocked SC_EXECUTION i db"
  shows "blocked SC_EXECUTION i db'
    \<and> live_in_scope t' db' SC_EXECUTION i \<subseteq> live_in_scope t db SC_EXECUTION i"
  using assms
proof (induction rule: safety_run.induct)
  case (run_refl t db)
  then show ?case by simp
next
  case (run_step t db t1 db1 now db2)
  note held = run_step.IH [OF run_step.prems]
  have ok: "keys_unique db1"
    using safety_ok_run [OF run_step.hyps(1) run_step.prems(1)] by (simp add: safety_ok_def)
  have "blocked SC_EXECUTION i db2"
    using held step_keeps_stops [OF run_step.hyps(3)] by (auto simp: execution_blocked_iff)
  moreover have "live_in_scope now db2 SC_EXECUTION i \<subseteq> live_in_scope now db1 SC_EXECUTION i"
    using step_drains [OF run_step.hyps(3) ok] held by blast
  ultimately show ?case
    using held live_in_scope_later [OF run_step.hyps(2), of db1 SC_EXECUTION i] by blast
qed

end
