(* ===== verification/Safety_Theorems.thy ===== *)
theory Safety_Theorems
  imports Safety_Stops
begin

text \<open>
  The properties of authorization, admission and the kill switch.
\<close>

section \<open>The decision\<close>

text \<open>What one grant must satisfy on its own.\<close>

definition allows :: "(string \<Rightarrow> string) \<Rightarrow> safety_db \<Rightarrow> check_input \<Rightarrow> grant_row \<Rightarrow> bool" where
  "allows to_ascii db x g =
     (gr_revoked g = None \<and> ci_now x < gr_expires g
      \<and> (case ci_consumption x (gr_id g) of None \<Rightarrow> True | Some b \<Rightarrow> \<not> is_budget_exhausted g b)
      \<and> is_in_scope to_ascii (gr_scope g) (ci_destination x)
      \<and> (case read_environment db x of None \<Rightarrow> False | Some e \<Rightarrow> e \<in> set (gr_environments g)))"

lemma evaluate_grant_allows:
  "evaluate_grant to_ascii x (read_environment db x) g = Authorized i \<longleftrightarrow> allows to_ascii db x g \<and> i = gr_id g"
  by (auto simp: evaluate_grant_def allows_def derive_state_def Let_def not_le split: option.splits)

lemma evaluate_grant_not_none: "evaluate_grant to_ascii x env g \<noteq> No_Matching_Grant"
  by (simp add: evaluate_grant_def Let_def)

lemma check_loop_authorized:
  "check_loop to_ascii x (read_environment db x) fu gs = Authorized i \<longleftrightarrow>
     (\<exists>a g b. gs = a @ g # b \<and> allows to_ascii db x g \<and> i = gr_id g \<and> \<not> list_ex (allows to_ascii db x) a)"
proof (induction gs arbitrary: fu)
  case Nil
  then show ?case by (simp split: option.split)
next
  case (Cons g gs)
  show ?case
  proof (cases "allows to_ascii db x g")
    case True
    then have ev: "evaluate_grant to_ascii x (read_environment db x) g = Authorized (gr_id g)"
      by (simp add: evaluate_grant_allows)
    have "(\<exists>a g' b. g # gs = a @ g' # b \<and> allows to_ascii db x g' \<and> i = gr_id g'
        \<and> \<not> list_ex (allows to_ascii db x) a) \<longleftrightarrow> i = gr_id g"
    proof
      assume "\<exists>a g' b. g # gs = a @ g' # b \<and> allows to_ascii db x g' \<and> i = gr_id g'
        \<and> \<not> list_ex (allows to_ascii db x) a"
      then obtain a g' b where *: "g # gs = a @ g' # b" "i = gr_id g'" "\<not> list_ex (allows to_ascii db x) a"
        by blast
      with True show "i = gr_id g" by (cases a) auto
    next
      assume "i = gr_id g"
      with True show "\<exists>a g' b. g # gs = a @ g' # b \<and> allows to_ascii db x g' \<and> i = gr_id g'
        \<and> \<not> list_ex (allows to_ascii db x) a"
        by (intro exI [of _ "[]"] exI [of _ g] exI [of _ gs]) simp
    qed
    with ev show ?thesis by auto
  next
    case False
    then obtain r j where ev: "evaluate_grant to_ascii x (read_environment db x) g = Authz_Refused r j"
      using evaluate_grant_allows evaluate_grant_not_none by (metis authz_result.exhaust)
    have "(\<exists>a g' b. g # gs = a @ g' # b \<and> allows to_ascii db x g' \<and> i = gr_id g'
        \<and> \<not> list_ex (allows to_ascii db x) a) \<longleftrightarrow>
      (\<exists>a g' b. gs = a @ g' # b \<and> allows to_ascii db x g' \<and> i = gr_id g'
        \<and> \<not> list_ex (allows to_ascii db x) a)"
    proof
      assume "\<exists>a g' b. g # gs = a @ g' # b \<and> allows to_ascii db x g' \<and> i = gr_id g'
        \<and> \<not> list_ex (allows to_ascii db x) a"
      then obtain a g' b where *: "g # gs = a @ g' # b" "allows to_ascii db x g'" "i = gr_id g'"
        "\<not> list_ex (allows to_ascii db x) a" by blast
      with False obtain a' where "a = g # a'" by (cases a) auto
      with * show "\<exists>a g' b. gs = a @ g' # b \<and> allows to_ascii db x g' \<and> i = gr_id g'
        \<and> \<not> list_ex (allows to_ascii db x) a" by auto
    next
      assume "\<exists>a g' b. gs = a @ g' # b \<and> allows to_ascii db x g' \<and> i = gr_id g'
        \<and> \<not> list_ex (allows to_ascii db x) a"
      then obtain a g' b where *: "gs = a @ g' # b" "allows to_ascii db x g'" "i = gr_id g'"
        "\<not> list_ex (allows to_ascii db x) a" by blast
      with False show "\<exists>a g' b. g # gs = a @ g' # b \<and> allows to_ascii db x g' \<and> i = gr_id g'
        \<and> \<not> list_ex (allows to_ascii db x) a"
        by (intro exI [of _ "g # a"] exI [of _ g'] exI [of _ b]) simp
    qed
    with ev Cons.IH show ?thesis by simp
  qed
qed

text \<open>C19: The check authorizes exactly when some grant of the target, its owner and the execution
  class satisfies every condition on its own -- not revoked, not expired, within its budgets,
  the destination in its scope, the target's current environment permitted -- and it answers with
  the first such grant, the candidates being ordered newest first.  Grants are never combined.\<close>

theorem authorized_by_one_grant:
  "(is_authorized to_ascii db x = Authorized i \<longleftrightarrow>
      (\<exists>a g b. candidate_grants db x = a @ g # b \<and> allows to_ascii db x g \<and> i = gr_id g
         \<and> \<not> list_ex (allows to_ascii db x) a))
   \<and> sorted (map (\<lambda>g. (- gr_granted g, gr_id g)) (candidate_grants db x))
   \<and> set (candidate_grants db x) =
       {g \<in> set (sf_grants db). gr_target g = ci_target x \<and> gr_user g = ci_user x
          \<and> ci_class x \<in> set (gr_classes g)}"
  by (auto simp: is_authorized_def check_loop_authorized candidate_grants_def)

section \<open>Admission\<close>

lemma is_authorized_grant:
  assumes "is_authorized f db x = Authorized i \<or> is_authorized f db x = Authz_Refused RF_BUDGET_EXHAUSTED i"
  shows "\<exists>g \<in> set (candidate_grants db x). gr_id g = i \<and> is_in_scope f (gr_scope g) (ci_destination x)"
proof -
  have loop: "check_loop f x env fu gs = Authorized i \<or> check_loop f x env fu gs = Authz_Refused RF_BUDGET_EXHAUSTED i
    \<Longrightarrow> (\<exists>g \<in> set gs. gr_id g = i \<and> is_in_scope f (gr_scope g) (ci_destination x))
      \<or> fu = Some (RF_BUDGET_EXHAUSTED, i)" for env fu gs
  proof (induction gs arbitrary: fu)
    case Nil
    then show ?case by (auto split: option.splits)
  next
    case (Cons g gs)
    show ?case
    proof (cases "evaluate_grant f x env g")
      case (Authorized j)
      then have "j = gr_id g" "is_in_scope f (gr_scope g) (ci_destination x)"
        by (auto simp: evaluate_grant_def Let_def split: if_splits)
      with Cons.prems Authorized show ?thesis by auto
    next
      case (Authz_Refused r j)
      have here: "j = gr_id g \<and> is_in_scope f (gr_scope g) (ci_destination x)" if "r = RF_BUDGET_EXHAUSTED"
        using Authz_Refused that by (auto simp: evaluate_grant_def Let_def split: if_splits)
      let ?fu = "case fu of None \<Rightarrow> Some (r, j)
             | Some (r0, i0) \<Rightarrow> if refusal_depth r0 < refusal_depth r then Some (r, j) else Some (r0, i0)"
      have "(\<exists>g \<in> set gs. gr_id g = i \<and> is_in_scope f (gr_scope g) (ci_destination x))
          \<or> ?fu = Some (RF_BUDGET_EXHAUSTED, i)"
        using Cons.prems Authz_Refused by (intro Cons.IH) simp
      with here show ?thesis by (auto split: option.splits if_splits)
    next
      case No_Matching_Grant
      with evaluate_grant_not_none show ?thesis by metis
    qed
  qed
  from loop [of "read_environment db x" None "candidate_grants db x"] assms
  show ?thesis by (auto simp: is_authorized_def)
qed

lemma grant_of_unique:
  "distinct (map gr_id (sf_grants db)) \<Longrightarrow> g \<in> set (sf_grants db) \<Longrightarrow>
   grant_of db (gr_id g) (gr_target g) (gr_user g) = Some g"
proof -
  assume d: "distinct (map gr_id (sf_grants db))" and g: "g \<in> set (sf_grants db)"
  have "grant_of db (gr_id g) (gr_target g) (gr_user g) \<noteq> None"
    using g by (auto simp: grant_of_def find_None_iff)
  then obtain h where h: "grant_of db (gr_id g) (gr_target g) (gr_user g) = Some h" by blast
  from grant_of_SomeD [OF h] d g have "h = g" by (auto simp: distinct_map dest: inj_onD)
  with h show ?thesis by simp
qed

lemma admit_under_counter_outcome:
  assumes run: "admit_under_counter now lid tok a u g db = (res, db')"
    and exact: "cache_exact db"
  shows "case res of
      Granted i lease replay \<Rightarrow> i = aa_grant a \<and>
        (if replay then sf_leases db' = sf_leases db \<and> sf_consumptions db' = sf_consumptions db
         else consumed_of db' i = consumed_of db i + (if aa_request a then 1 else 0)
            \<and> slots_of db' i = slots_of db i + (if aa_concurrency a then 1 else 0)
            \<and> (if aa_request a then consumed_of db' i \<le> gr_requests g else True)
            \<and> (if aa_concurrency a then slots_of db' i \<le> gr_concurrency g else True)
            \<and> lease = (if aa_concurrency a then Some (lid, tok) else None))
    | Refused _ _ \<Rightarrow> sf_leases db' = sf_leases db \<and> sf_consumptions db' = sf_consumptions db"
proof -
  let ?e = "ensure_counter (aa_grant a) u db"
  have ce: "find_counter ?e (aa_grant a) \<noteq> None" by (simp add: find_counter_ensure)
  let ?d1 = "if aa_request a then consume_request a u ?e else ?e"
  have c1: "find_counter ?d1 (aa_grant a) \<noteq> None"
    using ce find_counter_consume [of a u ?e "aa_grant a"] by simp
  let ?d2 = "if aa_concurrency a then reserve_slot now lid tok a u ?d1 else ?d1"
  have counts: "consumed_of ?d2 (aa_grant a) = consumed_of db (aa_grant a) + (if aa_request a then 1 else 0)"
    "slots_of ?d2 (aa_grant a) = slots_of db (aa_grant a) + (if aa_concurrency a then 1 else 0)"
    using counts_consume(3,4) [OF ce, of u "aa_grant a"] counts_reserve(3,4) [OF c1, of now lid tok u "aa_grant a"]
    by (cases "aa_request a"; cases "aa_concurrency a"; simp)+
  have now: "requests_of ?e (aa_grant a) = consumed_of db (aa_grant a)"
    "active_of ?e (aa_grant a) = slots_of db (aa_grant a)"
    using exact by (simp_all add: cache_exact_def)
  consider (replay) lease where "res = Granted (aa_grant a) lease True" "same_books db' ?e"
    | (granted) "res = Granted (aa_grant a) (if aa_concurrency a then Some (lid, tok) else None) False"
        "same_books db' ?d2"
        "aa_request a \<longrightarrow> requests_of ?e (aa_grant a) + 1 \<le> gr_requests g"
        "aa_concurrency a \<longrightarrow> active_of ?e (aa_grant a) + 1 \<le> gr_concurrency g"
    | (refused) r x where "res = Refused r x" "same_books db' ?e"
    using run unfolding admit_under_counter_def Let_def active_of_def requests_of_def
    by (auto simp: not_less split: if_splits)
  then show ?thesis
  proof cases
    case replay
    then show ?thesis by (simp add: same_books_def)
  next
    case granted
    show ?thesis using granted(1,3,4) counts now same_booksD(4,5) [OF granted(2), of "aa_grant a"] by simp
  next
    case refused
    then show ?thesis by (simp add: same_books_def)
  qed
qed

text \<open>What an admission that was granted had before it and left behind.\<close>

definition admitted ::
    "(string \<Rightarrow> string) \<Rightarrow> millis \<Rightarrow> string \<Rightarrow> string \<Rightarrow> admission_request \<Rightarrow> safety_db \<Rightarrow> safety_db
     \<Rightarrow> string \<Rightarrow> (string \<times> string) option \<Rightarrow> bool \<Rightarrow> bool" where
  "admitted to_ascii now lid tok r db db' i lease replay =
     (\<exists>u g. target_owner db (ar_target r) = Some u \<and> g \<in> set (sf_grants db) \<and> gr_id g = i
        \<and> gr_target g = ar_target r \<and> gr_user g = u \<and> ar_class r \<in> set (gr_classes g)
        \<and> stop_pending db (request_identity r u i) = None
        \<and> gr_revoked g = None \<and> now < gr_expires g
        \<and> is_in_scope to_ascii (gr_scope g) (ar_destination r)
        \<and> (case sf_environments db (ar_target r) of None \<Rightarrow> False | Some e \<Rightarrow> e \<in> set (gr_environments g))
        \<and> (if replay then sf_leases db' = sf_leases db \<and> sf_consumptions db' = sf_consumptions db
           else consumed_of db' i = consumed_of db i + (if ar_request r then 1 else 0)
              \<and> slots_of db' i = slots_of db i + (if ar_concurrency r then 1 else 0)
              \<and> (if ar_request r then consumed_of db' i \<le> gr_requests g else True)
              \<and> (if ar_concurrency r then slots_of db' i \<le> gr_concurrency g else True)
              \<and> lease = (if ar_concurrency r then Some (lid, tok) else None)))"

lemma f07_admit_granted:
  assumes run: "f07_admit now lid tok a db = Some (Granted i lease replay, db')"
  obtains u g e where "target_owner db (aa_target a) = Some u"
    "grant_of db (aa_grant a) (aa_target a) u = Some g"
    "stop_pending db (args_identity a u) = None" "gr_revoked g = None" "now < gr_expires g"
    "sf_environments db (aa_target a) = Some e" "e \<in> set (gr_environments g)"
    "admit_under_counter now lid tok a u g db = (Granted i lease replay, db')"
proof -
  have "\<exists>u g e. target_owner db (aa_target a) = Some u
    \<and> grant_of db (aa_grant a) (aa_target a) u = Some g
    \<and> stop_pending db (args_identity a u) = None \<and> grant_dead now g = None
    \<and> sf_environments db (aa_target a) = Some e \<and> e \<in> set (gr_environments g)
    \<and> admit_under_counter now lid tok a u g db = (Granted i lease replay, db')"
    using run unfolding f07_admit_def Let_def
    by (auto split: option.splits if_splits)
  then show thesis
    using that by (auto simp: grant_dead_def split: if_splits)
qed

lemma f07_admit_refused:
  assumes "f07_admit now lid tok a db = Some (Refused r x, db')" and "cache_exact db"
  shows "sf_leases db' = sf_leases db \<and> sf_consumptions db' = sf_consumptions db"
proof -
  have "same_books db' db \<or> (\<exists>u g. admit_under_counter now lid tok a u g db = (Refused r x, db'))"
    using assms(1) unfolding f07_admit_def Let_def
    by (auto split: option.splits if_splits)
  then show ?thesis
    using admit_under_counter_outcome [OF _ assms(2)] by (fastforce simp: same_books_def)
qed

text \<open>C3: An admission is granted only to the owner's live grant for the execution class: at the
  database's clock it is neither revoked nor expired, the destination is in its scope, the target's
  environment is permitted and no stop covers the execution; a first grant adds exactly the
  consumption and the lease asked for and stays within the budgets, a replay adds nothing; and a
  refusal, whatever its reason, consumes nothing and leaves every lease as it was.\<close>

theorem admission_outcome:
  assumes "safety_ok now2 db"
    and "request_admission broken to_ascii now now2 lid tok r db = (res, db')"
  shows "case res of
      Granted i lease replay \<Rightarrow> admitted to_ascii now2 lid tok r db db' i lease replay
    | Refused _ _ \<Rightarrow> sf_leases db' = sf_leases db \<and> sf_consumptions db' = sf_consumptions db"
proof -
  have exact: "cache_exact db" and ids: "distinct (map gr_id (sf_grants db))"
    using assms(1) by (auto simp: safety_ok_def keys_unique_def)
  let ?x = "\<lambda>u. \<lparr> ci_target = ar_target r, ci_user = u, ci_class = ar_class r,
      ci_destination = ar_destination r, ci_now = now,
      ci_consumption = load_budget_consumption db (ar_target r) u \<rparr>"
  consider (refused) q y where "res = Refused q y" "same_books db' db"
    | (asked) u i where "target_owner db (ar_target r) = Some u"
        "is_authorized to_ascii db (?x u) = Authorized i
           \<or> is_authorized to_ascii db (?x u) = Authz_Refused RF_BUDGET_EXHAUSTED i"
        "f07_admit now2 lid tok (request_args r i) db = Some (res, db')"
    using assms(2) unfolding request_admission_def fail_closed_def admit_def Let_def refuse_admission_def
    by (auto split: option.splits if_splits authz_result.splits prod.splits)
  then show ?thesis
  proof cases
    case refused
    then show ?thesis by (simp add: same_books_def)
  next
    case asked
    show ?thesis
    proof (cases res)
      case (Refused q y)
      with asked(3) f07_admit_refused [OF _ exact] show ?thesis by simp
    next
      case (Granted j lease replay)
      from asked(3) [unfolded Granted] show ?thesis
      proof (rule f07_admit_granted)
        fix v g e
        assume v: "target_owner db (aa_target (request_args r i)) = Some v"
          and g: "grant_of db (aa_grant (request_args r i)) (aa_target (request_args r i)) v = Some g"
          and stop: "stop_pending db (args_identity (request_args r i) v) = None"
          and live: "gr_revoked g = None" "now2 < gr_expires g"
          and env: "sf_environments db (aa_target (request_args r i)) = Some e" "e \<in> set (gr_environments g)"
          and run: "admit_under_counter now2 lid tok (request_args r i) v g db = (Granted j lease replay, db')"
        have vu: "v = u" using v asked(1) by (simp add: request_args_def)
        obtain h where h: "h \<in> set (candidate_grants db (?x u))" "gr_id h = i"
          "is_in_scope to_ascii (gr_scope h) (ar_destination r)"
          using is_authorized_grant [OF asked(2)] by auto
        have gs: "g \<in> set (sf_grants db)" "gr_id g = i" "gr_target g = ar_target r" "gr_user g = u"
          using grant_of_SomeD [OF g] vu by (auto simp: request_args_def)
        have "h = g" using h gs ids by (auto simp: candidate_grants_def distinct_map dest: inj_onD)
        moreover have "ar_class r \<in> set (gr_classes h)" using h(1) by (simp add: candidate_grants_def)
        moreover have "args_identity (request_args r i) v = request_identity r u i"
          by (simp add: args_identity_def request_args_def request_identity_def vu)
        moreover have "j = i \<and>
          (if replay then sf_leases db' = sf_leases db \<and> sf_consumptions db' = sf_consumptions db
           else consumed_of db' i = consumed_of db i + (if ar_request r then 1 else 0)
              \<and> slots_of db' i = slots_of db i + (if ar_concurrency r then 1 else 0)
              \<and> (if ar_request r then consumed_of db' i \<le> gr_requests g else True)
              \<and> (if ar_concurrency r then slots_of db' i \<le> gr_concurrency g else True)
              \<and> lease = (if ar_concurrency r then Some (lid, tok) else None))"
          using admit_under_counter_outcome [OF run exact]
          by (cases "i = j") (simp_all add: request_args_def split: if_splits)
        moreover have "sf_environments db (ar_target r) = Some e" using env(1) by (simp add: request_args_def)
        ultimately show ?thesis
          unfolding Granted admitted_def admission_result.case
          using gs h(3) live env(2) stop asked(1)
          by (intro exI [of _ u] exI [of _ g] conjI) auto
      qed
    qed
  qed
qed

text \<open>A sample: one target with one grant for two requests and one running execution.\<close>

definition sample_scope :: scope_definition where
  "sample_scope = \<lparr> sd_kind = WEB, sd_included_hosts = [''a.com''], sd_excluded_hosts = [],
     sd_included_paths = [''/''], sd_excluded_paths = [''/admin''], sd_schemes = [], sd_ports = [],
     sd_repository = None, sd_included_refs = [], sd_excluded_refs = [] \<rparr>"

definition sample_grant :: grant_row where
  "sample_grant = \<lparr> gr_id = ''g1'', gr_target = ''t1'', gr_user = ''u1'', gr_classes = [X_BROWSER],
     gr_environments = [STAGING], gr_requests = 2, gr_concurrency = 1, gr_duration = 3600,
     gr_granted = 0, gr_expires = 3600000, gr_revoked = None, gr_scope = sample_scope \<rparr>"

definition sample_safety :: safety_db where
  "sample_safety = \<lparr> sf_targets = [\<lparr> tg_id = ''t1'', tg_user = ''u1'', tg_input = URL, tg_canonical = ''a.com'' \<rparr>],
     sf_environments = [''t1'' \<mapsto> STAGING], sf_operators = [''op''], sf_scans = [],
     sf_grants = [sample_grant], sf_stops = [], sf_leases = [], sf_consumptions = [], sf_counters = [],
     sf_audit = [], sf_log = [] \<rparr>"

definition sample_request :: admission_request where
  "sample_request = \<lparr> ar_target = ''t1'', ar_class = X_BROWSER,
     ar_destination = To_Web \<lparr> wd_host = ''A.com'', wd_path = ''/x'', wd_scheme = ''https'', wd_port = None \<rparr>,
     ar_execution = ''e1'', ar_scan = None, ar_key = ''k1'', ar_request = True, ar_concurrency = True \<rparr>"

definition sample_admission :: "admission_result \<times> safety_db" where
  "sample_admission = request_admission False id 5 6 ''l1'' ''tok'' sample_request sample_safety"

lemma sample_safety_ok: "safety_ok t sample_safety"
  by (simp add: safety_ok_def cache_exact_def within_budgets_def one_key_live_def keys_unique_def
      sample_safety_def sample_grant_def active_of_def requests_of_def slots_of_def consumed_of_def
      find_counter_def)

lemma sample_admission_granted: "fst sample_admission = Granted ''g1'' (Some (''l1'', ''tok'')) False"
  by code_simp

theorem admission_outcome_witness:
  "safety_ok 6 sample_safety
   \<and> fst sample_admission = Granted ''g1'' (Some (''l1'', ''tok'')) False
   \<and> admitted id 6 ''l1'' ''tok'' sample_request sample_safety (snd sample_admission) ''g1''
       (Some (''l1'', ''tok'')) False"
proof -
  have run: "request_admission False id 5 6 ''l1'' ''tok'' sample_request sample_safety
      = (fst sample_admission, snd sample_admission)"
    by (simp add: sample_admission_def)
  show ?thesis
    using admission_outcome [OF sample_safety_ok run] sample_admission_granted sample_safety_ok by simp
qed

section \<open>The books over any run\<close>

text \<open>No two live leases of one execution are of one grant, and they share their idempotency key.\<close>

definition exclusive :: "millis \<Rightarrow> lease_row list \<Rightarrow> bool" where
  "exclusive t ls =
     list_all (\<lambda>a. list_all (\<lambda>b. if is_live t a \<and> is_live t b \<and> ls_execution a = ls_execution b
                                  then ls_key a = ls_key b \<and> (ls_grant a = ls_grant b) = (a = b)
                                  else True) ls) ls"

lemma exclusive_leases:
  assumes "safety_ok t db"
  shows "exclusive t (sf_leases db)"
proof -
  have key: "distinct (map (\<lambda>l. (ls_grant l, ls_key l)) (sf_leases db))" and one: "one_key_live t db"
    using assms by (auto simp: safety_ok_def keys_unique_def)
  have same: "a = b" if "a \<in> set (sf_leases db)" "b \<in> set (sf_leases db)"
    "ls_grant a = ls_grant b" "ls_key a = ls_key b" for a b
    using key that by (auto simp: distinct_map dest: inj_onD)
  show ?thesis
    unfolding exclusive_def list_all_iff
  proof (intro ballI)
    fix a b assume ab: "a \<in> set (sf_leases db)" "b \<in> set (sf_leases db)"
    show "if is_live t a \<and> is_live t b \<and> ls_execution a = ls_execution b
      then ls_key a = ls_key b \<and> (ls_grant a = ls_grant b) = (a = b) else True"
    proof (cases "is_live t a \<and> is_live t b \<and> ls_execution a = ls_execution b")
      case True
      with one ab have "ls_key a = ls_key b" unfolding one_key_live_def by blast
      moreover have "(ls_grant a = ls_grant b) = (a = b)"
        using same [OF ab _ calculation] by blast
      ultimately show ?thesis by simp
    next
      case False
      then show ?thesis by (simp only: if_False)
    qed
  qed
qed

text \<open>C2: Over every sequence of admissions, renewals, releases, reclaims, stops, grants,
  revocations, narrowings and reclassifications, in any order: each grant's counter equals the
  leases that hold a slot and the requests consumed, no grant is ever over its request or its
  concurrency budget, and the live leases of one execution are on different grants and share their
  idempotency key.\<close>

theorem books_hold:
  assumes "safety_run to_ascii url_hostname t db t' db'" and "safety_ok t db"
  shows "list_all (\<lambda>g. slots_of db' (gr_id g) \<le> gr_concurrency g
             \<and> consumed_of db' (gr_id g) \<le> gr_requests g
             \<and> active_of db' (gr_id g) = slots_of db' (gr_id g)
             \<and> requests_of db' (gr_id g) = consumed_of db' (gr_id g)) (sf_grants db')
         \<and> exclusive t' (sf_leases db')"
proof -
  have ok: "safety_ok t' db'" using safety_ok_run [OF assms] .
  then show ?thesis
    using exclusive_leases [OF ok]
    by (auto simp: safety_ok_def within_budgets_def cache_exact_def list_all_iff)
qed

lemma sample_run: "safety_run id Some 0 sample_safety 6 (snd sample_admission)"
proof -
  have "safety_step id Some 6 sample_safety (snd sample_admission)"
    by (rule step_admit [where lid = "''l1''" and tok = "''tok''" and broken = False and seen = 5
          and r = sample_request and res = "fst sample_admission"])
      (simp_all add: sample_safety_def sample_admission_def)
  then show ?thesis
    by (rule run_step [OF run_refl, rotated]) simp
qed

theorem books_hold_witness:
  "slots_of (snd sample_admission) ''g1'' = 1 \<and> consumed_of (snd sample_admission) ''g1'' = 1
   \<and> list_all (\<lambda>g. slots_of (snd sample_admission) (gr_id g) \<le> gr_concurrency g) (sf_grants (snd sample_admission))"
proof -
  have "slots_of (snd sample_admission) ''g1'' = 1 \<and> consumed_of (snd sample_admission) ''g1'' = 1"
    by code_simp
  with books_hold [OF sample_run sample_safety_ok] show ?thesis by (auto simp: list_all_iff)
qed

end
