(* ===== verification/Stop_Theorems.thy ===== *)
theory Stop_Theorems
  imports Safety_Theorems
begin

text \<open>
  The properties of stops, checkpoints, revocation and narrowing.
\<close>

section \<open>Stops\<close>






section \<open>Checkpoints\<close>







end
