(* ===== verification/Grant_Theorems.thy ===== *)
theory Grant_Theorems
  imports Stop_Theorems
begin

text \<open>
  The properties of ending a grant: revocation and reclassification stop what runs under it,
  narrowing only reduces it, and narrowing alone stops nothing.
\<close>

section \<open>Revocation and reclassification\<close>

lemma trigger_blocks:
  assumes "trigger_stop now sid sc i by' reason db = Inr (r, db')" 
  shows "blocked sc i db'"
proof -
  have plat: "sc = SC_PLATFORM \<longrightarrow> i = ''platform''"
    using assms by (auto simp: trigger_stop_def f07_trigger_stop_def split: if_splits)
  show ?thesis
  proof (cases "find_stop db sc i")
    case None
    with assms plat show ?thesis
      by (auto simp: trigger_stop_def f07_trigger_stop_def Let_def blocked_def blocks_admission_def
          split: if_splits)
  next
    case (Some k)
    then have k: "k \<in> set (sf_stops db)" "st_scope k = sc" "st_scope_id k = i"
      by (auto simp: find_stop_def find_Some_iff)
    show ?thesis
    proof (cases "is_stop_pending (st_state k)")
      case True
      with assms Some k plat show ?thesis
        by (auto simp: trigger_stop_def f07_trigger_stop_def Let_def blocked_def blocks_admission_def
            list_ex_iff is_stop_pending_def split: if_splits)
    next
      case False
      let ?f = "\<lambda>k. \<lparr> st_id = st_id k, st_scope = sc, st_scope_id = i, st_state = K_REQUESTED,
        st_triggered_by = by', st_reason = reason, st_requested = now, st_acknowledged = None,
        st_stopped = None, st_escalated = None \<rparr>"
      from False assms Some have "sf_stops db' = sf_stops (update_stop sc i ?f db)"
        by (auto simp: trigger_stop_def f07_trigger_stop_def Let_def split: if_splits)
      then have "?f k \<in> set (sf_stops db')" using k by (force simp: update_stop_def)
      then show ?thesis
        using plat unfolding blocked_def list_ex_iff blocks_admission_def
        by (auto intro!: bexI [of _ "?f k"])
    qed
  qed
qed




lemma trigger_keeps:
  assumes "trigger_stop now sid sc i by' reason db = Inr (r, db')"
  shows "sf_grants db' = sf_grants db" "sf_environments db' = sf_environments db"
    "blocked sc2 i2 db \<Longrightarrow> blocked sc2 i2 db'"
proof -
  show "sf_grants db' = sf_grants db" "sf_environments db' = sf_environments db"
    using assms by (auto simp: trigger_stop_def f07_trigger_stop_def Let_def split: if_splits option.splits)
  assume b: "blocked sc2 i2 db"
  show "blocked sc2 i2 db'"
  proof -
    let ?f = "\<lambda>k. \<lparr> st_id = st_id k, st_scope = sc, st_scope_id = i, st_state = K_REQUESTED,
      st_triggered_by = by', st_reason = reason, st_requested = now, st_acknowledged = None,
      st_stopped = None, st_escalated = None \<rparr>"
    let ?new = "\<lparr> st_id = sid, st_scope = sc, st_scope_id = i, st_state = K_REQUESTED,
      st_triggered_by = by', st_reason = reason, st_requested = now, st_acknowledged = None,
      st_stopped = None, st_escalated = None \<rparr>"
    have "sf_stops db' \<in> {sf_stops db, sf_stops db @ [?new], sf_stops (update_stop sc i ?f db)}"
      using assms unfolding trigger_stop_def f07_trigger_stop_def Let_def
      by (cases "find_stop db sc i") (simp_all split: if_split_asm, (elim conjE, hypsubst, simp)+)
    then consider "sf_stops db' = sf_stops db"
      | "sf_stops db' = sf_stops (db\<lparr> sf_stops := sf_stops db @ [?new] \<rparr>)"
      | "sf_stops db' = sf_stops (update_stop sc i ?f db)" by fastforce
    then show ?thesis
    proof cases
      case 1
      show ?thesis using b blocked_same [OF 1] by simp
    next
      case 2
      have "blocked sc2 i2 (db\<lparr> sf_stops := sf_stops db @ [?new] \<rparr>)"
        using b by (auto simp: blocked_def)
      then show ?thesis using blocked_same [OF 2] by blast
    next
      case 3
      have "blocked sc2 i2 (update_stop sc i ?f db)"
        by (rule blocked_update_stop [OF b]) (simp_all add: blocks_admission_def)
      then show ?thesis using blocked_same [OF 3] by blast
    qed
  qed
qed

lemma trigger_all_blocks:
  "trigger_all now new_id gs db = Inr db' \<Longrightarrow> sf_grants db' = sf_grants db
     \<and> sf_environments db' = sf_environments db
     \<and> list_all (\<lambda>g. blocked SC_GRANT g db') gs \<and> (\<forall>sc i. blocked sc i db \<longrightarrow> blocked sc i db')"
proof (induction gs arbitrary: db)
  case (Cons g gs)
  then obtain r d where d: "trigger_stop now (new_id g) SC_GRANT g ''SYSTEM'' ENVIRONMENT_RECLASSIFIED db
      = Inr (r, d)" "trigger_all now new_id gs d = Inr db'"
    by (auto split: sum.splits)
  have "blocked SC_GRANT g d" using trigger_blocks [OF d(1)] .
  with Cons.IH [OF d(2)] trigger_keeps [OF d(1)] show ?case by simp
qed simp

text \<open>C31: A reclassification by the target's owner that changes the environment leaves a pending stop
  on every grant of the target that is live and does not permit the new environment, so that the
  work admitted under the old classification is told to stop; classifying a target for the first
  time, or again as it is, requests no stop.\<close>

theorem reclassification_stops:
  "case classify_environment now db_now new_id t acting env db of
     Inl _ \<Rightarrow> True
   | Inr db' \<Rightarrow> sf_environments db' = (sf_environments db)(t := Some env)
       \<and> (if sf_environments db t = None \<or> sf_environments db t = Some env
          then sf_stops db' = sf_stops db
          else list_all (\<lambda>g. if gr_target g = t \<and> gr_user g = acting \<and> gr_revoked g = None
                   \<and> now < gr_expires g \<and> env \<notin> set (gr_environments g)
                 then blocked SC_GRANT (gr_id g) db' else True) (sf_grants db'))"
proof (cases "classify_environment now db_now new_id t acting env db")
  case (Inl e)
  then show ?thesis by simp
next
  case (Inr db')
  let ?e = "sf_environments db t"
  let ?d = "log_entry acting (if ?e = None then ''environment.classified'' else ''environment.reclassified'') t
    (db\<lparr> sf_environments := (sf_environments db)(t := Some env) \<rparr>)"
  let ?hit = "\<lambda>g. gr_target g = t \<and> gr_user g = acting \<and> gr_revoked g = None
                   \<and> now < gr_expires g \<and> env \<notin> set (gr_environments g)"
  have d: "sf_environments ?d = (sf_environments db)(t := Some env)" "sf_grants ?d = sf_grants db"
    "sf_stops ?d = sf_stops db" by (simp_all add: log_entry_def)
  show ?thesis
  proof (cases "?e = None \<or> ?e = Some env")
    case True
    then have "db' = ?d" using Inr unfolding classify_environment_def Let_def
      by (auto split: option.splits if_splits)
    with True Inr d show ?thesis by auto
  next
    case False
    then have "trigger_all db_now new_id (map gr_id (filter ?hit (sf_grants ?d))) ?d = Inr db'"
      using Inr unfolding classify_environment_def Let_def by (auto split: option.splits)
    from trigger_all_blocks [OF this] d False Inr show ?thesis by (auto simp: list_all_iff)
  qed
qed

section \<open>Narrowing\<close>

lemma narrowed_budgets_le:
  assumes "narrowed_budgets g p now = Some b"
  shows "bu_requests b \<le> gr_requests g \<and> bu_concurrency b \<le> gr_concurrency g
    \<and> now + bu_duration b * 1000 \<le> max (gr_expires g) (now + 1000)"
proof -
  have le: "narrow_to c q = Some v \<Longrightarrow> v \<le> c" for c q v
    by (auto simp: narrow_to_def split: option.splits if_splits)
  have "bu_duration b \<le> max 1 (min (gr_duration g) ((gr_expires g - now) div 1000))"
    "bu_requests b \<le> gr_requests g" "bu_concurrency b \<le> gr_concurrency g"
    using assms le by (auto simp: narrowed_budgets_def Let_def split: option.splits)
  moreover have "(gr_expires g - now) div 1000 * 1000 \<le> gr_expires g - now"
    using div_mult_mod_eq [of "gr_expires g - now" 1000] by simp
  ultimately show ?thesis by (auto simp: max_def min_def split: if_splits)
qed

lemma narrow_cases:
  assumes "narrow_authorization f u control new_gid now gid who sc p seen db = Inr (n, db')"
  obtains g b t where "g \<in> set (sf_grants seen)" "gr_id g = gid" "gr_user g = who"
    "gr_revoked g = None" "now < gr_expires g" "narrowed_budgets g p now = Some b"
    "validate_grant_request f u control seen \<lparr> cr_target = gr_target g, cr_user = who,
       cr_classes = gr_classes g, cr_scope = sc, cr_environments = gr_environments g, cr_budgets = b \<rparr> = Inr t"
    "replace_grant new_gid now gid who \<lparr> cr_target = gr_target g, cr_user = who,
       cr_classes = gr_classes g, cr_scope = sc, cr_environments = gr_environments g, cr_budgets = b \<rparr> t db
       = Inr (n, db')"
proof -
  obtain g where g: "List.find (\<lambda>g. gr_id g = gid \<and> gr_user g = who) (sf_grants seen) = Some g"
    using assms by (auto simp: narrow_authorization_def split: option.splits)
  then have gs: "g \<in> set (sf_grants seen)" "gr_id g = gid" "gr_user g = who"
    by (auto simp: find_Some_iff)
  show thesis
    using assms g that [OF gs] unfolding narrow_authorization_def Let_def
    by (auto split: if_splits option.splits sum.splits simp: not_le)
qed

lemma replace_grant_run:
  assumes "replace_grant new_gid now gid who i t db = Inr (n, db')"
  shows "list_ex (live_grant now gid who) (sf_grants db)"
    and "n = fst (insert_grant new_gid now i t db)"
    and "sf_grants db' = map (\<lambda>r. if live_grant now gid who r then revoke_row now r else r) (sf_grants db) @ [n]"
    and "sf_stops db' = sf_stops db" and "sf_leases db' = sf_leases db"
    and "sf_counters db' = sf_counters db"
  using assms
  by (auto simp: replace_grant_def Let_def insert_grant_def log_entry_def split: if_splits)

lemma validate_grant_target:
  "validate_grant_request f u control db i = Inr t \<Longrightarrow> tg_id t = cr_target i
     \<and> scope_bounded f u (cr_scope i) (tg_canonical t)"
  by (auto simp: validate_grant_request_def find_Some_iff split: option.splits if_splits)

text \<open>C32: Narrowing replaces a live grant by a new one for the same target, classes and environments,
  whose scope is bounded to the target, whose request and concurrency budgets are at most the
  original's and whose expiry is at most the original's, or one second from now where less than that
  remained; the original is revoked in the same transaction, and of two concurrent narrowings the
  later to write finds no live row and fails.  It requests no stop and touches no lease.\<close>

theorem narrowing_narrows:
  "case narrow_authorization to_ascii url_hostname control new_gid now gid acting scope p seen db of
     Inl _ \<Rightarrow> True
   | Inr (n, db') \<Rightarrow>
       list_ex (\<lambda>g. gr_id g = gid \<and> gr_user g = acting \<and> gr_target n = gr_target g
           \<and> gr_classes n = gr_classes g \<and> gr_environments n = gr_environments g
           \<and> gr_requests n \<le> gr_requests g \<and> gr_concurrency n \<le> gr_concurrency g
           \<and> gr_expires n \<le> max (gr_expires g) (now + 1000)) (sf_grants seen)
       \<and> gr_scope n = scope
       \<and> list_ex (live_grant now gid acting) (sf_grants db)
       \<and> sf_grants db' =
           map (\<lambda>r. if live_grant now gid acting r then revoke_row now r else r) (sf_grants db) @ [n]
       \<and> sf_stops db' = sf_stops db \<and> sf_leases db' = sf_leases db"
proof (cases "narrow_authorization to_ascii url_hostname control new_gid now gid acting scope p seen db")
  case (Inr r)
  obtain n db' where r: "r = (n, db')" by fastforce
  from Inr r have run: "narrow_authorization to_ascii url_hostname control new_gid now gid acting scope p
    seen db = Inr (n, db')" by simp
  show ?thesis
  proof (rule narrow_cases [OF run])
    fix g :: grant_row and b :: budgets and t :: target_row
    let ?i = "\<lparr> cr_target = gr_target g, cr_user = acting, cr_classes = gr_classes g, cr_scope = scope,
      cr_environments = gr_environments g, cr_budgets = b \<rparr>"
    assume g: "g \<in> set (sf_grants seen)" "gr_id g = gid" "gr_user g = acting"
      and b: "narrowed_budgets g p now = Some b"
      and v: "validate_grant_request to_ascii url_hostname control seen ?i = Inr t"
      and run: "replace_grant new_gid now gid acting ?i t db = Inr (n, db')"
    note facts = replace_grant_run [OF run] narrowed_budgets_le [OF b] validate_grant_target [OF v]
    have "gr_target n = gr_target g \<and> gr_classes n = gr_classes g \<and> gr_environments n = gr_environments g
      \<and> gr_scope n = scope \<and> gr_requests n = bu_requests b \<and> gr_concurrency n = bu_concurrency b
      \<and> gr_expires n = now + bu_duration b * 1000"
      using facts(2,8) by (simp add: insert_grant_def Let_def)
    then show ?thesis
      using facts g Inr r unfolding list_ex_iff by auto
  qed
qed simp

text \<open>A grant narrowed under a running execution: the execution's lease stays live on the revoked
  grant, and nothing covers it with a stop, although a revocation of the same grant would have
  requested one.\<close>

definition sample_narrowed :: safety_db where
  "sample_narrowed = snd (projr (narrow_authorization id Some C_ATTESTED ''g2'' 9 ''g1'' ''u1'' sample_scope
     \<lparr> pb_requests = None, pb_concurrency = None, pb_duration = None \<rparr>
     (snd sample_admission) (snd sample_admission)))"

lemma narrowed_grant_still_running:
  "map (\<lambda>g. (gr_id g, gr_revoked g)) (sf_grants sample_narrowed) = [(''g1'', Some 9), (''g2'', None)]
   \<and> map (\<lambda>l. (ls_grant l, is_live 9 l)) (sf_leases sample_narrowed) = [(''g1'', True)]
   \<and> sf_stops sample_narrowed = []"
  by code_simp

text \<open>The replacement starts with a fresh counter: after the original's requests were used, the same
  number of requests is available again.\<close>

lemma narrowed_grant_fresh_budget:
  "(consumed_of sample_narrowed ''g1'', consumed_of sample_narrowed ''g2'',
    map gr_requests (sf_grants sample_narrowed)) = (1, 0, [2, 2])"
  by code_simp

text \<open>Less than a second before the end of the original, the replacement outlives it.\<close>

lemma narrowing_may_extend:
  "narrowed_budgets sample_grant \<lparr> pb_requests = None, pb_concurrency = None, pb_duration = None \<rparr> 3599900
   = Some \<lparr> bu_requests = 2, bu_concurrency = 1, bu_duration = 1 \<rparr>
   \<and> gr_expires sample_grant < 3599900 + 1 * 1000"
  by code_simp

section \<open>Two grants of one target\<close>

definition two_grants :: safety_db where
  "two_grants = sample_safety\<lparr> sf_grants :=
     [sample_grant\<lparr> gr_scope := sample_scope\<lparr> sd_included_hosts := [''x.a.com''] \<rparr> \<rparr>,
      sample_grant\<lparr> gr_id := ''g2'', gr_scope := sample_scope\<lparr> sd_included_hosts := [''y.a.com''] \<rparr> \<rparr>] \<rparr>"

definition request_at :: "string \<Rightarrow> admission_request" where
  "request_at host = sample_request\<lparr> ar_destination :=
     To_Web \<lparr> wd_host = host, wd_path = ''/'', wd_scheme = ''https'', wd_port = None \<rparr> \<rparr>"

definition first_lease :: safety_db where
  "first_lease = snd (request_admission False id 5 6 ''l1'' ''tok1'' (request_at ''x.a.com'') two_grants)"

text \<open>One execution with one idempotency key holds a live lease on each of the two grants.\<close>

lemma execution_leased_twice:
  "(case request_admission False id 7 8 ''l2'' ''tok2'' (request_at ''y.a.com'') first_lease of
      (res, db) \<Rightarrow> (res, map (\<lambda>l. (ls_execution l, ls_grant l, is_live 8 l)) (sf_leases db)))
   = (Granted ''g2'' (Some (''l2'', ''tok2'')) False, [(''e1'', ''g1'', True), (''e1'', ''g2'', True)])"
  by code_simp



end
