(* ===== verification/Units.thy ===== *)
theory Units
  imports Plan_Deadline Checkpoint
begin

text \<open>
  Execution units at run time: the tables, the guard of the unit's transitions, and the database
  functions of the execution platform's migrations.  The safety foundation's tables are a component
  of the state.  A raised exception is \<open>Inl\<close>: the transaction rolls back.
\<close>

section \<open>Tables\<close>

datatype failure_class =
    F_TRANSIENT_INFRASTRUCTURE
  | F_DETERMINISTIC_FINDING
  | F_TARGET_UNAVAILABLE
  | F_SAFETY_REFUSED
  | F_TIMEOUT
  | F_ENGINE_DEFECT
  | F_INVALID_CONFIGURATION
  | F_CUSTOMER_CODE_FAILURE
  | F_EXTERNAL_DEPENDENCY_FAILURE

record progress_snapshot =
  ps_label :: string
  ps_done :: "int option"
  ps_total :: "int option"
  ps_at :: millis

record unit_row =
  eu_id :: string
  eu_plan :: string
  eu_user :: user_id
  eu_target :: string
  eu_grant :: "string option"
  eu_class :: execution_unit_class
  eu_engine :: string
  eu_domain :: "string option"
  eu_timeout :: millis
  eu_checkpoint :: bool
  eu_key :: string
  eu_status :: execution_unit_status
  eu_attempt :: int
  eu_blocked_by :: "string option"
  eu_failure :: "failure_class option"
  eu_reason :: "string option"
  eu_progress :: "progress_snapshot option"
  eu_indeterminate :: bool
  eu_dispatched :: "millis option"
  eu_started :: "millis option"
  eu_completed :: "millis option"

record plan_row = deadline_plan +
  pl_id :: string
  pl_scan :: "string option"

record exec_scan =
  xs_id :: string
  xs_state :: scan_state
  xs_started :: "millis option"
  xs_requested :: "string list"

record claim_row =
  cl_unit :: string
  cl_attempt :: int
  cl_plan :: string
  cl_user :: user_id
  cl_host :: string
  cl_hash :: string

datatype effect_state = E_AUTHORIZED | E_CONFIRMED | E_ABANDONED

record effect_row =
  ef_unit :: string
  ef_attempt :: int
  ef_kind :: string
  ef_ordinal :: int
  ef_user :: user_id
  ef_state :: effect_state
  ef_confirmed :: "millis option"

record module_row =
  mr_scan :: string
  mr_module :: string
  mr_state :: module_state

record exec_db =
  ex_units :: "unit_row list"
  ex_edges :: "graph_edge list"
  ex_plans :: "plan_row list"
  ex_scans :: "exec_scan list"
  ex_modules :: "module_row list"
  ex_claims :: "claim_row list"
  ex_effects :: "effect_row list"
  ex_safety :: safety_db

datatype exec_error =
    Deadline_Threw deadline_error
  | Invalid_Failure_Class
  | Unit_Not_Found
  | Stale_Idempotency_Key
  | Invalid_Transition
  | Transition_Guard
  | Safety_Threw
  | Passive_Not_Completable
  | Passive_Plan_Not_Running
  | Passive_Scan_Not_Running
  | Passive_Prerequisite_Unmet
  | Passive_Without_Domain
  | Passive_Module_Not_Terminal
  | Fork_Failed
  | Invalid_Margin
  | Graph_Threw

definition find_unit :: "exec_db \<Rightarrow> string \<Rightarrow> unit_row option" where
  "find_unit db i = find_row eu_id i (ex_units db)"

definition find_plan :: "exec_db \<Rightarrow> string \<Rightarrow> plan_row option" where
  "find_plan db i = find_row pl_id i (ex_plans db)"

definition find_scan :: "exec_db \<Rightarrow> string \<Rightarrow> exec_scan option" where
  "find_scan db i = find_row xs_id i (ex_scans db)"

definition scan_of_plan :: "exec_db \<Rightarrow> plan_row option \<Rightarrow> exec_scan option" where
  "scan_of_plan db p =
     (case p of None \<Rightarrow> None
      | Some q \<Rightarrow> (case pl_scan q of None \<Rightarrow> None | Some s \<Rightarrow> find_scan db s))"

definition is_terminal :: "unit_row \<Rightarrow> bool" where
  "is_terminal u = is_terminal_unit_status (eu_status u)"

section \<open>The transition guard\<close>

fun unit_transitions :: "execution_unit_status \<Rightarrow> execution_unit_status list" where
  "unit_transitions U_PLANNED = [U_ADMITTED, U_BLOCKED, U_REFUSED, U_COMPLETED]"
| "unit_transitions U_ADMITTED = [U_DISPATCHED, U_REFUSED]"
| "unit_transitions U_DISPATCHED = [U_RUNNING, U_REFUSED]"
| "unit_transitions U_RUNNING = [U_COMPLETED, U_FAILED, U_CANCELLED, U_KILLED]"
| "unit_transitions _ = []"

definition same_frozen :: "unit_row \<Rightarrow> unit_row \<Rightarrow> bool" where
  "same_frozen a b =
     (eu_id a = eu_id b \<and> eu_plan a = eu_plan b \<and> eu_user a = eu_user b \<and> eu_target a = eu_target b
      \<and> eu_class a = eu_class b \<and> eu_key a = eu_key b \<and> eu_domain a = eu_domain b
      \<and> eu_checkpoint a = eu_checkpoint b)"

text \<open>\<open>passive\<close> is the transaction's flag of passive completion, \<open>runtime\<close> that the statement runs as
  a runtime login and not inside a definer function.\<close>

definition unit_guard :: "bool \<Rightarrow> bool \<Rightarrow> unit_row \<Rightarrow> unit_row \<Rightarrow> bool" where
  "unit_guard passive runtime old new =
     (same_frozen old new \<and> \<not> is_terminal old
      \<and> (eu_status new = eu_status old \<or> eu_status new \<in> set (unit_transitions (eu_status old)))
      \<and> (if eu_status old = U_PLANNED \<and> eu_status new = U_COMPLETED
         then eu_class old = TELEMETRY
           \<or> (eu_class old = PASSIVE_HTTP \<or> eu_class old = SOURCE_STATIC) \<and> passive
         else True)
      \<and> (if is_terminal new \<and> eu_status new \<noteq> eu_status old then \<not> runtime else True))"

text \<open>\<^verbatim>\<open>UPDATE ... WHERE id = i\<close> under the guard trigger.\<close>

definition update_unit ::
    "bool \<Rightarrow> bool \<Rightarrow> string \<Rightarrow> (unit_row \<Rightarrow> unit_row) \<Rightarrow> unit_row list \<Rightarrow> exec_error + unit_row list" where
  "update_unit passive runtime i f us =
     (if list_all (\<lambda>u. if eu_id u = i then unit_guard passive runtime u (f u) else True) us
      then Inr (update_rows eu_id i f us) else Inl Transition_Guard)"

section \<open>Blocking the dependents\<close>

definition block_row :: "millis \<Rightarrow> string \<Rightarrow> unit_row \<Rightarrow> unit_row" where
  "block_row now by' u =
     u\<lparr> eu_status := U_BLOCKED, eu_blocked_by := Some by', eu_completed := Some now \<rparr>"

fun block_dependents ::
    "millis \<Rightarrow> string \<Rightarrow> string list \<Rightarrow> unit_row list \<Rightarrow> exec_error + unit_row list" where
  "block_dependents now c [] us = Inr us"
| "block_dependents now c (d # ds) us =
     (case update_unit False False d (block_row now c) us of
        Inl e \<Rightarrow> Inl e
      | Inr us' \<Rightarrow> block_dependents now c ds us')"

text \<open>The dependents of \<open>c\<close> that are not terminal, by id; an edge is unique.\<close>

definition open_dependents :: "graph_edge list \<Rightarrow> string \<Rightarrow> unit_row list \<Rightarrow> string list" where
  "open_dependents edges c us =
     sort (map eu_id (filter (\<lambda>u. \<not> is_terminal u
        \<and> list_ex (\<lambda>e. ge_unit e = eu_id u \<and> ge_dep e = c) edges) us))"

definition live_units :: "unit_row list \<Rightarrow> nat" where
  "live_units us = length (filter (\<lambda>u. \<not> is_terminal u) us)"

lemma terminal_block_row [simp]: "is_terminal (block_row now c u)"
  by (simp add: is_terminal_def block_row_def is_terminal_unit_status_def terminal_statuses_def)

lemma live_units_update:
  assumes "\<And>u. is_terminal (f u)"
  shows "live_units (update_rows eu_id i f us)
    + length (filter (\<lambda>u. eu_id u = i \<and> \<not> is_terminal u) us) = live_units us"
  using assms by (induction us) (auto simp: live_units_def update_rows_def)

lemma live_units_block:
  "block_dependents now c ds us = Inr us' \<Longrightarrow> \<forall>d \<in> set ds. d \<in> eu_id ` set us
   \<Longrightarrow> live_units us' + length ds \<le> live_units us"
proof (induction ds arbitrary: us)
  case (Cons d ds)
  let ?us = "update_rows eu_id d (block_row now c) us"
  have run: "update_unit False False d (block_row now c) us = Inr ?us"
    and rest: "block_dependents now c ds ?us = Inr us'"
    using Cons.prems(1) by (auto simp: update_unit_def split: sum.splits if_splits)
  obtain u where u: "u \<in> set us" "eu_id u = d" using Cons.prems(2) by auto
  have "\<not> is_terminal u"
    using run u by (auto simp: update_unit_def list_all_iff unit_guard_def split: if_splits)
  with u have "u \<in> set (filter (\<lambda>u. eu_id u = d \<and> \<not> is_terminal u) us)" by simp
  then have "0 < length (filter (\<lambda>u. eu_id u = d \<and> \<not> is_terminal u) us)"
    by (metis length_pos_if_in_set)
  moreover have "live_units ?us + length (filter (\<lambda>u. eu_id u = d \<and> \<not> is_terminal u) us) = live_units us"
    by (rule live_units_update) simp
  ultimately have less: "live_units ?us < live_units us" by linarith
  have "map eu_id ?us = map eu_id us" by (simp add: update_rows_def block_row_def)
  then have "eu_id ` set ?us = eu_id ` set us" by (metis set_map)
  with Cons.IH [OF rest] Cons.prems(2) less show ?case by simp
qed simp

text \<open>The queue of the finalizer's loop.  Each unit enters it once, when it becomes blocked.\<close>

function block_queue ::
    "millis \<Rightarrow> graph_edge list \<Rightarrow> string list \<Rightarrow> unit_row list
     \<Rightarrow> exec_error + string list \<times> unit_row list" where
  "block_queue now edges [] us = Inr ([], us)"
| "block_queue now edges (c # q) us =
     (let ds = open_dependents edges c us in
      (case block_dependents now c ds us of
         Inl e \<Rightarrow> Inl e
       | Inr us' \<Rightarrow>
           (case block_queue now edges (q @ ds) us' of
              Inl e \<Rightarrow> Inl e
            | Inr (blocked, us'') \<Rightarrow> Inr (ds @ blocked, us''))))"
  by pat_completeness auto
termination
proof (relation "measure (\<lambda>(now, edges, q, us). length q + live_units us)")
  fix now :: millis and edges c q us ds us'
  assume ds: "ds = open_dependents edges c us"
    and run: "block_dependents now c ds us = Inr us'"
  have "live_units us' + length ds \<le> live_units us"
    using live_units_block [OF run] ds by (auto simp: open_dependents_def)
  then show "((now, edges, q @ ds, us'), (now, edges, c # q, us)) \<in>
    measure (\<lambda>(now, edges, q, us). length q + live_units us)" by simp
qed simp

section \<open>The finalizer\<close>

datatype final_kind = Fin_Completed | Fin_Failed | Fin_Cancelled | Fin_Killed | Fin_Refused

fun final_status :: "final_kind \<Rightarrow> execution_unit_status" where
  "final_status Fin_Completed = U_COMPLETED"
| "final_status Fin_Failed = U_FAILED"
| "final_status Fin_Cancelled = U_CANCELLED"
| "final_status Fin_Killed = U_KILLED"
| "final_status Fin_Refused = U_REFUSED"

record finalize_result =
  fr_status :: execution_unit_status
  fr_replayed :: bool
  fr_matches :: bool
  fr_blocked :: "string list"

definition final_allowed :: "final_kind \<Rightarrow> unit_row \<Rightarrow> bool" where
  "final_allowed k u =
     (k = Fin_Refused \<and> eu_status u \<in> {U_PLANNED, U_ADMITTED, U_DISPATCHED}
      \<or> k \<noteq> Fin_Refused \<and> eu_status u = U_RUNNING
      \<or> k = Fin_Completed \<and> eu_status u = U_PLANNED \<and> eu_class u = TELEMETRY)"

definition final_row ::
    "millis \<Rightarrow> final_kind \<Rightarrow> failure_class option \<Rightarrow> string option \<Rightarrow> progress_snapshot option
     \<Rightarrow> unit_row \<Rightarrow> unit_row" where
  "final_row now k fc reason progress u =
     u\<lparr> eu_status := final_status k, eu_failure := fc, eu_reason := reason, eu_completed := Some now,
        eu_progress := (case progress of None \<Rightarrow> eu_progress u | Some p \<Rightarrow> Some p) \<rparr>"

definition abandon_effects :: "string \<Rightarrow> effect_row list \<Rightarrow> effect_row list" where
  "abandon_effects i es =
     map (\<lambda>e. if ef_unit e = i \<and> ef_state e = E_AUTHORIZED then e\<lparr> ef_state := E_ABANDONED \<rparr> else e) es"

text \<open>Leases and the execution's stop: \<^verbatim>\<open>f07_release_leases_by_execution\<close>, then
  \<^verbatim>\<open>f07_ack_stop_by_authority\<close>.\<close>

definition settle_safety :: "millis \<Rightarrow> string \<Rightarrow> safety_db \<Rightarrow> safety_db option" where
  "settle_safety now i db =
     (case f07_release_leases_by_execution now i db of
        None \<Rightarrow> None
      | Some (_, db1) \<Rightarrow>
          (case f07_ack_stop_by_authority now i db1 of
             Inl _ \<Rightarrow> None
           | Inr (_, db2) \<Rightarrow> Some db2))"

definition fahes_finalize_unit ::
    "millis \<Rightarrow> string \<Rightarrow> string \<Rightarrow> final_kind \<Rightarrow> failure_class option \<Rightarrow> string option
     \<Rightarrow> progress_snapshot option \<Rightarrow> exec_db \<Rightarrow> exec_error + finalize_result \<times> exec_db" where
  "fahes_finalize_unit now i key k fc reason progress db =
     (if (k = Fin_Failed) \<noteq> (fc \<noteq> None) \<or> fc = Some F_DETERMINISTIC_FINDING then Inl Invalid_Failure_Class
      else (case find_unit db i of
          None \<Rightarrow> Inl Unit_Not_Found
        | Some u \<Rightarrow>
            if eu_key u \<noteq> key then Inl Stale_Idempotency_Key
            else if is_terminal u then
              Inr (\<lparr> fr_status = eu_status u, fr_replayed = True,
                     fr_matches = (eu_status u = final_status k), fr_blocked = [] \<rparr>, db)
            else if \<not> final_allowed k u then Inl Invalid_Transition
            else (case settle_safety now i (ex_safety db) of
                None \<Rightarrow> Inl Safety_Threw
              | Some safe \<Rightarrow>
                  (case update_unit False False i (final_row now k fc reason progress) (ex_units db) of
                     Inl e \<Rightarrow> Inl e
                   | Inr us \<Rightarrow>
                       (case (if k = Fin_Completed then Inr ([], us)
                              else block_queue now (ex_edges db) [i] us) of
                          Inl e \<Rightarrow> Inl e
                        | Inr (blocked, us') \<Rightarrow>
                            Inr (\<lparr> fr_status = final_status k, fr_replayed = False, fr_matches = True,
                                   fr_blocked = blocked \<rparr>,
                                 db\<lparr> ex_units := us', ex_effects := abandon_effects i (ex_effects db),
                                     ex_safety := safe \<rparr>))))))"

section \<open>Passive units\<close>

fun module_text :: "module_state \<Rightarrow> string" where
  "module_text M_PENDING = ''PENDING''"
| "module_text M_RUNNING = ''RUNNING''"
| "module_text M_COMPLETE = ''COMPLETE''"
| "module_text M_DEGRADED = ''DEGRADED''"
| "module_text M_FAILED = ''FAILED''"
| "module_text M_NOT_APPLICABLE = ''NOT_APPLICABLE''"

definition module_result :: "exec_db \<Rightarrow> string \<Rightarrow> string \<Rightarrow> module_state option" where
  "module_result db s m =
     map_option mr_state (List.find (\<lambda>r. mr_scan r = s \<and> mr_module r = m) (ex_modules db))"

definition passive_row :: "millis \<Rightarrow> execution_unit_status \<Rightarrow> string \<Rightarrow> unit_row \<Rightarrow> unit_row" where
  "passive_row now s reason u =
     u\<lparr> eu_status := s, eu_reason := Some reason, eu_completed := Some now \<rparr>"

definition passive_scan_running :: "millis \<Rightarrow> exec_db \<Rightarrow> plan_row \<Rightarrow> bool" where
  "passive_scan_running now db p =
     (case scan_of_plan db (Some p) of
        None \<Rightarrow> False
      | Some s \<Rightarrow> xs_state s \<notin> set scan_states_terminal
          \<and> (case (xs_started s, dp_deadline p) of
               (Some t, Some d) \<Rightarrow> now < t + d
             | _ \<Rightarrow> False))"

definition unmet_prerequisite :: "exec_db \<Rightarrow> string \<Rightarrow> bool" where
  "unmet_prerequisite db i =
     list_ex (\<lambda>e. ge_unit e = i \<and> list_ex (\<lambda>d. eu_id d = ge_dep e \<and> eu_status d \<noteq> U_COMPLETED) (ex_units db))
       (ex_edges db)"

definition fahes_complete_passive_unit ::
    "millis \<Rightarrow> string \<Rightarrow> string \<Rightarrow> exec_db \<Rightarrow> exec_error + (execution_unit_status \<times> bool) \<times> exec_db" where
  "fahes_complete_passive_unit now i key db =
     (case find_unit db i of
        None \<Rightarrow> Inl Unit_Not_Found
      | Some u \<Rightarrow>
          if eu_key u \<noteq> key then Inl Stale_Idempotency_Key
          else if is_terminal u then Inr ((eu_status u, True), db)
          else if eu_class u \<notin> {PASSIVE_HTTP, SOURCE_STATIC} \<or> eu_status u \<noteq> U_PLANNED
          then Inl Passive_Not_Completable
          else (case find_plan db (eu_plan u) of
              None \<Rightarrow> Inl Passive_Plan_Not_Running
            | Some p \<Rightarrow>
                (case pl_scan p of
                   None \<Rightarrow> Inl Passive_Plan_Not_Running
                 | Some s \<Rightarrow>
                     if dp_kind p \<noteq> Initial \<or> dp_state p \<noteq> Resolved_Plan \<or> dp_deadline p = None
                     then Inl Passive_Plan_Not_Running
                     else if \<not> passive_scan_running now db p then Inl Passive_Scan_Not_Running
                     else if unmet_prerequisite db i then Inl Passive_Prerequisite_Unmet
                     else (case eu_domain u of
                         None \<Rightarrow> Inl Passive_Without_Domain
                       | Some m \<Rightarrow>
                           (case module_result db s m of
                              None \<Rightarrow> Inl Passive_Module_Not_Terminal
                            | Some st \<Rightarrow>
                                if st = M_PENDING \<or> st = M_RUNNING then Inl Passive_Module_Not_Terminal
                                else
                                  let to' = (if st = M_COMPLETE \<or> st = M_DEGRADED then U_COMPLETED
                                            else U_REFUSED);
                                      reason = (if to' = U_COMPLETED
                                        then ''PASSIVE_COMPLETED_BY_ORCHESTRATOR''
                                        else ''PASSIVE_MODULE_'' @ module_text st) in
                                  (case update_unit (to' = U_COMPLETED) False i (passive_row now to' reason)
                                          (ex_units db) of
                                     Inl e \<Rightarrow> Inl e
                                   | Inr us \<Rightarrow> Inr ((to', False), db\<lparr> ex_units := us \<rparr>)))))))"

section \<open>Leases and stops of an execution\<close>

text \<open>The lease is the one that holds its slot; its expiry is not asked.\<close>

definition fahes_lock_live_lease :: "string \<Rightarrow> safety_db \<Rightarrow> bool" where
  "fahes_lock_live_lease e db =
     (if e = [] then False else list_ex (\<lambda>l. ls_execution l = e \<and> holds_slot l) (sf_leases db))"

definition unit_identity :: "exec_db \<Rightarrow> unit_row \<Rightarrow> safety_identity" where
  "unit_identity db u =
     \<lparr> id_execution = eu_id u,
       id_scan = (case find_plan db (eu_plan u) of None \<Rightarrow> None | Some p \<Rightarrow> pl_scan p),
       id_grant = (case eu_grant u of None \<Rightarrow> [] | Some g \<Rightarrow> g),
       id_target = eu_target u, id_user = eu_user u \<rparr>"

definition find_pending_stop_reason :: "exec_db \<Rightarrow> unit_row \<Rightarrow> stop_reason option" where
  "find_pending_stop_reason db u = pending_stop_reason (ex_safety db) (unit_identity db u)"

end
