(* ===== verification/Unit_Host.thy ===== *)
theory Unit_Host
  imports Units
begin

text \<open>
  The host's side of an execution unit, \<^verbatim>\<open>apps/api/src/services/execution-runtime\<close>: the cause
  precedence, the claim, the guarded edges and the effect ledger.  Each operation is one
  transaction, \<open>now\<close> the database clock it reads.  \<open>sha\<close> is SHA-256 in hexadecimal.
\<close>

section \<open>Why a unit may not run\<close>

datatype pre_run_cause =
    C_None
  | C_Terminal execution_unit_status
  | C_Stop safety_scope string
  | C_Scan dispatch_refusal
  | C_Not_Started

fun scan_ended :: "scan_state \<Rightarrow> scan_terminal_state option" where
  "scan_ended CANCELLED = Some T_Cancelled"
| "scan_ended FAILED = Some T_Failed"
| "scan_ended TIMED_OUT = Some T_Timed_Out"
| "scan_ended _ = None"

definition legacy_max_duration :: millis where
  "legacy_max_duration = dc_legacy default_deadline_constants"

text \<open>The deadline of a unit's plan: none without a plan row.\<close>

definition plan_deadline_at :: "exec_db \<Rightarrow> plan_row option \<Rightarrow> millis \<Rightarrow> exec_error + millis option" where
  "plan_deadline_at db plan legacy =
     (case plan of
        None \<Rightarrow> Inr None
      | Some p \<Rightarrow>
          (case effective_deadline_at
                  (case scan_of_plan db plan of None \<Rightarrow> None | Some s \<Rightarrow> xs_started s)
                  (Some (deadline_plan.truncate p)) legacy of
             Inl e \<Rightarrow> Inl (Deadline_Threw e)
           | Inr d \<Rightarrow> Inr d))"

definition timing_unit :: "unit_row \<Rightarrow> millis \<Rightarrow> millis \<Rightarrow> deadline_unit" where
  "timing_unit u timeout margin =
     \<lparr> gu_id = eu_id u, gu_class = eu_class u, du_timeout = timeout, du_hard_stop = margin,
       du_attempts = eu_attempt u \<rparr>"

definition classify_pre_run_cause ::
    "millis \<Rightarrow> bool \<Rightarrow> millis \<Rightarrow> unit_row \<Rightarrow> exec_db \<Rightarrow> exec_error + pre_run_cause" where
  "classify_pre_run_cause now running margin u db =
     (if is_terminal u then Inr (C_Terminal (eu_status u))
      else
        let plan = find_plan db (eu_plan u) in
        (case stop_pending (ex_safety db) (unit_identity db u) of
           Some k \<Rightarrow> Inr (C_Stop (st_scope k) (st_scope_id k))
         | None \<Rightarrow>
             (case plan_deadline_at db plan legacy_max_duration of
                Inl e \<Rightarrow> Inl e
              | Inr deadline \<Rightarrow>
                  (case dispatch_deadline_decision now deadline
                          (case scan_of_plan db plan of None \<Rightarrow> None | Some s \<Rightarrow> scan_ended (xs_state s))
                          (if running then timing_unit u 0 0 else timing_unit u (eu_timeout u) margin) of
                     Refuse r \<Rightarrow> Inr (C_Scan r)
                   | Defer_Not_Started \<Rightarrow> Inr (if running then C_None else C_Not_Started)
                   | Plan_Deadline.Proceed \<Rightarrow> Inr C_None))))"

section \<open>The claim\<close>

record host_identity =
  ho_unit :: string
  ho_user :: user_id
  ho_host :: string

datatype claim_result =
    Claimed int
  | Already_Claimed
  | Claim_Refuse dispatch_refusal
  | Not_Claimable string

fun status_text :: "execution_unit_status \<Rightarrow> string" where
  "status_text U_PLANNED = ''PLANNED''"
| "status_text U_SKIPPED = ''SKIPPED''"
| "status_text U_BLOCKED = ''BLOCKED''"
| "status_text U_ADMITTED = ''ADMITTED''"
| "status_text U_REFUSED = ''REFUSED''"
| "status_text U_DISPATCHED = ''DISPATCHED''"
| "status_text U_RUNNING = ''RUNNING''"
| "status_text U_COMPLETED = ''COMPLETED''"
| "status_text U_FAILED = ''FAILED''"
| "status_text U_CANCELLED = ''CANCELLED''"
| "status_text U_KILLED = ''KILLED''"

fun refusal_cause_text :: "dispatch_refusal \<Rightarrow> string" where
  "refusal_cause_text Scan_Deadline_Expired = ''SCAN_DEADLINE_EXPIRED''"
| "refusal_cause_text Scan_Was_Cancelled = ''SCAN_CANCELLED''"
| "refusal_cause_text Scan_Has_Failed = ''SCAN_FAILED''"
| "refusal_cause_text Scan_Deadline_Insufficient = ''SCAN_DEADLINE_INSUFFICIENT''"

fun cause_text :: "pre_run_cause \<Rightarrow> string" where
  "cause_text C_None = ''NONE''"
| "cause_text (C_Terminal s) = ''TERMINAL''"
| "cause_text (C_Stop sc i) = ''KILL_SWITCH_PENDING''"
| "cause_text (C_Scan r) = refusal_cause_text r"
| "cause_text C_Not_Started = ''SCAN_NOT_STARTED''"

definition valid_hash :: "string \<Rightarrow> bool" where
  "valid_hash h =
     (length h = 64
      \<and> list_all (\<lambda>c. CHR ''0'' \<le> c \<and> c \<le> CHR ''9'' \<or> CHR ''a'' \<le> c \<and> c \<le> CHR ''f'') h)"

definition lock_unit :: "exec_db \<Rightarrow> string \<Rightarrow> user_id \<Rightarrow> unit_row option" where
  "lock_unit db i u = List.find (\<lambda>r. eu_id r = i \<and> eu_user r = u) (ex_units db)"

definition insert_claim :: "unit_row \<Rightarrow> string \<Rightarrow> string \<Rightarrow> exec_db \<Rightarrow> claim_result \<times> exec_db" where
  "insert_claim u host hash db =
     (if list_ex (\<lambda>c. cl_unit c = eu_id u \<and> cl_attempt c = eu_attempt u) (ex_claims db)
      then (Already_Claimed, db)
      else (Claimed (eu_attempt u),
        db\<lparr> ex_claims := ex_claims db @
          [\<lparr> cl_unit = eu_id u, cl_attempt = eu_attempt u, cl_plan = eu_plan u, cl_user = eu_user u,
             cl_host = host, cl_hash = hash \<rparr>] \<rparr>))"

definition claim_unit_host ::
    "millis \<Rightarrow> host_identity \<Rightarrow> string \<Rightarrow> millis \<Rightarrow> exec_db \<Rightarrow> exec_error + claim_result \<times> exec_db" where
  "claim_unit_host now h hash margin db =
     (if \<not> valid_hash hash \<or> ho_host h = [] then Inr (Not_Claimable ''INVALID_CLAIM'', db)
      else (case lock_unit db (ho_unit h) (ho_user h) of
          None \<Rightarrow> Inr (Not_Claimable ''NOT_FOUND'', db)
        | Some u \<Rightarrow>
            if eu_status u \<noteq> U_PLANNED
            then Inr (Not_Claimable (''STATUS_'' @ status_text (eu_status u)), db)
            else if (case find_plan db (eu_plan u) of None \<Rightarrow> True | Some p \<Rightarrow> dp_state p \<noteq> Resolved_Plan)
            then Inr (Not_Claimable ''PLAN_NOT_RESOLVED'', db)
            else (case classify_pre_run_cause now False margin u db of
                Inl e \<Rightarrow> Inl e
              | Inr C_Not_Started \<Rightarrow> Inr (Not_Claimable ''SCAN_NOT_STARTED'', db)
              | Inr (C_Scan r) \<Rightarrow> Inr (Claim_Refuse r, db)
              | Inr _ \<Rightarrow> Inr (insert_claim u (ho_host h) hash db))))"

section \<open>The host's edges\<close>

datatype host_edge = Planned_Admitted | Admitted_Dispatched | Dispatched_Running
datatype cas_result = Cas_OK | Cas_Lost | Cas_Lease_Lost

fun edge_from :: "host_edge \<Rightarrow> execution_unit_status" where
  "edge_from Planned_Admitted = U_PLANNED"
| "edge_from Admitted_Dispatched = U_ADMITTED"
| "edge_from Dispatched_Running = U_DISPATCHED"

fun edge_to :: "host_edge \<Rightarrow> execution_unit_status" where
  "edge_to Planned_Admitted = U_ADMITTED"
| "edge_to Admitted_Dispatched = U_DISPATCHED"
| "edge_to Dispatched_Running = U_RUNNING"

definition edge_row :: "millis \<Rightarrow> host_edge \<Rightarrow> unit_row \<Rightarrow> unit_row" where
  "edge_row now e u =
     (case e of
        Planned_Admitted \<Rightarrow> u\<lparr> eu_status := U_ADMITTED \<rparr>
      | Admitted_Dispatched \<Rightarrow> u\<lparr> eu_status := U_DISPATCHED, eu_dispatched := Some now \<rparr>
      | Dispatched_Running \<Rightarrow> u\<lparr> eu_status := U_RUNNING, eu_started := Some now \<rparr>)"

definition owns_claim :: "exec_db \<Rightarrow> string \<Rightarrow> int \<Rightarrow> string \<Rightarrow> string \<Rightarrow> bool" where
  "owns_claim db i attempt hash host =
     list_ex (\<lambda>c. cl_unit c = i \<and> cl_attempt c = attempt \<and> cl_hash c = hash \<and> cl_host c = host)
       (ex_claims db)"

text \<open>\<open>class_l\<close>: the unit's class consumes a concurrency lease, which must still be held.\<close>

definition cas_host_transition ::
    "(string \<Rightarrow> string) \<Rightarrow> millis \<Rightarrow> host_identity \<Rightarrow> int \<Rightarrow> string \<Rightarrow> host_edge \<Rightarrow> bool \<Rightarrow> exec_db
     \<Rightarrow> cas_result \<times> exec_db" where
  "cas_host_transition sha now h attempt token e class_l db =
     (if \<not> list_ex (\<lambda>u. eu_id u = ho_unit h \<and> eu_user u = ho_user h \<and> eu_status u = edge_from e
              \<and> eu_attempt u = attempt) (ex_units db)
         \<or> \<not> owns_claim db (ho_unit h) attempt (sha token) (ho_host h)
      then (Cas_Lost, db)
      else (case update_unit False True (ho_unit h) (edge_row now e) (ex_units db) of
          Inl _ \<Rightarrow> (Cas_Lost, db)
        | Inr us \<Rightarrow>
            if class_l \<and> \<not> fahes_lock_live_lease (ho_unit h) (ex_safety db) then (Cas_Lease_Lost, db)
            else (Cas_OK, db\<lparr> ex_units := us \<rparr>)))"

section \<open>The effect ledger\<close>

datatype effect_decision = Effect_Authorized bool | Effect_Refused string

record effect_key =
  ek_kind :: string
  ek_ordinal :: int

definition same_effect :: "string \<Rightarrow> int \<Rightarrow> effect_key \<Rightarrow> effect_row \<Rightarrow> bool" where
  "same_effect i attempt k e =
     (ef_unit e = i \<and> ef_attempt e = attempt \<and> ef_kind e = ek_kind k \<and> ef_ordinal e = ek_ordinal k)"

definition insert_effect :: "unit_row \<Rightarrow> int \<Rightarrow> effect_key \<Rightarrow> exec_db \<Rightarrow> bool \<times> exec_db" where
  "insert_effect u attempt k db =
     (if list_ex (same_effect (eu_id u) attempt k) (ex_effects db) then (True, db)
      else (False, db\<lparr> ex_effects := ex_effects db @
        [\<lparr> ef_unit = eu_id u, ef_attempt = attempt, ef_kind = ek_kind k, ef_ordinal = ek_ordinal k,
           ef_user = eu_user u, ef_state = E_AUTHORIZED, ef_confirmed = None \<rparr>] \<rparr>))"

definition authorize_effect ::
    "(string \<Rightarrow> string) \<Rightarrow> millis \<Rightarrow> host_identity \<Rightarrow> int \<Rightarrow> string \<Rightarrow> effect_key \<Rightarrow> bool \<Rightarrow> exec_db
     \<Rightarrow> exec_error + effect_decision \<times> exec_db" where
  "authorize_effect sha now h attempt token k class_l db =
     (if ek_kind k = [] \<or> ek_ordinal k < 0 then Inr (Effect_Refused ''INVALID_EFFECT'', db)
      else (case lock_unit db (ho_unit h) (ho_user h) of
          None \<Rightarrow> Inr (Effect_Refused ''NOT_FOUND'', db)
        | Some u \<Rightarrow>
            if eu_status u \<noteq> U_RUNNING
            then Inr (Effect_Refused (''STATUS_'' @ status_text (eu_status u)), db)
            else if eu_attempt u \<noteq> attempt then Inr (Effect_Refused ''STALE_ATTEMPT'', db)
            else if \<not> owns_claim db (eu_id u) attempt (sha token) (ho_host h)
            then Inr (Effect_Refused ''CLAIM_MISMATCH'', db)
            else (case classify_pre_run_cause now True 60000 u db of
                Inl e \<Rightarrow> Inl e
              | Inr c \<Rightarrow>
                  if c \<noteq> C_None then Inr (Effect_Refused (cause_text c), db)
                  else if class_l \<and> \<not> fahes_lock_live_lease (eu_id u) (ex_safety db)
                  then Inr (Effect_Refused ''LEASE_LOST'', db)
                  else (case insert_effect u attempt k db of
                      (replayed, db') \<Rightarrow> Inr (Effect_Authorized replayed, db')))))"

text \<open>The update also passes the ledger's own guard: only an authorized row may change.\<close>

definition confirm_effect ::
    "millis \<Rightarrow> string \<Rightarrow> int \<Rightarrow> effect_key \<Rightarrow> exec_db \<Rightarrow> bool \<times> exec_db" where
  "confirm_effect now i attempt k db =
     (let hit = (\<lambda>e. same_effect i attempt k e \<and> ef_state e = E_AUTHORIZED) in
      (list_ex hit (ex_effects db),
       db\<lparr> ex_effects := map (\<lambda>e. if hit e
             then e\<lparr> ef_state := E_CONFIRMED, ef_confirmed := Some now \<rparr> else e) (ex_effects db) \<rparr>))"

definition has_unconfirmed_effects :: "exec_db \<Rightarrow> string \<Rightarrow> bool" where
  "has_unconfirmed_effects db i =
     list_ex (\<lambda>e. ef_unit e = i \<and> ef_state e = E_AUTHORIZED) (ex_effects db)"

section \<open>The evidence fence\<close>

text \<open>The checks before an engine's evidence is written: \<open>None\<close> lets it through, otherwise the reason of
  the refusal.  The database function reads the clock again (\<open>now\<close>, then \<open>now2\<close> for the cause).\<close>

fun scan_state_text :: "scan_state \<Rightarrow> string" where
  "scan_state_text QUEUED = ''QUEUED''"
| "scan_state_text RUNNING_PHASE_1 = ''RUNNING_PHASE_1''"
| "scan_state_text AWAITING_QUESTIONNAIRE = ''AWAITING_QUESTIONNAIRE''"
| "scan_state_text RUNNING_PHASE_2 = ''RUNNING_PHASE_2''"
| "scan_state_text RUNNING_PHASE_3 = ''RUNNING_PHASE_3''"
| "scan_state_text RUNNING_MASTER = ''RUNNING_MASTER''"
| "scan_state_text RUNNING_DOCS = ''RUNNING_DOCS''"
| "scan_state_text COMPLETED = ''COMPLETED''"
| "scan_state_text FAILED = ''FAILED''"
| "scan_state_text CANCELLED = ''CANCELLED''"
| "scan_state_text TIMED_OUT = ''TIMED_OUT''"

definition fahes_lock_execution_evidence ::
    "millis \<Rightarrow> host_identity \<Rightarrow> int \<Rightarrow> string \<Rightarrow> exec_db \<Rightarrow> string" where
  "fahes_lock_execution_evidence now h attempt hash db =
     (if ho_unit h = [] \<or> ho_user h = [] \<or> ho_host h = [] \<or> attempt < 1 \<or> \<not> valid_hash hash
      then ''INVALID_CLAIM''
      else (case lock_unit db (ho_unit h) (ho_user h) of
          None \<Rightarrow> ''UNIT_NOT_FOUND''
        | Some u \<Rightarrow>
            if eu_status u \<noteq> U_RUNNING
            then (if is_terminal u then ''UNIT_TERMINAL'' else ''UNIT_STATUS_'' @ status_text (eu_status u))
            else if eu_attempt u \<noteq> attempt then ''STALE_ATTEMPT''
            else (case find_plan db (eu_plan u) of
                None \<Rightarrow> ''PLAN_NOT_RESOLVED''
              | Some p \<Rightarrow>
                  (case (dp_state p, dp_deadline p) of
                     (Resolved_Plan, Some d) \<Rightarrow>
                       let claim = (\<lambda>deadline. if deadline \<le> now then ''SCAN_DEADLINE_EXPIRED''
                             else if list_ex (\<lambda>c. cl_unit c = eu_id u \<and> cl_plan c = eu_plan u
                                    \<and> cl_user c = eu_user u \<and> cl_attempt c = attempt
                                    \<and> cl_host c = ho_host h \<and> cl_hash c = hash) (ex_claims db)
                             then ''OK'' else ''CLAIM_MISMATCH'') in
                       if dp_kind p = Initial then
                         (case scan_of_plan db (Some p) of
                            None \<Rightarrow> ''SCAN_NOT_FOUND''
                          | Some s \<Rightarrow>
                              if xs_state s \<in> set scan_states_terminal then ''SCAN_'' @ scan_state_text (xs_state s)
                              else (case xs_started s of
                                  None \<Rightarrow> ''SCAN_NOT_STARTED''
                                | Some t \<Rightarrow> claim (t + d)))
                       else claim (dp_resolved_at p + d)
                   | _ \<Rightarrow> ''PLAN_NOT_RESOLVED''))))"

definition evidence_refusal ::
    "(string \<Rightarrow> string) \<Rightarrow> millis \<Rightarrow> millis \<Rightarrow> host_identity \<Rightarrow> int \<Rightarrow> string \<Rightarrow> bool \<Rightarrow> exec_db
     \<Rightarrow> exec_error + string option" where
  "evidence_refusal sha now now2 h attempt token class_l db =
     (if attempt < 1 \<or> ho_host h = [] \<or> token = [] then Inr (Some ''INVALID_CLAIM'')
      else (case lock_unit db (ho_unit h) (ho_user h) of
          None \<Rightarrow> Inr (Some ''UNIT_NOT_FOUND'')
        | Some u \<Rightarrow>
            if eu_status u \<noteq> U_RUNNING
            then Inr (Some (if is_terminal u then ''UNIT_TERMINAL''
                            else ''UNIT_STATUS_'' @ status_text (eu_status u)))
            else if eu_attempt u \<noteq> attempt then Inr (Some ''STALE_ATTEMPT'')
            else (case find_plan db (eu_plan u) of
                None \<Rightarrow> Inr (Some ''PLAN_NOT_RESOLVED'')
              | Some p \<Rightarrow>
                  if dp_state p \<noteq> Resolved_Plan \<or> dp_deadline p = None
                  then Inr (Some ''PLAN_NOT_RESOLVED'')
                  else
                    let fence = fahes_lock_execution_evidence now h attempt (sha token) db in
                    if fence \<noteq> ''OK'' then Inr (Some fence)
                    else (case classify_pre_run_cause now2 True 60000 u db of
                        Inl e \<Rightarrow> Inl e
                      | Inr c \<Rightarrow>
                          if c \<noteq> C_None then Inr (Some (cause_text c))
                          else if class_l \<and> \<not> fahes_lock_live_lease (eu_id u) (ex_safety db)
                          then Inr (Some ''LEASE_LOST'')
                          else Inr None))))"

end
