(* ===== verification/Unit_Dispatch.thy ===== *)
theory Unit_Dispatch
  imports Unit_Host
begin

text \<open>
  Dispatching a unit (\<^verbatim>\<open>execution-runtime/dispatch.ts\<close>), the finalizer's TypeScript face and the
  failure classes, and the host that runs the unit
  (\<^verbatim>\<open>apps/worker/src/execution-runtime/host.ts\<close>).  These are sequences of transactions: \<open>env k\<close> is what
  other writers do before the \<open>k\<close>-th one and \<open>clock k\<close> the database clock it reads.  The engine's
  hooks and the child process are parameters.
\<close>

section \<open>Failure classes\<close>

datatype observation =
    ENGINE_RESULT
  | ENGINE_EXCEPTION
  | HARD_STOP_DEADLINE
  | F07_STOP
  | INFRASTRUCTURE_ERROR
  | TARGET_UNREACHABLE
  | INVALID_CONFIGURATION
  | CUSTOMER_CODE_EXIT int
  | EXTERNAL_DEPENDENCY_ERROR
  | Unknown_Observation

text \<open>\<open>None\<close> is the completed outcome.\<close>

fun classify_failure :: "observation \<Rightarrow> failure_class option" where
  "classify_failure ENGINE_RESULT = None"
| "classify_failure (CUSTOMER_CODE_EXIT n) = (if n = 0 then None else Some F_CUSTOMER_CODE_FAILURE)"
| "classify_failure ENGINE_EXCEPTION = Some F_ENGINE_DEFECT"
| "classify_failure HARD_STOP_DEADLINE = Some F_TIMEOUT"
| "classify_failure F07_STOP = Some F_SAFETY_REFUSED"
| "classify_failure INFRASTRUCTURE_ERROR = Some F_TRANSIENT_INFRASTRUCTURE"
| "classify_failure TARGET_UNREACHABLE = Some F_TARGET_UNAVAILABLE"
| "classify_failure INVALID_CONFIGURATION = Some F_INVALID_CONFIGURATION"
| "classify_failure EXTERNAL_DEPENDENCY_ERROR = Some F_EXTERNAL_DEPENDENCY_FAILURE"
| "classify_failure Unknown_Observation = Some F_ENGINE_DEFECT"

definition never_auto_retried :: "failure_class list" where
  "never_auto_retried =
     [F_SAFETY_REFUSED, F_ENGINE_DEFECT, F_INVALID_CONFIGURATION, F_CUSTOMER_CODE_FAILURE,
      F_DETERMINISTIC_FINDING]"

record retry_policy =
  rp_max :: int
  rp_eligible :: "failure_class list"

definition is_retry_eligible :: "failure_class \<Rightarrow> retry_policy \<Rightarrow> int \<Rightarrow> bool" where
  "is_retry_eligible f p attempt =
     (if attempt < 1 then False
      else if rp_max p < 1 then False
      else if f \<in> set never_auto_retried then False
      else f \<in> set (rp_eligible p) \<and> attempt < rp_max p)"

section \<open>The finalizer's face\<close>

datatype final_outcome =
    Out_Completed
  | Out_Failed failure_class "string option"
  | Out_Cancelled
  | Out_Killed string
  | Out_Refused string

fun outcome_kind :: "final_outcome \<Rightarrow> final_kind" where
  "outcome_kind Out_Completed = Fin_Completed"
| "outcome_kind (Out_Failed f d) = Fin_Failed"
| "outcome_kind Out_Cancelled = Fin_Cancelled"
| "outcome_kind (Out_Killed r) = Fin_Killed"
| "outcome_kind (Out_Refused r) = Fin_Refused"

fun outcome_class :: "final_outcome \<Rightarrow> failure_class option" where
  "outcome_class (Out_Failed f d) = Some f"
| "outcome_class _ = None"

fun outcome_reason :: "final_outcome \<Rightarrow> string option" where
  "outcome_reason (Out_Killed r) = Some r"
| "outcome_reason (Out_Refused r) = Some r"
| "outcome_reason (Out_Failed f d) = d"
| "outcome_reason _ = None"

definition max_reason :: nat where
  "max_reason = 200"

definition finalize_execution_unit ::
    "millis \<Rightarrow> string \<Rightarrow> string \<Rightarrow> final_outcome \<Rightarrow> exec_db \<Rightarrow> exec_error + finalize_result \<times> exec_db" where
  "finalize_execution_unit now i key out db =
     fahes_finalize_unit now i key (outcome_kind out) (outcome_class out)
       (map_option (take max_reason) (outcome_reason out)) None db"

section \<open>Dispatch\<close>

datatype dispatch_outcome =
    D_Running int string string
  | D_Refused string
  | D_Deferred string
  | D_Ignored string

datatype child = No_Child | Child_Running | Child_Terminated

record dispatch_hooks =
  dh_request :: "unit_row \<Rightarrow> admission_request"
  dh_class_l :: bool
  dh_capacity :: "unit_row \<Rightarrow> bool"
  dh_guards :: "unit_row \<Rightarrow> string option"
  dh_proofs :: "unit_row \<Rightarrow> string option"
  dh_margin :: millis
  dh_forks :: bool
  dh_admit :: "admission_request \<Rightarrow> safety_db \<Rightarrow> admission_result \<times> safety_db"
  dh_release :: "string \<Rightarrow> safety_db \<Rightarrow> safety_db"

record run_env =
  re_clock :: "nat \<Rightarrow> millis"
  re_env :: "nat \<Rightarrow> exec_db \<Rightarrow> exec_db"

definition refuse_unit ::
    "millis \<Rightarrow> unit_row \<Rightarrow> string \<Rightarrow> exec_db \<Rightarrow> exec_error + (dispatch_outcome \<times> child) \<times> exec_db" where
  "refuse_unit now u reason db =
     (case finalize_execution_unit now (eu_id u) (eu_key u) (Out_Refused reason) db of
        Inl e \<Rightarrow> Inl e
      | Inr (r, db') \<Rightarrow>
          Inr ((if fr_replayed r then D_Ignored (''STATUS_'' @ status_text (fr_status r))
                else D_Refused reason, No_Child), db'))"

text \<open>From \<open>ADMITTED\<close> to \<open>RUNNING\<close>: the engine's proofs, the precedence again, the child and the last
  two edges.\<close>

definition dispatch_admitted ::
    "(string \<Rightarrow> string) \<Rightarrow> run_env \<Rightarrow> dispatch_hooks \<Rightarrow> host_identity \<Rightarrow> string \<Rightarrow> int \<Rightarrow> unit_row
     \<Rightarrow> exec_db \<Rightarrow> exec_error + (dispatch_outcome \<times> child) \<times> exec_db" where
  "dispatch_admitted sha x k h token attempt u db =
     (case dh_proofs k u of
        Some reason \<Rightarrow> refuse_unit (re_clock x 5) u reason (re_env x 5 db)
      | None \<Rightarrow>
          let db6 = re_env x 6 db in
          (case classify_pre_run_cause (re_clock x 6) False (dh_margin k) (u\<lparr> eu_status := U_ADMITTED \<rparr>) db6 of
             Inl e \<Rightarrow> Inl e
           | Inr (C_Terminal s) \<Rightarrow> Inr ((D_Ignored (''STATUS_'' @ status_text s), No_Child), db6)
           | Inr c \<Rightarrow>
               if c \<noteq> C_None then refuse_unit (re_clock x 7) u (cause_text c) (re_env x 7 db6)
               else
                 (case cas_host_transition sha (re_clock x 8) h attempt token Admitted_Dispatched
                         (dh_class_l k) (re_env x 8 db6) of
                    (Cas_OK, db8) \<Rightarrow>
                      if \<not> dh_forks k then Inl Fork_Failed
                      else
                        (case cas_host_transition sha (re_clock x 9) h attempt token Dispatched_Running
                                (dh_class_l k) (re_env x 9 db8) of
                           (Cas_OK, db9) \<Rightarrow> Inr ((D_Running attempt token (ho_host h), Child_Running), db9)
                         | (Cas_Lease_Lost, db9) \<Rightarrow> Inr ((D_Ignored ''LEASE_LOST'', Child_Terminated), db9)
                         | (Cas_Lost, db9) \<Rightarrow>
                             Inr ((D_Ignored ''LOST_DISPATCHED_RUNNING'', Child_Terminated), db9))
                  | (_, db8) \<Rightarrow> Inr ((D_Ignored ''LOST_ADMITTED_DISPATCHED'', No_Child), db8))))"

text \<open>From the claim to \<open>ADMITTED\<close>: the engine's guards, the precedence, the admission and the first
  edge; losing it releases the lease just created.\<close>

definition dispatch_claimed ::
    "(string \<Rightarrow> string) \<Rightarrow> run_env \<Rightarrow> dispatch_hooks \<Rightarrow> host_identity \<Rightarrow> string \<Rightarrow> int \<Rightarrow> unit_row
     \<Rightarrow> exec_db \<Rightarrow> exec_error + (dispatch_outcome \<times> child) \<times> exec_db" where
  "dispatch_claimed sha x k h token attempt u db =
     (case dh_guards k u of
        Some reason \<Rightarrow> refuse_unit (re_clock x 1) u reason (re_env x 1 db)
      | None \<Rightarrow>
          let db2 = re_env x 2 db in
          (case classify_pre_run_cause (re_clock x 2) False (dh_margin k) (u\<lparr> eu_status := U_PLANNED \<rparr>) db2 of
             Inl e \<Rightarrow> Inl e
           | Inr (C_Terminal s) \<Rightarrow> Inr ((D_Ignored (''STATUS_'' @ status_text s), No_Child), db2)
           | Inr C_Not_Started \<Rightarrow> Inr ((D_Deferred ''SCAN_NOT_STARTED'', No_Child), db2)
           | Inr (C_Scan r) \<Rightarrow> refuse_unit (re_clock x 3) u (refusal_cause_text r) (re_env x 3 db2)
           | Inr _ \<Rightarrow>
               let db3 = re_env x 3 db2 in
               (case dh_admit k (dh_request k u) (ex_safety db3) of
                  (Refused reason _, safe) \<Rightarrow>
                    refuse_unit (re_clock x 4) u (refusal_text reason)
                      (re_env x 4 (db3\<lparr> ex_safety := safe \<rparr>))
                | (Granted g lease replay, safe) \<Rightarrow>
                    (case cas_host_transition sha (re_clock x 4) h attempt token Planned_Admitted
                            (dh_class_l k) (re_env x 4 (db3\<lparr> ex_safety := safe \<rparr>)) of
                       (Cas_OK, db4) \<Rightarrow> dispatch_admitted sha x k h token attempt u db4
                     | (c, db4) \<Rightarrow>
                         let db5 = re_env x 5 db4 in
                         Inr ((D_Ignored (if c = Cas_Lease_Lost then ''LEASE_LOST''
                                          else ''LOST_PLANNED_ADMITTED''), No_Child),
                              db5\<lparr> ex_safety := dh_release k (eu_id u) (ex_safety db5) \<rparr>)))))"

definition dispatch_execution_unit ::
    "(string \<Rightarrow> string) \<Rightarrow> run_env \<Rightarrow> dispatch_hooks \<Rightarrow> host_identity \<Rightarrow> string \<Rightarrow> exec_db
     \<Rightarrow> exec_error + (dispatch_outcome \<times> child) \<times> exec_db" where
  "dispatch_execution_unit sha x k h token db =
     (case lock_unit db (ho_unit h) (ho_user h) of
        None \<Rightarrow> Inr ((D_Ignored ''NOT_FOUND'', No_Child), db)
      | Some u \<Rightarrow>
          if eu_status u \<noteq> U_PLANNED
          then Inr ((D_Ignored (''STATUS_'' @ status_text (eu_status u)), No_Child), db)
          else if is_passive_class (eu_class u)
          then Inr ((D_Ignored ''PASSIVE_LEGACY_QUEUE'', No_Child), db)
          else if \<not> dh_capacity k u then Inr ((D_Deferred ''ENGINE_CAPACITY'', No_Child), db)
          else (case claim_unit_host (re_clock x 0) h (sha token) (dh_margin k) (re_env x 0 db) of
              Inl e \<Rightarrow> Inl e
            | Inr (Claim_Refuse r, db0) \<Rightarrow>
                refuse_unit (re_clock x 1) u (refusal_cause_text r) (re_env x 1 db0)
            | Inr (Not_Claimable reason, db0) \<Rightarrow>
                Inr ((if reason = ''SCAN_NOT_STARTED'' then D_Deferred reason else D_Ignored reason,
                      No_Child), db0)
            | Inr (Already_Claimed, db0) \<Rightarrow> Inr ((D_Ignored ''ALREADY_CLAIMED'', No_Child), db0)
            | Inr (Claimed attempt, db0) \<Rightarrow> dispatch_claimed sha x k h token attempt u db0))"

section \<open>The host's loop\<close>

datatype lease_renewal =
    L_Renewed
  | L_Stop_Pending
  | L_Fenced
  | L_Grant_Revoked
  | L_Grant_Expired
  | L_Uncertain

datatype stop_cause = By_Kill_Switch | By_Grant_Revoked | By_Grant_Expired | By_Uncertainty

datatype host_action =
    Continue
  | Stop_Terminal
  | Abort_Lease_Lost bool
  | Stop_And_Finalize stop_cause
  | Expire_And_Finalize dispatch_refusal

text \<open>The host's own interpretation of a renewal; without a lease there is nothing to renew.\<close>

definition renew_held ::
    "bool \<Rightarrow> millis \<Rightarrow> held_lease option \<Rightarrow> safety_db \<Rightarrow> lease_renewal \<times> safety_db" where
  "renew_held broken now lease db =
     (case lease of
        None \<Rightarrow> (L_Renewed, db)
      | Some h \<Rightarrow>
          (case renew_lease broken now (hl_lease h) (hl_token h) db of
             (Renewed _, db') \<Rightarrow> (L_Renewed, db')
           | (Stop_Pending _ _, db') \<Rightarrow> (L_Stop_Pending, db')
           | (Grant_Invalid r, db') \<Rightarrow>
               (if r = EXPIRED then L_Grant_Expired else L_Grant_Revoked, db')
           | (Fenced, db') \<Rightarrow> (L_Fenced, db')
           | (Uncertain, db') \<Rightarrow> (L_Uncertain, db')))"

definition loop_action :: "pre_run_cause \<Rightarrow> lease_renewal \<Rightarrow> host_action" where
  "loop_action c r =
     (let stopped = (case c of C_Stop _ _ \<Rightarrow> True | _ \<Rightarrow> False) in
      if r = L_Fenced then Abort_Lease_Lost stopped
      else if stopped \<or> r = L_Stop_Pending then Stop_And_Finalize By_Kill_Switch
      else if r = L_Grant_Revoked then Stop_And_Finalize By_Grant_Revoked
      else if r = L_Grant_Expired then Stop_And_Finalize By_Grant_Expired
      else if r = L_Uncertain then Stop_And_Finalize By_Uncertainty
      else (case c of C_Scan q \<Rightarrow> Expire_And_Finalize q | _ \<Rightarrow> Continue))"

text \<open>The unit and its cause are read in \<open>db\<close>, the lease and its renewal in what \<open>env 0\<close> makes of it.\<close>

definition host_loop_decision ::
    "run_env \<Rightarrow> bool \<Rightarrow> bool \<Rightarrow> held_lease option \<Rightarrow> string \<Rightarrow> user_id \<Rightarrow> exec_db
     \<Rightarrow> exec_error + host_action \<times> exec_db" where
  "host_loop_decision x broken class_l lease i user db =
     (case lock_unit db i user of
        None \<Rightarrow> Inr (Stop_Terminal, db)
      | Some u \<Rightarrow>
          (case classify_pre_run_cause (re_clock x 0) True 60000 u db of
             Inl e \<Rightarrow> Inl e
           | Inr (C_Terminal _) \<Rightarrow> Inr (Stop_Terminal, db)
           | Inr c \<Rightarrow>
               let db0 = re_env x 0 db in
               if \<not> class_l then Inr (loop_action c L_Renewed, db0)
               else if \<not> fahes_lock_live_lease i (ex_safety db0) then Inr (loop_action c L_Fenced, db0)
               else (case renew_held broken (re_clock x 1) lease (ex_safety (re_env x 1 db0)) of
                   (r, safe) \<Rightarrow> Inr (loop_action c r, (re_env x 1 db0)\<lparr> ex_safety := safe \<rparr>))))"

section \<open>What the host makes of a run\<close>

definition killed_outcome :: "stop_reason option \<Rightarrow> final_outcome" where
  "killed_outcome r =
     (case r of
        None \<Rightarrow> Out_Killed ''SYSTEM_SAFETY_POLICY''
      | Some USER_CANCELLATION \<Rightarrow> Out_Cancelled
      | Some q \<Rightarrow> Out_Killed (reason_text q))"

definition run_outcome :: "stop_reason option \<Rightarrow> host_action \<Rightarrow> bool \<Rightarrow> observation \<Rightarrow> final_outcome" where
  "run_outcome stop act hard_stop obs =
     (case act of
        Stop_And_Finalize By_Kill_Switch \<Rightarrow> killed_outcome stop
      | Stop_And_Finalize By_Grant_Revoked \<Rightarrow> Out_Killed ''AUTHORIZATION_REVOKED''
      | Stop_And_Finalize _ \<Rightarrow> Out_Killed ''SYSTEM_SAFETY_POLICY''
      | Expire_And_Finalize Scan_Was_Cancelled \<Rightarrow> Out_Cancelled
      | Expire_And_Finalize Scan_Has_Failed \<Rightarrow> Out_Failed F_TRANSIENT_INFRASTRUCTURE None
      | Expire_And_Finalize _ \<Rightarrow> Out_Failed F_TIMEOUT (Some ''SCAN_DEADLINE'')
      | _ \<Rightarrow>
          if hard_stop then Out_Failed F_TIMEOUT (Some ''HARD_STOP'')
          else (case classify_failure obs of
              None \<Rightarrow> Out_Completed
            | Some f \<Rightarrow> Out_Failed f None))"

end
