(* ===== verification/Unit_Sweep.thy ===== *)
theory Unit_Sweep
  imports Unit_Dispatch
begin

text \<open>
  The sweeps and gates over a plan's units: expiry (\<^verbatim>\<open>execution-runtime/expire.ts\<close>), the passive
  completion loop, the plan gate (\<^verbatim>\<open>plan-gate.ts\<close>), progress, the queue's producer
  (\<^verbatim>\<open>apps/worker/src/execution-runtime/queues.ts\<close>) and the planned pass of the timeout sweep.
\<close>

section \<open>Expiry\<close>

datatype confirmation = TERMINATED | PENDING

record expire_options =
  eo_on_expired :: "(unit_row \<Rightarrow> confirmation) option"
  eo_margin :: "unit_row \<Rightarrow> millis"
  eo_legacy :: millis

record expire_summary =
  es_finalized :: "string list"
  es_pending :: "string list"
  es_untouched :: "string list"

definition is_pre_running :: "execution_unit_status \<Rightarrow> bool" where
  "is_pre_running s = (s \<in> {U_PLANNED, U_ADMITTED, U_DISPATCHED})"

definition scan_cause_text :: "scan_state option \<Rightarrow> string" where
  "scan_cause_text s =
     (if s = Some CANCELLED then ''SCAN_CANCELLED''
      else if s = Some FAILED then ''SCAN_FAILED'' else ''SCAN_DEADLINE_EXPIRED'')"

definition confirm_expired :: "expire_options \<Rightarrow> unit_row \<Rightarrow> exec_db \<Rightarrow> confirmation" where
  "confirm_expired opts u db =
     (let c = (case eo_on_expired opts of
            Some f \<Rightarrow> f u
          | None \<Rightarrow> if is_passive_class (eu_class u) then TERMINATED else PENDING) in
      if c = TERMINATED \<and> has_unconfirmed_effects db (eu_id u) then PENDING else c)"

text \<open>The status-by-cause matrix.  \<open>None\<close>: a running unit whose end is not confirmed yet, before the
  hard end.\<close>

definition expiry_outcome ::
    "expire_options \<Rightarrow> millis \<Rightarrow> millis option \<Rightarrow> scan_state option \<Rightarrow> stop_row option
     \<Rightarrow> stop_reason option \<Rightarrow> unit_row \<Rightarrow> exec_db \<Rightarrow> exec_error + final_outcome option" where
  "expiry_outcome opts now deadline scan stop reason u db =
     (if is_pre_running (eu_status u)
      then Inr (Some (Out_Refused
             (if stop \<noteq> None then ''KILL_SWITCH_PENDING'' else scan_cause_text scan)))
      else if eo_margin opts u < 0 then Inl Invalid_Margin
      else
        let too_long = (case deadline of None \<Rightarrow> False | Some d \<Rightarrow> d + eo_margin opts u \<le> now) in
        (case confirm_expired opts u db of
           PENDING \<Rightarrow>
             if \<not> too_long then Inr None
             else Inr (Some (Out_Failed F_TRANSIENT_INFRASTRUCTURE (Some ''TERMINATION_UNCONFIRMED'')))
         | TERMINATED \<Rightarrow>
             Inr (Some (if stop \<noteq> None then killed_outcome reason
               else if scan = Some CANCELLED then Out_Cancelled
               else if scan = Some FAILED then Out_Failed F_TRANSIENT_INFRASTRUCTURE None
               else Out_Failed F_TIMEOUT (Some ''SCAN_DEADLINE'')))))"

text \<open>One unit of the loop.  \<open>seen\<close> is its row of the first read; \<open>db\<close> is what its own reads see and
  \<open>env\<close> what happens before its finalization.\<close>

definition expire_unit ::
    "expire_options \<Rightarrow> millis \<Rightarrow> millis \<Rightarrow> (exec_db \<Rightarrow> exec_db) \<Rightarrow> plan_row \<Rightarrow> unit_row \<Rightarrow> expire_summary
     \<Rightarrow> exec_db \<Rightarrow> exec_error + expire_summary \<times> exec_db" where
  "expire_unit opts now now2 env plan seen summary db =
     (case find_unit db (eu_id seen) of
        None \<Rightarrow> Inr (summary, db)
      | Some cur \<Rightarrow>
          if is_terminal cur then Inr (summary, db)
          else
            let scan = scan_of_plan db (Some plan);
                state = map_option xs_state scan;
                u = seen\<lparr> eu_status := eu_status cur, eu_attempt := eu_attempt cur \<rparr> in
            (case plan_deadline_at db (Some plan) (eo_legacy opts) of
               Inl e \<Rightarrow> Inl e
             | Inr deadline \<Rightarrow>
                 if \<not> (case state of None \<Rightarrow> False | Some s \<Rightarrow> scan_ended s \<noteq> None)
                    \<and> \<not> (case deadline of None \<Rightarrow> False | Some d \<Rightarrow> d \<le> now)
                 then Inr (summary\<lparr> es_untouched := es_untouched summary @ [eu_id seen] \<rparr>, db)
                 else
                   (case expiry_outcome opts now deadline state (stop_pending (ex_safety db) (unit_identity db u))
                           (find_pending_stop_reason db u) u db of
                      Inl e \<Rightarrow> Inl e
                    | Inr None \<Rightarrow> Inr (summary\<lparr> es_pending := es_pending summary @ [eu_id seen] \<rparr>, db)
                    | Inr (Some out) \<Rightarrow>
                        (case finalize_execution_unit now2 (eu_id seen) (eu_key cur) out (env db) of
                           Inl e \<Rightarrow> Inl e
                         | Inr (r, db') \<Rightarrow>
                             Inr (if fr_replayed r then summary
                                  else summary\<lparr> es_finalized :=
                                    es_finalized summary @ eu_id seen # fr_blocked r \<rparr>, db')))))"

fun expire_loop ::
    "expire_options \<Rightarrow> run_env \<Rightarrow> nat \<Rightarrow> plan_row \<Rightarrow> (string \<Rightarrow> unit_row option) \<Rightarrow> expire_summary
     \<Rightarrow> string list \<Rightarrow> exec_db \<Rightarrow> exec_error + expire_summary \<times> exec_db" where
  "expire_loop opts x k plan by_id summary [] db = Inr (summary, db)"
| "expire_loop opts x k plan by_id summary (i # is) db =
     (case by_id i of
        None \<Rightarrow> expire_loop opts x (Suc k) plan by_id summary is db
      | Some seen \<Rightarrow>
          (case expire_unit opts (re_clock x (2 * k)) (re_clock x (2 * k + 1)) (re_env x (2 * k + 1)) plan
                  seen summary (re_env x (2 * k) db) of
             Inl e \<Rightarrow> Inl e
           | Inr (summary', db') \<Rightarrow> expire_loop opts x (Suc k) plan by_id summary' is db'))"

definition plan_units :: "exec_db \<Rightarrow> string \<Rightarrow> unit_row list" where
  "plan_units db p = filter (\<lambda>u. eu_plan u = p) (ex_units db)"

definition plan_edges :: "exec_db \<Rightarrow> string \<Rightarrow> graph_edge list" where
  "plan_edges db p =
     filter (\<lambda>e. list_ex (\<lambda>u. eu_id u = ge_unit e) (plan_units db p)) (ex_edges db)"

text \<open>The order's fuel never runs out (its \<open>None\<close> is the throw of an invalid graph here).\<close>

definition plan_order :: "exec_db \<Rightarrow> string \<Rightarrow> exec_error + string list" where
  "plan_order db p =
     (case topological_order
             (map (\<lambda>u. \<lparr> gu_id = eu_id u, gu_class = eu_class u \<rparr>) (plan_units db p)) (plan_edges db p) of
        Some (Inr ids) \<Rightarrow> Inr ids
      | _ \<Rightarrow> Inl Graph_Threw)"

definition expire_plan_units ::
    "expire_options \<Rightarrow> run_env \<Rightarrow> string \<Rightarrow> exec_db \<Rightarrow> exec_error + expire_summary \<times> exec_db" where
  "expire_plan_units opts x p db =
     (let none = \<lparr> es_finalized = [], es_pending = [], es_untouched = [] \<rparr> in
      (case find_plan db p of
         None \<Rightarrow> Inr (none, db)
       | Some plan \<Rightarrow>
           (case plan_order db p of
              Inl e \<Rightarrow> Inl e
            | Inr ids \<Rightarrow>
                expire_loop opts x 0 plan (\<lambda>i. find_row eu_id i (plan_units db p)) none ids db)))"

section \<open>Completing passive units\<close>

record passive_summary =
  pa_completed :: "string list"
  pa_refused :: "string list"
  pa_deferred :: "string list"

definition not_yet :: "exec_error \<Rightarrow> bool" where
  "not_yet e =
     (e = Passive_Module_Not_Terminal \<or> e = Passive_Prerequisite_Unmet \<or> e = Passive_Scan_Not_Running)"

fun passive_loop ::
    "run_env \<Rightarrow> nat \<Rightarrow> passive_summary \<Rightarrow> unit_row list \<Rightarrow> exec_db
     \<Rightarrow> exec_error + passive_summary \<times> exec_db" where
  "passive_loop x k s [] db = Inr (s, db)"
| "passive_loop x k s (u # us) db =
     (let db0 = re_env x k db in
      (case fahes_complete_passive_unit (re_clock x k) (eu_id u) (eu_key u) db0 of
         Inl e \<Rightarrow>
           if not_yet e
           then passive_loop x (Suc k) (s\<lparr> pa_deferred := pa_deferred s @ [eu_id u] \<rparr>) us db0
           else Inl e
       | Inr ((st, _), db') \<Rightarrow>
           passive_loop x (Suc k)
             (if st = U_COMPLETED then s\<lparr> pa_completed := pa_completed s @ [eu_id u] \<rparr>
              else if st = U_REFUSED then s\<lparr> pa_refused := pa_refused s @ [eu_id u] \<rparr> else s) us db'))"

definition complete_passive_units ::
    "run_env \<Rightarrow> string \<Rightarrow> exec_db \<Rightarrow> exec_error + passive_summary \<times> exec_db" where
  "complete_passive_units x p db =
     passive_loop x 0 \<lparr> pa_completed = [], pa_refused = [], pa_deferred = [] \<rparr>
       (sort_key eu_id (filter (\<lambda>u. eu_status u = U_PLANNED
          \<and> (eu_class u = PASSIVE_HTTP \<or> eu_class u = SOURCE_STATIC)) (plan_units db p))) db"

section \<open>The plan gate\<close>

datatype gate_result = No_Plan | Not_Ready | Deadline_Passed | Continued

record gate_deps =
  gd_owned :: "string list"
  gd_finalizers :: "string \<Rightarrow> exec_db \<Rightarrow> exec_db"
  gd_claim :: "string \<Rightarrow> millis \<Rightarrow> exec_db \<Rightarrow> bool \<times> exec_db"
  gd_complete :: "(string \<Rightarrow> exec_db \<Rightarrow> exec_error + exec_db) option"

definition module_terminal :: "module_state \<Rightarrow> bool" where
  "module_terminal m = (m \<in> {M_COMPLETE, M_DEGRADED, M_FAILED, M_NOT_APPLICABLE})"

definition modules_ready :: "gate_deps \<Rightarrow> exec_db \<Rightarrow> exec_scan \<Rightarrow> bool" where
  "modules_ready deps db s =
     list_all (\<lambda>m. m \<in> set (gd_owned deps)
       \<or> (case module_result db (xs_id s) m of None \<Rightarrow> False | Some st \<Rightarrow> module_terminal st))
       (xs_requested s)"

definition initial_plan :: "exec_db \<Rightarrow> string \<Rightarrow> plan_row option" where
  "initial_plan db s =
     List.find (\<lambda>p. pl_scan p = Some s \<and> dp_kind p = Initial \<and> dp_state p = Resolved_Plan) (ex_plans db)"

text \<open>The last part: the units are read, the owned modules finalized and the continuation claimed.
  The result says whether the master job was enqueued.\<close>

definition gate_units ::
    "run_env \<Rightarrow> gate_deps \<Rightarrow> plan_row \<Rightarrow> exec_scan \<Rightarrow> exec_db \<Rightarrow> (gate_result \<times> bool) \<times> exec_db" where
  "gate_units x deps p s db =
     (if list_ex (\<lambda>u. \<not> is_terminal u) (plan_units db (pl_id p)) then ((Not_Ready, False), db)
      else (case (xs_started s, dp_deadline p) of
          (Some _, Some d) \<Rightarrow>
            (case gd_claim deps (xs_id s) d (re_env x 1 (gd_finalizers deps (pl_id p) db)) of
               (True, db') \<Rightarrow> ((Continued, True), db')
             | (False, db') \<Rightarrow>
                 (case find_scan db' (xs_id s) of
                    None \<Rightarrow> ((Not_Ready, False), db')
                  | Some c \<Rightarrow>
                      if xs_state c = RUNNING_PHASE_3
                         \<and> (case xs_started c of None \<Rightarrow> True | Some t \<Rightarrow> t + d \<le> re_clock x 1)
                      then ((Deadline_Passed, False), db') else ((Not_Ready, False), db')))
        | _ \<Rightarrow> ((Not_Ready, False), db)))"

definition continue_scan_if_plan_terminal ::
    "run_env \<Rightarrow> gate_deps \<Rightarrow> string \<Rightarrow> exec_db \<Rightarrow> exec_error + (gate_result \<times> bool) \<times> exec_db" where
  "continue_scan_if_plan_terminal x deps sid db =
     (case initial_plan db sid of
        None \<Rightarrow> Inr ((No_Plan, False), db)
      | Some p \<Rightarrow>
          (case find_scan db sid of
             None \<Rightarrow> Inr ((Not_Ready, False), db)
           | Some s \<Rightarrow>
               if xs_state s \<noteq> RUNNING_PHASE_3 \<or> \<not> modules_ready deps db s
               then Inr ((Not_Ready, False), db)
               else (case gd_complete deps of
                   None \<Rightarrow> Inr (gate_units x deps p s (re_env x 0 db))
                 | Some f \<Rightarrow>
                     (case f (pl_id p) (re_env x 0 db) of
                        Inl e \<Rightarrow> Inl e
                      | Inr db1 \<Rightarrow> Inr (gate_units x deps p s db1)))))"

text \<open>The continuation the orchestrator passes: one guarded write before the plan's deadline.\<close>

definition claim_master :: "millis \<Rightarrow> string \<Rightarrow> millis \<Rightarrow> exec_db \<Rightarrow> bool \<times> exec_db" where
  "claim_master now sid d db =
     (let hit = (\<lambda>s. xs_id s = sid \<and> xs_state s = RUNNING_PHASE_3
            \<and> (case xs_started s of None \<Rightarrow> False | Some t \<Rightarrow> now < t + d)) in
      if list_ex hit (ex_scans db)
      then (True, db\<lparr> ex_scans := map (\<lambda>s. if hit s then s\<lparr> xs_state := RUNNING_MASTER \<rparr> else s) (ex_scans db) \<rparr>)
      else (False, db))"

definition finalize_unit_and_continue ::
    "run_env \<Rightarrow> millis \<Rightarrow> gate_deps \<Rightarrow> string \<Rightarrow> string \<Rightarrow> final_outcome \<Rightarrow> exec_db
     \<Rightarrow> exec_error + (finalize_result \<times> gate_result \<times> bool) \<times> exec_db" where
  "finalize_unit_and_continue x now deps i key out db =
     (case finalize_execution_unit now i key out db of
        Inl e \<Rightarrow> Inl e
      | Inr (r, db1) \<Rightarrow>
          let plan = (case find_unit db1 i of None \<Rightarrow> None | Some u \<Rightarrow> find_plan db1 (eu_plan u));
              sid = (case plan of None \<Rightarrow> None
                     | Some p \<Rightarrow> if dp_kind p = Initial then pl_scan p else None) in
          (case sid of
             None \<Rightarrow> Inr ((r, No_Plan, False), db1)
           | Some s \<Rightarrow>
               (case continue_scan_if_plan_terminal x deps s db1 of
                  Inl e \<Rightarrow> Inl e
                | Inr ((g, queued), db2) \<Rightarrow> Inr ((r, g, queued), db2))))"

section \<open>The queue's producer\<close>

definition has_exec_queue :: "execution_unit_class \<Rightarrow> bool" where
  "has_exec_queue c = (\<not> is_passive_class c)"

definition enqueue_eligible_units :: "exec_db \<Rightarrow> string \<Rightarrow> string list" where
  "enqueue_eligible_units db p =
     map eu_id (filter (\<lambda>u. eu_status u = U_PLANNED \<and> \<not> unmet_prerequisite db (eu_id u)
        \<and> has_exec_queue (eu_class u)) (plan_units db p))"

section \<open>The planned pass of the timeout sweep\<close>

definition with_resolved_initial_plan :: "exec_db \<Rightarrow> string list \<Rightarrow> string list" where
  "with_resolved_initial_plan db sids =
     List.map_filter pl_scan
       (filter (\<lambda>p. (case pl_scan p of None \<Rightarrow> False | Some s \<Rightarrow> s \<in> set sids)
          \<and> dp_kind p = Initial \<and> dp_state p = Resolved_Plan) (ex_plans db))"

definition find_expired_planned_scans ::
    "millis \<Rightarrow> scan_state list \<Rightarrow> nat \<Rightarrow> exec_db \<Rightarrow> (string \<times> string) list" where
  "find_expired_planned_scans now sweepable limit db =
     take limit (map snd (sort_key fst (concat (map (\<lambda>p.
       (case (scan_of_plan db (Some p), dp_deadline p) of
          (Some s, Some d) \<Rightarrow>
            (case xs_started s of
               None \<Rightarrow> []
             | Some t \<Rightarrow>
                 if dp_kind p = Initial \<and> dp_state p = Resolved_Plan \<and> xs_state s \<in> set sweepable
                    \<and> t + d < now
                 then [(t, (xs_id s, pl_id p))] else [])
        | _ \<Rightarrow> [])) (ex_plans db)))))"

definition stale_plan :: "millis \<Rightarrow> exec_db \<Rightarrow> unit_row \<Rightarrow> bool" where
  "stale_plan now db u =
     (\<not> is_terminal u
      \<and> (case find_plan db (eu_plan u) of
           None \<Rightarrow> False
         | Some p \<Rightarrow>
             (case dp_kind p of
                Initial \<Rightarrow> (case scan_of_plan db (Some p) of
                    None \<Rightarrow> False | Some s \<Rightarrow> xs_state s \<in> {FAILED, CANCELLED, TIMED_OUT})
              | Reverify \<Rightarrow> (case dp_deadline p of
                    None \<Rightarrow> False | Some d \<Rightarrow> dp_resolved_at p + d < now))))"

fun heal_plans ::
    "expire_options \<Rightarrow> (nat \<Rightarrow> run_env) \<Rightarrow> nat \<Rightarrow> string list \<Rightarrow> exec_db \<Rightarrow> exec_error + exec_db" where
  "heal_plans opts xs k [] db = Inr db"
| "heal_plans opts xs k (p # ps) db =
     (case expire_plan_units opts (xs k) p db of
        Inl e \<Rightarrow> Inl e
      | Inr (_, db') \<Rightarrow> heal_plans opts xs (Suc k) ps db')"

definition self_heal ::
    "expire_options \<Rightarrow> (nat \<Rightarrow> run_env) \<Rightarrow> millis \<Rightarrow> nat \<Rightarrow> exec_db \<Rightarrow> exec_error + nat \<times> exec_db" where
  "self_heal opts xs now limit db =
     (let ps = take limit (uniq (map eu_plan (filter (stale_plan now db) (ex_units db)))) in
      (case heal_plans opts xs 0 ps db of
         Inl e \<Rightarrow> Inl e
       | Inr db' \<Rightarrow> Inr (length ps, db')))"

section \<open>Progress\<close>

record progress_tick =
  pt_label :: string
  pt_done :: "int option"
  pt_total :: "int option"
  pt_indeterminate :: bool

record normal_progress =
  np_label :: string
  np_done :: "int option"
  np_total :: "int option"
  np_indeterminate :: bool

definition label_max :: nat where
  "label_max = 200"

text \<open>\<open>trim\<close> is \<^verbatim>\<open>String.prototype.trim\<close>, \<open>redact\<close> the redaction package's \<^verbatim>\<open>redactText\<close>; a thrown
  \<^verbatim>\<open>ProgressTickError\<close> is \<open>None\<close>.\<close>

definition normalize_tick ::
    "(string \<Rightarrow> string) \<Rightarrow> (string \<Rightarrow> string) \<Rightarrow> progress_tick \<Rightarrow> normal_progress option" where
  "normalize_tick trim redact t =
     (let label = trim (pt_label t) in
      if label = [] \<or> label_max < length label then None
      else if (case pt_done t of None \<Rightarrow> False | Some n \<Rightarrow> n < 0)
           \<or> (case pt_total t of None \<Rightarrow> False | Some n \<Rightarrow> n < 0) then None
      else if (case (pt_total t, pt_done t) of (Some n, Some d) \<Rightarrow> n < d | _ \<Rightarrow> False) then None
      else
        let known = (case pt_total t of None \<Rightarrow> False | Some n \<Rightarrow> 0 < n \<and> pt_done t \<noteq> None) in
        Some \<lparr> np_label = redact label,
               np_done = (if known then pt_done t else None),
               np_total = (if known then pt_total t else None),
               np_indeterminate = (pt_indeterminate t \<or> \<not> known) \<rparr>)"

datatype snapshot_result = APPLIED | THROTTLED | REJECTED_TERMINAL | NOT_ACTIVE | NOT_FOUND

definition snapshot_max_bytes :: nat where
  "snapshot_max_bytes = 1024"

definition is_active :: "execution_unit_status \<Rightarrow> bool" where
  "is_active s = (s \<in> {U_ADMITTED, U_DISPATCHED, U_RUNNING})"

text \<open>\<open>byte_size\<close> is the length of the snapshot's JSON in bytes.  \<open>boundary\<close> bypasses the throttle.\<close>

definition snapshot_progress ::
    "(string \<Rightarrow> string) \<Rightarrow> (string \<Rightarrow> string) \<Rightarrow> (normal_progress \<Rightarrow> nat) \<Rightarrow> millis \<Rightarrow> string \<Rightarrow> progress_tick
     \<Rightarrow> bool \<Rightarrow> millis \<Rightarrow> exec_db \<Rightarrow> (snapshot_result \<times> exec_db) option" where
  "snapshot_progress trim redact byte_size now i t boundary interval db =
     (case normalize_tick trim redact t of
        None \<Rightarrow> None
      | Some p \<Rightarrow>
          if snapshot_max_bytes < byte_size p then None
          else
            let due = (\<lambda>u. boundary
                  \<or> (case eu_progress u of None \<Rightarrow> True | Some q \<Rightarrow> ps_at q < now - interval));
                hit = (\<lambda>u. eu_id u = i \<and> is_active (eu_status u) \<and> due u);
                write = (\<lambda>u. u\<lparr> eu_progress := Some \<lparr> ps_label = np_label p, ps_done = np_done p,
                                  ps_total = np_total p, ps_at = now \<rparr>,
                                eu_indeterminate := np_indeterminate p \<rparr>) in
            if list_ex hit (ex_units db)
            then Some (APPLIED, db\<lparr> ex_units := map (\<lambda>u. if hit u then write u else u) (ex_units db) \<rparr>)
            else Some (case find_unit db i of
                None \<Rightarrow> NOT_FOUND
              | Some u \<Rightarrow>
                  if is_active (eu_status u) then THROTTLED
                  else if eu_status u = U_PLANNED then NOT_ACTIVE else REJECTED_TERMINAL, db))"

end
