(* ===== verification/Unit_Job.thy ===== *)
theory Unit_Job
  imports Unit_Sweep
begin

text \<open>
  The job of an execution queue, \<^verbatim>\<open>apps/worker/src/execution-runtime/host.ts\<close>: the adapter registry
  (\<^verbatim>\<open>adapter.ts\<close>), the handler that dispatches a unit to its adapter, and what the host makes of the end
  of the run.  Telemetry and logging are left out; the child's run itself is a parameter.
\<close>

section \<open>The adapter registry\<close>

record child_url =
  cu_protocol :: string
  cu_host :: string
  cu_search :: string
  cu_hash :: string

record execution_adapter =
  ea_engine :: string
  ea_class :: execution_unit_class
  ea_class_l :: bool
  ea_module :: string
  ea_export :: string
  ea_on_expired :: "(unit_row \<Rightarrow> confirmation) option"
  ea_margin :: "int option"
  ea_hooks :: dispatch_hooks

datatype registry_error =
    Duplicate_Engine
  | Invalid_Module_Url
  | Not_A_Local_Module
  | Outside_Workspace
  | No_Dispatch_Queue
  | No_Expiry_Hook
  | Invalid_Margin_Ms

definition exec_queue_name :: "execution_unit_class \<Rightarrow> string option" where
  "exec_queue_name c =
     (case c of
        BROWSER \<Rightarrow> Some ''webaudit-exec-browser''
      | CRAWLER \<Rightarrow> Some ''webaudit-exec-crawler''
      | SOURCE_EXECUTION \<Rightarrow> Some ''webaudit-exec-source-execution''
      | ACTIVE_SECURITY \<Rightarrow> Some ''webaudit-exec-active-security''
      | AUTHENTICATED_WORKFLOW \<Rightarrow> Some ''webaudit-exec-authenticated-workflow''
      | LOAD_CAPACITY \<Rightarrow> Some ''webaudit-exec-load-capacity''
      | _ \<Rightarrow> None)"

definition scan_phase_queue :: string where
  "scan_phase_queue = ''webaudit-scan-phase''"

definition queue_name_for_unit_class :: "execution_unit_class \<Rightarrow> string option" where
  "queue_name_for_unit_class c =
     (if c = TELEMETRY then None
      else if c = PASSIVE_HTTP \<or> c = SOURCE_STATIC then Some scan_phase_queue
      else exec_queue_name c)"

definition exec_queue_names :: "string list" where
  "exec_queue_names =
     [''webaudit-exec-browser'', ''webaudit-exec-crawler'', ''webaudit-exec-source-execution'',
      ''webaudit-exec-active-security'', ''webaudit-exec-authenticated-workflow'', ''webaudit-exec-load-capacity'']"

definition word_char :: "char \<Rightarrow> bool" where
  "word_char c =
     (CHR ''A'' \<le> c \<and> c \<le> CHR ''Z'' \<or> CHR ''a'' \<le> c \<and> c \<le> CHR ''z'' \<or> CHR ''0'' \<le> c \<and> c \<le> CHR ''9''
      \<or> c = CHR ''_'' \<or> c = CHR 0x24)"

text \<open>\<^verbatim>\<open>/^[A-Za-z_$][\w$]*$/\<close>.\<close>

definition export_name_ok :: "string \<Rightarrow> bool" where
  "export_name_ok s =
     (case s of
        [] \<Rightarrow> False
      | c # cs \<Rightarrow> word_char c \<and> \<not> (CHR ''0'' \<le> c \<and> c \<le> CHR ''9'') \<and> list_all word_char cs)"

text \<open>\<open>url_of\<close> is \<^verbatim>\<open>new URL\<close> (\<open>None\<close> when it throws) and \<open>rel\<close> the module's path relative to the
  workspace, as \<^verbatim>\<open>node:url\<close> and \<^verbatim>\<open>node:path\<close> compute them on a POSIX system.\<close>

definition outside_workspace :: "string \<Rightarrow> bool" where
  "outside_workspace p =
     (p = [] \<or> p = ''..'' \<or> prefix ''../'' p \<or> prefix ''/'' p)"

definition max_safe_integer :: int where
  "max_safe_integer = 2 ^ 53 - 1"

definition check_adapter ::
    "(string \<Rightarrow> child_url option) \<Rightarrow> (child_url \<Rightarrow> string) \<Rightarrow> execution_adapter \<Rightarrow> registry_error option" where
  "check_adapter url_of rel a =
     (case url_of (ea_module a) of
        None \<Rightarrow> Some Invalid_Module_Url
      | Some u \<Rightarrow>
          if cu_protocol u \<noteq> ''file:'' \<or> cu_host u \<noteq> [] \<or> cu_search u \<noteq> [] \<or> cu_hash u \<noteq> []
             \<or> \<not> export_name_ok (ea_export a) then Some Not_A_Local_Module
          else if outside_workspace (rel u) then Some Outside_Workspace
          else if (case queue_name_for_unit_class (ea_class a) of
                     None \<Rightarrow> True | Some q \<Rightarrow> q \<notin> set exec_queue_names) then Some No_Dispatch_Queue
          else if \<not> is_passive_class (ea_class a) \<and> ea_on_expired a = None then Some No_Expiry_Hook
          else if (case ea_margin a of None \<Rightarrow> False | Some m \<Rightarrow> m \<le> 0 \<or> max_safe_integer < m)
          then Some Invalid_Margin_Ms
          else None)"

fun register_adapters ::
    "(string \<Rightarrow> child_url option) \<Rightarrow> (child_url \<Rightarrow> string) \<Rightarrow> execution_adapter list \<Rightarrow> execution_adapter list
     \<Rightarrow> registry_error + execution_adapter list" where
  "register_adapters url_of rel reg [] = Inr reg"
| "register_adapters url_of rel reg (a # as) =
     (if list_ex (\<lambda>b. ea_engine b = ea_engine a) reg then Inl Duplicate_Engine
      else (case check_adapter url_of rel a of
          Some e \<Rightarrow> Inl e
        | None \<Rightarrow> register_adapters url_of rel (reg @ [a]) as))"

definition create_adapter_registry ::
    "(string \<Rightarrow> child_url option) \<Rightarrow> (child_url \<Rightarrow> string) \<Rightarrow> execution_adapter list
     \<Rightarrow> registry_error + execution_adapter list" where
  "create_adapter_registry url_of rel as = register_adapters url_of rel [] as"

definition find_adapter :: "execution_adapter list \<Rightarrow> string \<Rightarrow> execution_adapter option" where
  "find_adapter reg e = List.find (\<lambda>a. ea_engine a = e) reg"

section \<open>Ending a run\<close>

datatype host_result =
    H_Finalized execution_unit_status bool
  | H_Lease_Lost
  | H_Terminal_Elsewhere
  | H_Termination_Unconfirmed

text \<open>A stale holder never finalizes; at most it acknowledges the execution's stop.  The
  acknowledgement's failure is swallowed.  The list is the units enqueued after a completion.\<close>

definition finalize_for ::
    "run_env \<Rightarrow> gate_deps \<Rightarrow> host_action \<Rightarrow> bool \<Rightarrow> observation \<Rightarrow> unit_row \<Rightarrow> exec_db
     \<Rightarrow> exec_error + (host_result \<times> string list) \<times> exec_db" where
  "finalize_for x deps act hard_stop obs u db =
     (case act of
        Stop_Terminal \<Rightarrow> Inr ((H_Terminal_Elsewhere, []), db)
      | Abort_Lease_Lost ack \<Rightarrow>
          let db0 = re_env x 0 db in
          Inr ((H_Lease_Lost, []),
            if ack then
              (case acknowledge_stop (re_clock x 0) (Some (eu_id u)) SC_EXECUTION (eu_id u) (ex_safety db0) of
                 Inl _ \<Rightarrow> db0
               | Inr (_, safe) \<Rightarrow> db0\<lparr> ex_safety := safe \<rparr>)
            else db0)
      | _ \<Rightarrow>
          let db0 = re_env x 0 db;
              stop = (case lock_unit db0 (eu_id u) (eu_user u) of
                  None \<Rightarrow> None | Some r \<Rightarrow> find_pending_stop_reason db0 r);
              out = run_outcome stop act hard_stop obs in
          (case finalize_unit_and_continue x (re_clock x 1) deps (eu_id u) (eu_key u) out (re_env x 1 db0) of
             Inl e \<Rightarrow> Inl e
           | Inr ((r, _), db') \<Rightarrow>
               Inr ((H_Finalized (fr_status r) (fr_replayed r),
                     if \<not> fr_replayed r \<and> out = Out_Completed then enqueue_eligible_units db' (eu_plan u) else []),
                    db')))"

text \<open>How the child's run ended: its result, an exception, or the host's abort came first.\<close>

datatype run_end = Run_Finished observation | Run_Threw | Run_Aborted

definition end_observation :: "bool \<Rightarrow> bool \<Rightarrow> bool \<Rightarrow> run_end \<Rightarrow> observation" where
  "end_observation checkpoint_stopped hard_stop decided e =
     (case e of
        Run_Finished obs \<Rightarrow> obs
      | Run_Threw \<Rightarrow> if checkpoint_stopped then F07_STOP else ENGINE_EXCEPTION
      | Run_Aborted \<Rightarrow>
          if \<not> hard_stop \<and> \<not> decided \<and> checkpoint_stopped then F07_STOP else ENGINE_EXCEPTION)"

text \<open>\<open>decided\<close> is what the loop decided while the child ran; \<open>gone\<close> that the child's termination was
  confirmed.  \<open>x\<close> belongs to the decision, \<open>x2\<close> to the finalization.\<close>

definition end_run ::
    "run_env \<Rightarrow> run_env \<Rightarrow> gate_deps \<Rightarrow> bool \<Rightarrow> bool \<Rightarrow> held_lease option \<Rightarrow> host_action option \<Rightarrow> bool \<Rightarrow> bool
     \<Rightarrow> run_end \<Rightarrow> bool \<Rightarrow> unit_row \<Rightarrow> exec_db \<Rightarrow> exec_error + (host_result \<times> string list) \<times> exec_db" where
  "end_run x x2 deps broken l lease decided hard_stop checkpoint_stopped e gone u db =
     (if \<not> gone then Inr ((H_Termination_Unconfirmed, []), db)
      else
        let obs = end_observation checkpoint_stopped hard_stop (decided \<noteq> None) e in
        (case decided of
           Some act \<Rightarrow> finalize_for x2 deps act hard_stop obs u db
         | None \<Rightarrow>
             (case host_loop_decision x broken l lease (eu_id u) (eu_user u) db of
                Inl er \<Rightarrow> Inl er
              | Inr (act, db') \<Rightarrow> finalize_for x2 deps act hard_stop obs u db')))"

section \<open>The job\<close>

datatype job_result =
    Job_Ignored string
  | Job_Deferred string
  | Job_Refused string
  | Job_Running int string string

definition host_of :: "unit_row \<Rightarrow> string \<Rightarrow> host_identity" where
  "host_of u host = \<lparr> ho_unit = eu_id u, ho_user = eu_user u, ho_host = host \<rparr>"

definition refuse_job ::
    "run_env \<Rightarrow> gate_deps \<Rightarrow> unit_row \<Rightarrow> string \<Rightarrow> exec_db \<Rightarrow> exec_error + (job_result \<times> child) \<times> exec_db" where
  "refuse_job x deps u reason db =
     (case finalize_unit_and_continue x (re_clock x 0) deps (eu_id u) (eu_key u) (Out_Refused reason) db of
        Inl e \<Rightarrow> Inl e
      | Inr ((r, _), db') \<Rightarrow>
          Inr ((if fr_replayed r then Job_Ignored (''STATUS_'' @ status_text (fr_status r))
                else Job_Refused reason, No_Child), db'))"

definition job_outcome :: "dispatch_outcome \<Rightarrow> job_result" where
  "job_outcome d =
     (case d of
        D_Running a t ho \<Rightarrow> Job_Running a t ho
      | D_Refused r \<Rightarrow> Job_Refused r
      | D_Deferred r \<Rightarrow> Job_Deferred r
      | D_Ignored r \<Rightarrow> Job_Ignored r)"

text \<open>\<open>env\<close> is what other writers do between the handler's own read of the unit and its next step.\<close>

definition handle_job ::
    "(string \<Rightarrow> string) \<Rightarrow> run_env \<Rightarrow> (exec_db \<Rightarrow> exec_db) \<Rightarrow> gate_deps \<Rightarrow> execution_adapter list \<Rightarrow> string \<Rightarrow> string
     \<Rightarrow> string \<Rightarrow> exec_db \<Rightarrow> exec_error + (job_result \<times> child) \<times> exec_db" where
  "handle_job sha x env deps reg host token i db =
     (case find_unit db i of
        None \<Rightarrow> Inr ((Job_Ignored ''NOT_FOUND'', No_Child), db)
      | Some u \<Rightarrow>
          if eu_status u \<noteq> U_PLANNED
          then Inr ((Job_Ignored (''STATUS_'' @ status_text (eu_status u)), No_Child), db)
          else (case find_adapter reg (eu_engine u) of
              None \<Rightarrow> refuse_job x deps u ''ENGINE_NOT_REGISTERED'' (env db)
            | Some a \<Rightarrow>
                if ea_class a \<noteq> eu_class u then refuse_job x deps u ''ENGINE_CLASS_MISMATCH'' (env db)
                else (case dispatch_execution_unit sha x
                         ((ea_hooks a)\<lparr> dh_class_l := ea_class_l a,
                            dh_margin := (case ea_margin a of None \<Rightarrow> 60000 | Some m \<Rightarrow> m) \<rparr>)
                         (host_of u host) token (env db) of
                    Inl e \<Rightarrow> Inl e
                  | Inr ((d, c), db') \<Rightarrow> Inr ((job_outcome d, c), db'))))"

section \<open>Before a timeout\<close>

fun finalize_modules ::
    "(string \<Rightarrow> exec_db \<Rightarrow> exec_error + exec_db) list \<Rightarrow> string \<Rightarrow> exec_db \<Rightarrow> exec_error + exec_db" where
  "finalize_modules [] p db = Inr db"
| "finalize_modules (f # fs) p db =
     (case f p db of Inl e \<Rightarrow> Inl e | Inr db' \<Rightarrow> finalize_modules fs p db')"

definition prepare_for_timeout ::
    "expire_options \<Rightarrow> run_env \<Rightarrow> (string \<Rightarrow> exec_db \<Rightarrow> exec_error + exec_db) list \<Rightarrow> string \<Rightarrow> exec_db
     \<Rightarrow> exec_error + exec_db" where
  "prepare_for_timeout opts x fs p db =
     (case expire_plan_units opts x p db of
        Inl e \<Rightarrow> Inl e
      | Inr (_, db') \<Rightarrow> finalize_modules fs p db')"

end
