(* ===== verification/Unit_Child.thy ===== *)
theory Unit_Child
  imports Complex_Main Unit_Job
begin

text \<open>
  The parent's end of the channel to an execution child,
  \<^verbatim>\<open>apps/worker/src/execution-runtime/process-child.ts\<close>: the checks on the child's messages, which are
  not trusted, and the handle that turns them into calls on the host and one result.
\<close>

section \<open>Message values\<close>

text \<open>The values JavaScript code can find in a message.  A finite number is a rational.\<close>

datatype js =
    JS_Undefined
  | JS_Null
  | JS_Bool bool
  | JS_Num rat
  | JS_NaN
  | JS_Infinite
  | JS_Str string
  | JS_Arr "js list"
  | JS_Obj "(string \<times> js) list"

definition is_record :: "js \<Rightarrow> bool" where
  "is_record v = (case v of JS_Obj _ \<Rightarrow> True | _ \<Rightarrow> False)"

text \<open>A property of a record; \<open>has_field\<close> is the \<^verbatim>\<open>in\<close> operator.\<close>

definition field :: "js \<Rightarrow> string \<Rightarrow> js" where
  "field v k =
     (case v of
        JS_Obj kvs \<Rightarrow> (case map_of kvs k of None \<Rightarrow> JS_Undefined | Some x \<Rightarrow> x)
      | _ \<Rightarrow> JS_Undefined)"

definition has_field :: "js \<Rightarrow> string \<Rightarrow> bool" where
  "has_field v k = (case v of JS_Obj kvs \<Rightarrow> k \<in> fst ` set kvs | _ \<Rightarrow> False)"

definition rat_int :: "rat \<Rightarrow> int option" where
  "rat_int r = (if snd (quotient_of r) = 1 then Some (fst (quotient_of r)) else None)"

text \<open>\<^verbatim>\<open>Number.isInteger\<close> and \<^verbatim>\<open>Number.isSafeInteger\<close>.\<close>

definition js_int :: "js \<Rightarrow> int option" where
  "js_int v = (case v of JS_Num r \<Rightarrow> rat_int r | _ \<Rightarrow> None)"

definition js_safe_int :: "js \<Rightarrow> int option" where
  "js_safe_int v =
     (case js_int v of
        None \<Rightarrow> None
      | Some n \<Rightarrow> if \<bar>n\<bar> \<le> max_safe_integer then Some n else None)"

definition js_string :: "js \<Rightarrow> string option" where
  "js_string v = (case v of JS_Str s \<Rightarrow> Some s | _ \<Rightarrow> None)"

section \<open>The checks\<close>

definition plain_sources :: "(string \<times> observation) list" where
  "plain_sources =
     [(''ENGINE_RESULT'', ENGINE_RESULT), (''ENGINE_EXCEPTION'', ENGINE_EXCEPTION),
      (''HARD_STOP_DEADLINE'', HARD_STOP_DEADLINE), (''F07_STOP'', F07_STOP),
      (''INFRASTRUCTURE_ERROR'', INFRASTRUCTURE_ERROR), (''TARGET_UNREACHABLE'', TARGET_UNREACHABLE),
      (''INVALID_CONFIGURATION'', INVALID_CONFIGURATION),
      (''EXTERNAL_DEPENDENCY_ERROR'', EXTERNAL_DEPENDENCY_ERROR)]"

definition parse_observation :: "js \<Rightarrow> observation option" where
  "parse_observation v =
     (if \<not> has_field v ''source'' then None
      else (case js_string (field v ''source'') of
          None \<Rightarrow> None
        | Some s \<Rightarrow>
            (case map_of plain_sources s of
               Some obs \<Rightarrow> Some obs
             | None \<Rightarrow>
                 if s = ''CUSTOMER_CODE_EXIT''
                 then map_option CUSTOMER_CODE_EXIT (js_int (field v ''exitCode'')) else None)))"

datatype rpc_call =
    Rpc_Authorize string int
  | Rpc_Confirm string int
  | Rpc_Evidence string js "js option"
  | Rpc_Checkpoint

definition effect_args :: "js list \<Rightarrow> (string \<times> int) option" where
  "effect_args args =
     (case args of
        [k, n] \<Rightarrow>
          (case (js_string k, js_safe_int n) of
             (Some s, Some i) \<Rightarrow>
               if s \<noteq> [] \<and> length s \<le> 128 \<and> 0 \<le> i then Some (s, i) else None
           | _ \<Rightarrow> None)
      | _ \<Rightarrow> None)"

definition evidence_args :: "js list \<Rightarrow> (string \<times> js \<times> js option) option" where
  "evidence_args args =
     (case args of
        [k, p] \<Rightarrow> (case js_string k of
            Some s \<Rightarrow> if s \<noteq> [] then Some (s, p, None) else None | None \<Rightarrow> None)
      | [k, p, c] \<Rightarrow> (case js_string k of
            Some s \<Rightarrow> if s \<noteq> [] \<and> (c = JS_Undefined \<or> js_string c \<noteq> None) then Some (s, p, Some c) else None
          | None \<Rightarrow> None)
      | _ \<Rightarrow> None)"

text \<open>A valid request is its id and the call it makes; \<open>None\<close> is a refused message.\<close>

definition rpc_request :: "js \<Rightarrow> (int \<times> rpc_call) option" where
  "rpc_request v =
     (if \<not> is_record v \<or> field v ''type'' \<noteq> JS_Str ''rpc'' then None
      else (case js_safe_int (field v ''requestId'') of
          None \<Rightarrow> None
        | Some n \<Rightarrow>
            (case field v ''args'' of
               JS_Arr args \<Rightarrow>
                 map_option (Pair n)
                   (if field v ''method'' = JS_Str ''safetyCheckpoint''
                    then (if args = [] then Some Rpc_Checkpoint else None)
                    else if field v ''method'' = JS_Str ''authorizeEffect''
                    then map_option (\<lambda>(s, i). Rpc_Authorize s i) (effect_args args)
                    else if field v ''method'' = JS_Str ''confirmEffect''
                    then map_option (\<lambda>(s, i). Rpc_Confirm s i) (effect_args args)
                    else if field v ''method'' = JS_Str ''recordEvidence''
                    then map_option (\<lambda>(s, p, c). Rpc_Evidence s p c) (evidence_args args)
                    else None)
             | _ \<Rightarrow> None)))"

definition is_rpc_response :: "js \<Rightarrow> bool" where
  "is_rpc_response v =
     (is_record v \<and> field v ''type'' = JS_Str ''rpc-result'' \<and> js_safe_int (field v ''requestId'') \<noteq> None
      \<and> (case field v ''ok'' of JS_Bool _ \<Rightarrow> True | _ \<Rightarrow> False))"

definition optional_count :: "js \<Rightarrow> bool" where
  "optional_count v = (v = JS_Undefined \<or> (case js_safe_int v of None \<Rightarrow> False | Some n \<Rightarrow> 0 \<le> n))"

definition is_progress_message :: "js \<Rightarrow> bool" where
  "is_progress_message v =
     (is_record v \<and> field v ''type'' = JS_Str ''progress'' \<and> is_record (field v ''tick'')
      \<and> (let tick = field v ''tick'' in
         (case js_string (field tick ''label'') of None \<Rightarrow> False | Some s \<Rightarrow> length s \<le> 200)
         \<and> optional_count (field tick ''completedUnits'') \<and> optional_count (field tick ''totalUnits'')
         \<and> (field tick ''indeterminate'' = JS_Undefined
            \<or> (case field tick ''indeterminate'' of JS_Bool _ \<Rightarrow> True | _ \<Rightarrow> False))))"

definition tick_of :: "js \<Rightarrow> progress_tick" where
  "tick_of v =
     (let tick = field v ''tick'' in
      \<lparr> pt_label = (case js_string (field tick ''label'') of None \<Rightarrow> [] | Some s \<Rightarrow> s),
        pt_done = js_int (field tick ''completedUnits''), pt_total = js_int (field tick ''totalUnits''),
        pt_indeterminate = (field tick ''indeterminate'' = JS_Bool True) \<rparr>)"

definition is_result_message :: "js \<Rightarrow> bool" where
  "is_result_message v =
     (is_record v \<and> field v ''type'' = JS_Str ''result'' \<and> has_field v ''observation'' \<and> has_field v ''resourceUsage'')"

definition is_failure_message :: "js \<Rightarrow> bool" where
  "is_failure_message v = (is_record v \<and> field v ''type'' = JS_Str ''failure'')"

definition platforms :: "string list" where
  "platforms =
     [''win32'', ''linux'', ''darwin'', ''freebsd'', ''openbsd'', ''sunos'', ''aix'', ''android'', ''cygwin'']"

record resource_usage =
  ru_user_cpu :: rat
  ru_system_cpu :: rat
  ru_max_rss :: rat
  ru_rss :: rat
  ru_platform :: string

definition usage_number :: "js \<Rightarrow> rat option" where
  "usage_number v = (case v of JS_Num r \<Rightarrow> if 0 \<le> r then Some r else None | _ \<Rightarrow> None)"

definition parse_resource_usage :: "js \<Rightarrow> resource_usage option" where
  "parse_resource_usage v =
     (if \<not> is_record v then None
      else (case (usage_number (field v ''userCPUTimeMicros''), usage_number (field v ''systemCPUTimeMicros''),
                  usage_number (field v ''maxRSSNativeUnits''), usage_number (field v ''rssBytesAtCompletion''),
                  js_string (field v ''platform'')) of
          (Some a, Some b, Some c, Some d, Some p) \<Rightarrow>
            if p \<in> set platforms
            then Some \<lparr> ru_user_cpu = a, ru_system_cpu = b, ru_max_rss = c, ru_rss = d, ru_platform = p \<rparr>
            else None
        | _ \<Rightarrow> None))"

definition is_checkpoint_stop :: "js \<Rightarrow> bool" where
  "is_checkpoint_stop v = (is_record v \<and> field v ''outcome'' = JS_Str ''STOP'')"

section \<open>The handle\<close>

text \<open>\<open>waiting\<close>: a run has been started and has no result yet; \<open>attached\<close>: the host's calls are there.  The
  parent makes no calls of its own, so a response from the child answers nothing.\<close>

record child_handle =
  ch_waiting :: bool
  ch_attached :: bool

datatype child_event =
    Ev_None
  | Ev_Progress progress_tick
  | Ev_Call int rpc_call
  | Ev_Resolve observation "resource_usage option"
  | Ev_Reject string

definition settle :: "child_handle \<Rightarrow> child_event \<Rightarrow> child_event \<times> child_handle" where
  "settle h e = (if ch_waiting h then e else Ev_None, h\<lparr> ch_waiting := False \<rparr>)"

definition on_message :: "js \<Rightarrow> child_handle \<Rightarrow> child_event \<times> child_handle" where
  "on_message v h =
     (if is_rpc_response v then (Ev_None, h)
      else if is_progress_message v then (if ch_attached h then Ev_Progress (tick_of v) else Ev_None, h)
      else (case rpc_request v of
          Some (n, c) \<Rightarrow> (if ch_attached h then Ev_Call n c else Ev_None, h)
        | None \<Rightarrow>
            if is_result_message v
            then (case parse_observation (field v ''observation'') of
                None \<Rightarrow> settle h (Ev_Reject ''execution child returned invalid observation'')
              | Some obs \<Rightarrow> settle h (Ev_Resolve obs (parse_resource_usage (field v ''resourceUsage''))))
            else if is_failure_message v then settle h (Ev_Reject ''execution child failed'')
            else settle h (Ev_Reject ''execution child sent an invalid IPC message'')))"

text \<open>The child's process fails or exits.\<close>

definition on_exit :: "child_handle \<Rightarrow> child_event \<times> child_handle" where
  "on_exit h = settle h (Ev_Reject ''execution child exited'')"

definition start_run :: "child_handle \<Rightarrow> child_handle option" where
  "start_run h = (if ch_waiting h then None else Some (h\<lparr> ch_waiting := True, ch_attached := True \<rparr>))"

datatype child_input = In_Message js | In_Exit

fun run_child :: "child_handle \<Rightarrow> child_input list \<Rightarrow> child_event list" where
  "run_child h [] = []"
| "run_child h (i # is) =
     (let (e, h') = (case i of In_Message v \<Rightarrow> on_message v h | In_Exit \<Rightarrow> on_exit h) in
      e # run_child h' is)"

text \<open>What a run resolves to for the host: its first settlement.\<close>

definition settles :: "child_event \<Rightarrow> bool" where
  "settles e = (case e of Ev_Resolve _ _ \<Rightarrow> True | Ev_Reject _ \<Rightarrow> True | _ \<Rightarrow> False)"

definition run_end_of :: "child_event list \<Rightarrow> run_end" where
  "run_end_of es =
     (case List.find settles es of
        None \<Rightarrow> Run_Aborted
      | Some (Ev_Resolve obs _) \<Rightarrow> Run_Finished obs
      | Some _ \<Rightarrow> Run_Threw)"

section \<open>Lemmas\<close>

lemma effect_args_bounds:
  "effect_args args = Some (s, i) \<Longrightarrow> s \<noteq> [] \<and> length s \<le> 128 \<and> 0 \<le> i \<and> i \<le> max_safe_integer"
  by (auto simp: effect_args_def js_safe_int_def split: list.splits option.splits if_splits)

lemma rpc_request_bounds:
  assumes "rpc_request v = Some (n, c)"
  shows "case c of
      Rpc_Authorize s i \<Rightarrow> s \<noteq> [] \<and> length s \<le> 128 \<and> 0 \<le> i \<and> i \<le> max_safe_integer
    | Rpc_Confirm s i \<Rightarrow> s \<noteq> [] \<and> length s \<le> 128 \<and> 0 \<le> i \<and> i \<le> max_safe_integer
    | Rpc_Evidence s _ _ \<Rightarrow> s \<noteq> []
    | Rpc_Checkpoint \<Rightarrow> True"
  using assms
  by (auto simp: rpc_request_def evidence_args_def dest!: effect_args_bounds
      split: if_splits option.splits js.splits list.splits)

lemma on_message_events:
  assumes "on_message v h = (e, h')"
  shows "(settles e \<longrightarrow> ch_waiting h \<and> \<not> ch_waiting h') \<and> (\<not> ch_waiting h \<longrightarrow> \<not> ch_waiting h')
    \<and> (case e of Ev_Call n c \<Rightarrow> rpc_request v = Some (n, c)
       | Ev_Resolve obs u \<Rightarrow> parse_observation (field v ''observation'') = Some obs
       | _ \<Rightarrow> True)"
  using assms
  by (auto simp: on_message_def settle_def settles_def split: if_splits option.splits prod.splits)

lemma run_child_settled: "\<not> ch_waiting h \<Longrightarrow> filter settles (run_child h is) = []"
proof (induction "is" arbitrary: h)
  case (Cons i "is")
  obtain e h' where step: "(case i of In_Message v \<Rightarrow> on_message v h | In_Exit \<Rightarrow> on_exit h) = (e, h')"
    by fastforce
  have "\<not> settles e \<and> \<not> ch_waiting h'"
  proof (cases i)
    case (In_Message v)
    with step on_message_events [of v h e h'] Cons.prems show ?thesis by auto
  next
    case In_Exit
    with step Cons.prems show ?thesis by (auto simp: on_exit_def settle_def settles_def)
  qed
  with Cons.IH [of h'] step show ?case by simp
qed simp

lemma run_child_settles_once: "length (filter settles (run_child h is)) \<le> 1"
proof (induction "is" arbitrary: h)
  case (Cons i "is")
  obtain e h' where step: "(case i of In_Message v \<Rightarrow> on_message v h | In_Exit \<Rightarrow> on_exit h) = (e, h')"
    by fastforce
  have "settles e \<longrightarrow> \<not> ch_waiting h'"
  proof (cases i)
    case (In_Message v)
    with step on_message_events [of v h e h'] show ?thesis by auto
  next
    case In_Exit
    with step show ?thesis by (auto simp: on_exit_def settle_def)
  qed
  with Cons.IH [of h'] step run_child_settled [of h' "is"] show ?case by simp
qed simp

lemma run_child_calls:
  "\<forall>e \<in> set (run_child h is). case e of
       Ev_Call n c \<Rightarrow> (\<exists>v. rpc_request v = Some (n, c))
     | Ev_Resolve obs u \<Rightarrow> (\<exists>v. parse_observation v = Some obs)
     | _ \<Rightarrow> True"
proof (induction "is" arbitrary: h)
  case (Cons i "is")
  obtain e h' where step: "(case i of In_Message v \<Rightarrow> on_message v h | In_Exit \<Rightarrow> on_exit h) = (e, h')"
    by fastforce
  have "case e of Ev_Call n c \<Rightarrow> (\<exists>v. rpc_request v = Some (n, c))
     | Ev_Resolve obs u \<Rightarrow> (\<exists>v. parse_observation v = Some obs)
     | _ \<Rightarrow> True"
  proof (cases i)
    case (In_Message v)
    with step on_message_events [of v h e h'] show ?thesis by (auto split: child_event.splits)
  next
    case In_Exit
    with step show ?thesis by (auto simp: on_exit_def settle_def split: if_splits)
  qed
  with Cons.IH [of h'] step show ?case by simp
qed simp

end
