(* ===== verification/Unit_Block.thy ===== *)
theory Unit_Block
  imports Unit_Job
begin

text \<open>
  The finalizer's loop over the dependents: under the gate that lets a unit leave \<open>PLANNED\<close> only after
  its predecessors, it never meets the transition guard, and it blocks exactly the units that depend
  on the failed one through units that are not terminal.
\<close>

section \<open>Statuses\<close>

lemma terminal_iff [simp]:
  "is_terminal_unit_status s \<longleftrightarrow>
     s \<in> {U_SKIPPED, U_BLOCKED, U_REFUSED, U_COMPLETED, U_FAILED, U_CANCELLED, U_KILLED}"
  by (simp add: is_terminal_unit_status_def terminal_statuses_def)

lemma not_terminal_iff: "\<not> is_terminal u \<longleftrightarrow> eu_status u = U_PLANNED \<or> is_active (eu_status u)"
  by (cases "eu_status u") (simp_all add: is_terminal_def is_active_def)

text \<open>A unit is active only when every unit it depends on is completed.\<close>

definition gated :: "graph_edge list \<Rightarrow> unit_row list \<Rightarrow> bool" where
  "gated edges us =
     (\<forall>u \<in> set us. is_active (eu_status u) \<longrightarrow>
        (\<forall>d \<in> set us. (eu_id u, eu_id d) \<in> depends edges \<longrightarrow> eu_status d = U_COMPLETED))"

definition open_edges :: "graph_edge list \<Rightarrow> unit_row list \<Rightarrow> (string \<times> string) set" where
  "open_edges edges us = {(d, c) \<in> depends edges. \<exists>u \<in> set us. eu_id u = d \<and> \<not> is_terminal u}"

lemma open_dependents_iff:
  "d \<in> set (open_dependents edges c us) \<longleftrightarrow> (d, c) \<in> open_edges edges us"
proof -
  have "list_ex (\<lambda>e. ge_unit e = i \<and> ge_dep e = c) edges \<longleftrightarrow> (i, c) \<in> depends edges" for i
    by (force simp: list_ex_iff depends_def)
  then show ?thesis by (auto simp: open_dependents_def open_edges_def)
qed

lemma distinct_open_dependents:
  "distinct (map eu_id us) \<Longrightarrow> distinct (open_dependents edges c us)"
  by (simp add: open_dependents_def distinct_map_filter)

section \<open>Blocking a list of planned units\<close>

definition block_all :: "millis \<Rightarrow> (string \<Rightarrow> string) \<Rightarrow> string set \<Rightarrow> unit_row list \<Rightarrow> unit_row list" where
  "block_all now by' ds us = map (\<lambda>u. if eu_id u \<in> ds then block_row now (by' (eu_id u)) u else u) us"

lemma block_row_simps [simp]:
  "eu_id (block_row now c u) = eu_id u" "eu_status (block_row now c u) = U_BLOCKED"
  "same_frozen u (block_row now c u)" "eu_attempt (block_row now c u) = eu_attempt u"
  "eu_failure (block_row now c u) = eu_failure u" "eu_blocked_by (block_row now c u) = Some c"
  by (simp_all add: block_row_def same_frozen_def)

lemma block_all_ids [simp]: "map eu_id (block_all now by' ds us) = map eu_id us"
  by (simp add: block_all_def)

lemma block_guard: "eu_status u = U_PLANNED \<Longrightarrow> unit_guard False False u (block_row now c u)"
  by (simp add: unit_guard_def is_terminal_def)

lemma block_dependents_result:
  assumes "\<And>u. u \<in> set us \<Longrightarrow> eu_id u \<in> set ds \<Longrightarrow> eu_status u = U_PLANNED" and "distinct ds"
  shows "block_dependents now c ds us = Inr (block_all now (\<lambda>_. c) (set ds) us)"
  using assms
proof (induction ds arbitrary: us)
  case Nil
  then show ?case by (simp add: block_all_def)
next
  case (Cons d ds)
  have guard: "list_all (\<lambda>u. if eu_id u = d then unit_guard False False u (block_row now c u) else True) us"
    using Cons.prems(1) by (auto simp: list_all_iff intro: block_guard)
  have "block_dependents now c ds (update_rows eu_id d (block_row now c) us)
      = Inr (block_all now (\<lambda>_. c) (set ds) (update_rows eu_id d (block_row now c) us))"
    using Cons.prems by (intro Cons.IH) (auto simp: set_update_rows split: if_splits)
  moreover have "block_all now (\<lambda>_. c) (set ds) (update_rows eu_id d (block_row now c) us)
      = block_all now (\<lambda>_. c) (set (d # ds)) us"
    using Cons.prems(2) by (auto simp: block_all_def update_rows_def)
  ultimately show ?case using guard by (simp add: update_unit_def)
qed

lemma gated_block:
  assumes "gated edges us" and "\<And>u. u \<in> set us \<Longrightarrow> eu_id u \<in> ds \<Longrightarrow> eu_status u = U_PLANNED"
  shows "gated edges (block_all now by' ds us)"
  unfolding gated_def
proof (intro ballI impI)
  fix u d assume u: "u \<in> set (block_all now by' ds us)" "is_active (eu_status u)"
    and d: "d \<in> set (block_all now by' ds us)" "(eu_id u, eu_id d) \<in> depends edges"
  obtain u0 where u0: "u0 \<in> set us" "u = (if eu_id u0 \<in> ds then block_row now (by' (eu_id u0)) u0 else u0)"
    using u(1) by (auto simp: block_all_def)
  then have uu: "u = u0" using u(2) by (auto simp: is_active_def split: if_splits)
  obtain d0 where d0: "d0 \<in> set us" "d = (if eu_id d0 \<in> ds then block_row now (by' (eu_id d0)) d0 else d0)"
    using d(1) by (auto simp: block_all_def)
  have "eu_id d = eu_id d0" using d0(2) by simp
  then have "(eu_id u0, eu_id d0) \<in> depends edges" using d(2) uu by simp
  with assms(1) u0(1) d0(1) u(2) uu have comp: "eu_status d0 = U_COMPLETED"
    unfolding gated_def by blast
  then have "eu_id d0 \<notin> ds" using assms(2) [OF d0(1)] by auto
  with comp d0(2) show "eu_status d = U_COMPLETED" by simp
qed

lemma open_edges_block:
  "open_edges edges (block_all now by' ds us) = {(d, c) \<in> open_edges edges us. d \<notin> ds}"
  by (auto simp: open_edges_def block_all_def split: if_splits)

section \<open>The loop\<close>

definition reaches :: "graph_edge list \<Rightarrow> unit_row list \<Rightarrow> string list \<Rightarrow> string set" where
  "reaches edges us q = {d. \<exists>c \<in> set q. (d, c) \<in> (open_edges edges us)\<^sup>+}"

lemma reaches_step:
  assumes ds: "set ds = {d. (d, c) \<in> open_edges edges us}"
  shows "reaches edges us (c # q) = set ds \<union> reaches edges (block_all now by' (set ds) us) (q @ ds)"
    (is "?l = _ \<union> ?r")
proof
  let ?r1 = "open_edges edges us" and ?r2 = "open_edges edges (block_all now by' (set ds) us)"
  have sub: "?r2 \<subseteq> ?r1" by (auto simp: open_edges_block)
  show "?l \<subseteq> set ds \<union> ?r"
  proof
    fix d assume "d \<in> ?l"
    then obtain x where x: "x \<in> set (c # q)" and path: "(d, x) \<in> ?r1\<^sup>+" by (auto simp: reaches_def)
    from path show "d \<in> set ds \<union> ?r"
    proof (induction rule: converse_trancl_induct)
      case (base y)
      show ?case
      proof (cases "x = c \<or> y \<in> set ds")
        case True
        with base ds show ?thesis by auto
      next
        case False
        with base have "(y, x) \<in> ?r2" by (simp add: open_edges_block)
        with False x show ?thesis by (auto simp: reaches_def)
      qed
    next
      case (step y z)
      show ?case
      proof (cases "y \<in> set ds")
        case False
        with step(1) have yz: "(y, z) \<in> ?r2" by (simp add: open_edges_block)
        from step(3) show ?thesis
        proof
          assume "z \<in> set ds"
          with yz show ?thesis by (auto simp: reaches_def)
        next
          assume "z \<in> ?r"
          with yz show ?thesis by (auto simp: reaches_def intro: trancl_into_trancl2)
        qed
      qed simp
    qed
  qed
  show "set ds \<union> ?r \<subseteq> ?l"
  proof
    fix d assume "d \<in> set ds \<union> ?r"
    then show "d \<in> ?l"
    proof
      assume "d \<in> set ds"
      with ds show ?thesis by (auto simp: reaches_def)
    next
      assume "d \<in> ?r"
      then obtain x where x: "x \<in> set q \<union> set ds" "(d, x) \<in> ?r2\<^sup>+" by (auto simp: reaches_def)
      have p: "(d, x) \<in> ?r1\<^sup>+" using x(2) sub by (rule trancl_mono)
      show ?thesis
      proof (cases "x \<in> set q")
        case True
        with p show ?thesis by (auto simp: reaches_def)
      next
        case False
        with x(1) ds have "(x, c) \<in> ?r1" by auto
        with p have "(d, c) \<in> ?r1\<^sup>+" by (rule trancl_into_trancl)
        then show ?thesis by (auto simp: reaches_def)
      qed
    qed
  qed
qed

definition dead :: "unit_row list \<Rightarrow> string \<Rightarrow> bool" where
  "dead us c = (\<exists>u \<in> set us. eu_id u = c \<and> is_terminal u \<and> eu_status u \<noteq> U_COMPLETED)"

lemma open_dependents_planned:
  assumes "gated edges us" and "dead us c" and "distinct (map eu_id us)"
    and u: "u \<in> set us" "eu_id u \<in> set (open_dependents edges c us)"
  shows "eu_status u = U_PLANNED"
proof -
  obtain v where v: "v \<in> set us" "eu_id v = eu_id u" "\<not> is_terminal v" and e: "(eu_id u, c) \<in> depends edges"
    using u(2) by (auto simp: open_dependents_iff open_edges_def)
  have "v = u" using v(1,2) u(1) assms(3) by (auto simp: distinct_map dest: inj_onD)
  moreover obtain d where "d \<in> set us" "eu_id d = c" "eu_status d \<noteq> U_COMPLETED"
    using assms(2) by (auto simp: dead_def)
  then have "\<not> is_active (eu_status u)"
    using assms(1) u(1) e unfolding gated_def by metis
  ultimately show ?thesis using v(3) by (simp add: not_terminal_iff)
qed

lemma dead_block: "dead us c \<Longrightarrow> c \<notin> ds \<Longrightarrow> dead (block_all now by' ds us) c"
proof -
  assume "dead us c" and c: "c \<notin> ds"
  then obtain u where u: "u \<in> set us" "eu_id u = c" "is_terminal u" "eu_status u \<noteq> U_COMPLETED"
    by (auto simp: dead_def)
  then have "u \<in> set (block_all now by' ds us)" using c by (force simp: block_all_def)
  then show ?thesis unfolding dead_def by (rule bexI [rotated]) (simp add: u)
qed

lemma dead_blocked: "u \<in> set us \<Longrightarrow> eu_id u \<in> ds \<Longrightarrow> dead (block_all now by' ds us) (eu_id u)"
proof -
  assume u: "u \<in> set us" "eu_id u \<in> ds"
  then have "block_row now (by' (eu_id u)) u \<in> set (block_all now by' ds us)"
    by (force simp: block_all_def)
  then show ?thesis unfolding dead_def by (rule bexI [rotated]) simp
qed

lemma block_queue_result:
  assumes "gated edges us" and "distinct (map eu_id us)" and "\<forall>c \<in> set q. dead us c"
  shows "\<exists>blocked by'. block_queue now edges q us = Inr (blocked, block_all now by' (set blocked) us)
    \<and> set blocked = reaches edges us q
    \<and> (\<forall>u \<in> set us. eu_id u \<in> set blocked \<longrightarrow> eu_status u = U_PLANNED)
    \<and> (\<forall>d \<in> set blocked. (d, by' d) \<in> depends edges \<and> by' d \<in> set q \<union> set blocked)"
  using assms
proof (induction now edges q us rule: block_queue.induct)
  case (1 now edges us)
  then show ?case by (simp add: block_all_def reaches_def)
next
  case (2 now edges c q us)
  let ?ds = "open_dependents edges c us"
  let ?us = "block_all now (\<lambda>_. c) (set ?ds) us"
  have planned: "\<And>u. u \<in> set us \<Longrightarrow> eu_id u \<in> set ?ds \<Longrightarrow> eu_status u = U_PLANNED"
    using open_dependents_planned 2 by auto
  have run: "block_dependents now c ?ds us = Inr ?us"
    using planned distinct_open_dependents [OF 2(3)] by (rule block_dependents_result)
  have ids: "distinct (map eu_id ?us)" using 2(3) by simp
  have in_us: "\<exists>u \<in> set us. eu_id u = d \<and> \<not> is_terminal u" if "d \<in> set ?ds" for d
    using that by (auto simp: open_dependents_iff open_edges_def)
  have not_ds: "x \<notin> set ?ds" if x: "dead us x" for x
  proof
    assume "x \<in> set ?ds"
    with in_us obtain u where "u \<in> set us" "eu_id u = x" "\<not> is_terminal u" by blast
    with x 2(3) show False by (auto simp: dead_def distinct_map dest: inj_onD)
  qed
  have "\<forall>x \<in> set (q @ ?ds). dead ?us x"
    using 2(4) not_ds in_us dead_blocked dead_block by (fastforce simp: ball_Un)
  from 2(1) [OF refl run gated_block [OF 2(2) planned] ids this]
  obtain blocked by' where ih: "block_queue now edges (q @ ?ds) ?us = Inr (blocked, block_all now by' (set blocked) ?us)"
    "set blocked = reaches edges ?us (q @ ?ds)"
    "\<forall>u \<in> set ?us. eu_id u \<in> set blocked \<longrightarrow> eu_status u = U_PLANNED"
    "\<forall>d \<in> set blocked. (d, by' d) \<in> depends edges \<and> by' d \<in> set (q @ ?ds) \<union> set blocked" by blast
  let ?by = "\<lambda>d. if d \<in> set ?ds then c else by' d"
  have disj: "d \<notin> set blocked" if "d \<in> set ?ds" for d
  proof
    assume "d \<in> set blocked"
    from that have "d \<in> set ?ds" .
    from in_us [OF this] obtain u where u: "u \<in> set us" "eu_id u = d" by blast
    then have "block_row now c u \<in> set ?us" using that by (force simp: block_all_def)
    with ih(3) \<open>d \<in> set blocked\<close> u(2) show False by fastforce
  qed
  have both: "block_all now by' (set blocked) ?us = block_all now ?by (set (?ds @ blocked)) us"
    using disj by (auto simp: block_all_def)
  have "set (?ds @ blocked) = reaches edges us (c # q)"
  proof -
    have "set ?ds = {d. (d, c) \<in> open_edges edges us}" by (auto simp only: open_dependents_iff)
    from reaches_step [OF this, of q now "\<lambda>_. c"] show ?thesis by (simp only: set_append ih(2))
  qed
  moreover have "\<forall>u \<in> set us. eu_id u \<in> set (?ds @ blocked) \<longrightarrow> eu_status u = U_PLANNED"
  proof (intro ballI impI)
    fix u assume u: "u \<in> set us" "eu_id u \<in> set (?ds @ blocked)"
    show "eu_status u = U_PLANNED"
    proof (cases "eu_id u \<in> set ?ds")
      case False
      then have "u \<in> set ?us" using u(1) by (force simp: block_all_def)
      with False u(2) ih(3) show ?thesis by auto
    qed (use planned u in blast)
  qed
  moreover have "\<forall>d \<in> set (?ds @ blocked). (d, ?by d) \<in> depends edges \<and> ?by d \<in> set (c # q) \<union> set (?ds @ blocked)"
    using ih(4) by (auto simp: open_dependents_iff open_edges_def)
  moreover have "block_queue now edges (c # q) us = Inr (?ds @ blocked, block_all now ?by (set (?ds @ blocked)) us)"
    using run ih(1) both by (simp add: Let_def)
  ultimately show ?case by blast
qed

end
