(* ===== verification/Unit_Inv.thy ===== *)
theory Unit_Inv
  imports Unit_Block
begin

text \<open>
  The invariant of the execution tables and the contract every transaction on them meets: a unit
  only moves along the transition table, a terminal row never changes, and a claim is for ever.
\<close>

section \<open>How a unit evolves\<close>

definition unit_edges :: "(execution_unit_status \<times> execution_unit_status) set" where
  "unit_edges = {(s, t). t \<in> set (unit_transitions s)}"

definition evolves :: "unit_row \<Rightarrow> unit_row \<Rightarrow> bool" where
  "evolves u v =
     (same_frozen u v \<and> eu_attempt v = eu_attempt u \<and> (eu_status u, eu_status v) \<in> unit_edges\<^sup>*
      \<and> (is_terminal u \<longrightarrow> v = u))"

lemma evolves_refl [simp]: "evolves u u"
  by (simp add: evolves_def same_frozen_def)

lemma evolves_trans: "evolves u v \<Longrightarrow> evolves v w \<Longrightarrow> evolves u w"
  by (auto simp: evolves_def same_frozen_def intro: rtrancl_trans)

lemma evolves_edge:
  "same_frozen u v \<Longrightarrow> eu_attempt v = eu_attempt u \<Longrightarrow> \<not> is_terminal u \<Longrightarrow>
   eu_status v = eu_status u \<or> eu_status v \<in> set (unit_transitions (eu_status u)) \<Longrightarrow> evolves u v"
  by (auto simp: evolves_def unit_edges_def)

definition advances :: "exec_db \<Rightarrow> exec_db \<Rightarrow> bool" where
  "advances db db' =
     (ex_edges db' = ex_edges db \<and> ex_plans db' = ex_plans db
      \<and> list_all2 evolves (ex_units db) (ex_units db') \<and> prefix (ex_claims db) (ex_claims db'))"

lemma list_all2_evolves_refl [simp]: "list_all2 evolves us us"
  by (simp add: list_all2_refl)

lemma advances_refl [simp]: "advances db db"
  by (simp add: advances_def)

lemma advances_trans: "advances a b \<Longrightarrow> advances b c \<Longrightarrow> advances a c"
  using list_all2_trans [of evolves evolves evolves "ex_units a" "ex_units b" "ex_units c"] evolves_trans
  unfolding advances_def by (auto intro: prefix_order.trans)

lemma list_all2_map_evolves:
  "(\<And>u. u \<in> set us \<Longrightarrow> evolves u (f u)) \<Longrightarrow> list_all2 evolves us (map f us)"
  by (simp add: list_all2_conv_all_nth)

lemma evolves_ids: "list_all2 evolves us vs \<Longrightarrow> map eu_id vs = map eu_id us"
  by (induction rule: list_all2_induct) (simp_all add: evolves_def same_frozen_def)

lemma evolves_backwards:
  "list_all2 evolves us vs \<Longrightarrow> v \<in> set vs \<Longrightarrow> \<exists>u \<in> set us. evolves u v"
  by (induction rule: list_all2_induct) auto

lemma evolves_forwards:
  "list_all2 evolves us vs \<Longrightarrow> u \<in> set us \<Longrightarrow> \<exists>v \<in> set vs. evolves u v"
  by (induction rule: list_all2_induct) auto

lemma unmet_antimono:
  assumes "advances db db'" and "unmet_prerequisite db' i"
  shows "unmet_prerequisite db i"
proof -
  obtain e d' where e: "e \<in> set (ex_edges db)" "ge_unit e = i"
    and d': "d' \<in> set (ex_units db')" "eu_id d' = ge_dep e" "eu_status d' \<noteq> U_COMPLETED"
    using assms by (auto simp: unmet_prerequisite_def list_ex_iff advances_def)
  obtain d where d: "d \<in> set (ex_units db)" "evolves d d'"
    using evolves_backwards assms(1) d'(1) by (metis advances_def)
  then have "eu_id d = ge_dep e" "eu_status d \<noteq> U_COMPLETED"
    using d' by (auto simp: evolves_def same_frozen_def is_terminal_def)
  with e d(1) show ?thesis by (auto simp: unmet_prerequisite_def list_ex_iff)
qed

section \<open>The invariant\<close>

definition claims_ok :: "exec_db \<Rightarrow> bool" where
  "claims_ok db =
     (distinct (map (\<lambda>c. (cl_unit c, cl_attempt c)) (ex_claims db))
      \<and> (\<forall>c \<in> set (ex_claims db). \<not> unmet_prerequisite db (cl_unit c)))"

definition active_ok :: "exec_db \<Rightarrow> bool" where
  "active_ok db =
     (\<forall>u \<in> set (ex_units db). is_active (eu_status u) \<longrightarrow>
        (\<exists>c \<in> set (ex_claims db). cl_unit c = eu_id u \<and> cl_attempt c = eu_attempt u))"

definition effects_ok :: "exec_db \<Rightarrow> bool" where
  "effects_ok db =
     (\<forall>e \<in> set (ex_effects db). ef_state e = E_AUTHORIZED \<longrightarrow>
        (\<exists>u \<in> set (ex_units db). eu_id u = ef_unit e \<and> eu_status u = U_RUNNING))"

definition causes_ok :: "exec_db \<Rightarrow> bool" where
  "causes_ok db =
     (\<forall>u \<in> set (ex_units db).
        (eu_status u = U_FAILED) = (eu_failure u \<noteq> None)
        \<and> (eu_status u = U_BLOCKED \<longrightarrow>
            (\<exists>d. eu_blocked_by u = Some d \<and> (eu_id u, d) \<in> depends (ex_edges db) \<and> dead (ex_units db) d)))"

definition exec_ok :: "exec_db \<Rightarrow> bool" where
  "exec_ok db =
     (distinct (map eu_id (ex_units db)) \<and> claims_ok db \<and> active_ok db \<and> effects_ok db \<and> causes_ok db)"

lemma exec_ok_ids: "exec_ok db \<Longrightarrow> distinct (map eu_id (ex_units db))"
  by (simp add: exec_ok_def)

lemma same_unit:
  "exec_ok db \<Longrightarrow> u \<in> set (ex_units db) \<Longrightarrow> v \<in> set (ex_units db) \<Longrightarrow> eu_id u = eu_id v \<Longrightarrow> u = v"
  by (auto simp: exec_ok_def distinct_map dest: inj_onD)

lemma exec_ok_gated: "exec_ok db \<Longrightarrow> gated (ex_edges db) (ex_units db)"
  unfolding exec_ok_def active_ok_def claims_ok_def gated_def unmet_prerequisite_def list_ex_iff depends_def
  by fastforce

lemma claims_ok_advances:
  "advances db db' \<Longrightarrow> claims_ok db \<Longrightarrow> ex_claims db' = ex_claims db \<Longrightarrow> claims_ok db'"
  using unmet_antimono by (auto simp: claims_ok_def)

lemma dead_advances:
  assumes "list_all2 evolves us vs" and "dead us d"
  shows "dead vs d"
proof -
  obtain u where u: "u \<in> set us" "eu_id u = d" "is_terminal u" "eu_status u \<noteq> U_COMPLETED"
    using assms(2) by (auto simp: dead_def)
  with evolves_forwards [OF assms(1) u(1)] have "u \<in> set vs" by (auto simp: evolves_def)
  with u show ?thesis by (auto simp: dead_def)
qed

text \<open>A row update that keeps the contract keeps the invariant, if whatever becomes active has its
  claim, no running unit with an authorized effect stops running, and a failure or a block has its
  cause.\<close>

lemma exec_ok_map:
  assumes ok: "exec_ok db"
    and ev: "\<And>u. u \<in> set (ex_units db) \<Longrightarrow> evolves u (f u)"
    and act: "\<And>u. u \<in> set (ex_units db) \<Longrightarrow> is_active (eu_status (f u)) \<Longrightarrow> \<not> is_active (eu_status u) \<Longrightarrow>
        \<exists>c \<in> set (ex_claims db). cl_unit c = eu_id u \<and> cl_attempt c = eu_attempt u"
    and eff: "\<And>e u. e \<in> set es \<Longrightarrow> ef_state e = E_AUTHORIZED \<Longrightarrow>
        \<exists>u \<in> set (ex_units db). eu_id u = ef_unit e \<and> eu_status (f u) = U_RUNNING"
    and fail: "\<And>u. u \<in> set (ex_units db) \<Longrightarrow> \<not> is_terminal u \<Longrightarrow>
        (eu_status (f u) = U_FAILED) = (eu_failure (f u) \<noteq> None)"
    and blk: "\<And>u. u \<in> set (ex_units db) \<Longrightarrow> \<not> is_terminal u \<Longrightarrow> eu_status (f u) = U_BLOCKED \<Longrightarrow>
        \<exists>d. eu_blocked_by (f u) = Some d \<and> (eu_id u, d) \<in> depends (ex_edges db)
          \<and> dead (map f (ex_units db)) d"
  shows "exec_ok (db\<lparr> ex_units := map f (ex_units db), ex_effects := es, ex_safety := safe \<rparr>)
    \<and> advances db (db\<lparr> ex_units := map f (ex_units db), ex_effects := es, ex_safety := safe \<rparr>)"
proof -
  let ?db = "db\<lparr> ex_units := map f (ex_units db), ex_effects := es, ex_safety := safe \<rparr>"
  have l2: "list_all2 evolves (ex_units db) (map f (ex_units db))" using ev by (rule list_all2_map_evolves)
  then have adv: "advances db ?db" by (simp add: advances_def)
  have ids: "map eu_id (map f (ex_units db)) = map eu_id (ex_units db)" using evolves_ids [OF l2] .
  have keep: "eu_id (f u) = eu_id u" "eu_attempt (f u) = eu_attempt u" if "u \<in> set (ex_units db)" for u
    using ev [OF that] by (auto simp: evolves_def same_frozen_def)
  have "claims_ok ?db" using claims_ok_advances [OF adv] ok by (simp add: exec_ok_def)
  moreover have "active_ok ?db"
    unfolding active_ok_def
  proof (intro ballI impI)
    fix v assume "v \<in> set (ex_units ?db)" and v: "is_active (eu_status v)"
    then obtain u where u: "u \<in> set (ex_units db)" "v = f u" by auto
    show "\<exists>c \<in> set (ex_claims ?db). cl_unit c = eu_id v \<and> cl_attempt c = eu_attempt v"
    proof (cases "is_active (eu_status u)")
      case True
      with ok u keep [OF u(1)] show ?thesis by (simp add: exec_ok_def active_ok_def)
    next
      case False
      with act [OF u(1)] v u keep [OF u(1)] show ?thesis by simp
    qed
  qed
  moreover have "effects_ok ?db"
    unfolding effects_ok_def using eff keep by fastforce
  moreover have "causes_ok ?db"
    unfolding causes_ok_def
  proof (intro ballI)
    fix v assume "v \<in> set (ex_units ?db)"
    then obtain u where u: "u \<in> set (ex_units db)" "v = f u" by auto
    show "(eu_status v = U_FAILED) = (eu_failure v \<noteq> None)
      \<and> (eu_status v = U_BLOCKED \<longrightarrow> (\<exists>d. eu_blocked_by v = Some d
            \<and> (eu_id v, d) \<in> depends (ex_edges ?db) \<and> dead (ex_units ?db) d))"
    proof (cases "is_terminal u")
      case True
      with ev [OF u(1)] have "f u = u" by (simp add: evolves_def)
      moreover have "(eu_status u = U_FAILED) = (eu_failure u \<noteq> None)
        \<and> (eu_status u = U_BLOCKED \<longrightarrow> (\<exists>d. eu_blocked_by u = Some d
            \<and> (eu_id u, d) \<in> depends (ex_edges db) \<and> dead (ex_units db) d))"
        using ok u(1) unfolding exec_ok_def causes_ok_def by blast
      ultimately show ?thesis using u(2) dead_advances [OF l2] by auto
    next
      case False
      with fail [OF u(1)] blk [OF u(1)] u keep [OF u(1)] show ?thesis by simp
    qed
  qed
  moreover have "distinct (map eu_id (ex_units ?db))" 
  proof -
    have "distinct (map eu_id (map f (ex_units db)))" using ids exec_ok_ids [OF ok] by metis
    then show ?thesis by simp
  qed
  ultimately show ?thesis using adv unfolding exec_ok_def by blast
qed

end
