(* ===== verification/Unit_Keep.thy ===== *)
theory Unit_Keep
  imports Unit_Inv
begin

text \<open>
  Every transaction on the execution tables keeps the invariant and the contract, and the finalizer
  never meets the transition guard.
\<close>

lemma in_update_only:
  assumes u: "u \<in> set rs" "key u = i" and only: "\<And>v. v \<in> set rs \<Longrightarrow> key v = i \<Longrightarrow> v = u"
  shows "v \<in> set (update_rows key i f rs) \<longleftrightarrow> v = f u \<or> v \<in> set rs \<and> key v \<noteq> i"
  unfolding update_rows_def set_map image_iff using u(1) by (metis u(2) only)

definition keeps :: "exec_db \<Rightarrow> exec_db \<Rightarrow> bool" where
  "keeps db db' = (exec_ok db \<longrightarrow> exec_ok db' \<and> advances db db')"

lemma keeps_refl [simp]: "keeps db db"
  by (simp add: keeps_def)

lemma keeps_trans: "keeps a b \<Longrightarrow> keeps b c \<Longrightarrow> keeps a c"
  unfolding keeps_def using advances_trans by blast

lemma keepsD: "keeps db db' \<Longrightarrow> exec_ok db \<Longrightarrow> exec_ok db'" "keeps db db' \<Longrightarrow> exec_ok db \<Longrightarrow> advances db db'"
  by (simp_all add: keeps_def)

text \<open>What lies outside the runtime: the safety tables, the scans and the module results.\<close>

lemma exec_ok_outside [simp]:
  "exec_ok (db\<lparr> ex_safety := safe \<rparr>) = exec_ok db"
  "exec_ok (db\<lparr> ex_scans := ss \<rparr>) = exec_ok db"
  "exec_ok (db\<lparr> ex_modules := ms \<rparr>) = exec_ok db"
  by (simp_all add: exec_ok_def claims_ok_def active_ok_def effects_ok_def causes_ok_def unmet_prerequisite_def)

lemma keeps_outside [simp]:
  "keeps db (db\<lparr> ex_safety := safe \<rparr>)" "keeps db (db\<lparr> ex_scans := ss \<rparr>)" "keeps db (db\<lparr> ex_modules := ms \<rparr>)"
  by (simp_all add: keeps_def advances_def)

section \<open>The finalizer\<close>

lemma final_row_simps [simp]:
  "eu_id (final_row now k fc r p u) = eu_id u" "eu_status (final_row now k fc r p u) = final_status k"
  "same_frozen u (final_row now k fc r p u)" "eu_attempt (final_row now k fc r p u) = eu_attempt u"
  "eu_failure (final_row now k fc r p u) = fc" "is_terminal (final_row now k fc r p u)"
  by (cases k; simp add: final_row_def same_frozen_def is_terminal_def)+

lemma final_status_iff [simp]:
  "final_status k = U_FAILED \<longleftrightarrow> k = Fin_Failed" "final_status k = U_COMPLETED \<longleftrightarrow> k = Fin_Completed"
  "final_status k \<noteq> U_BLOCKED" "final_status k \<noteq> U_RUNNING" "\<not> is_active (final_status k)"
  by (cases k; simp add: is_active_def)+

lemma final_guard: "final_allowed k u \<Longrightarrow> \<not> is_terminal u \<Longrightarrow> unit_guard False False u (final_row now k fc r p u)"
  by (cases k) (auto simp: unit_guard_def final_allowed_def)

lemma final_evolves: "final_allowed k u \<Longrightarrow> \<not> is_terminal u \<Longrightarrow> evolves u (final_row now k fc r p u)"
  by (cases k) (auto simp: final_allowed_def intro!: evolves_edge)

lemma block_evolves: "eu_status u = U_PLANNED \<Longrightarrow> evolves u (block_row now c u)"
  by (auto simp: is_terminal_def intro!: evolves_edge)

text \<open>The result of a finalization that is not a replay: the unit has its outcome, exactly the units
  that depend on it through units that are not terminal are blocked, and nothing else moves.\<close>

definition finalized ::
    "millis \<Rightarrow> string \<Rightarrow> final_kind \<Rightarrow> failure_class option \<Rightarrow> string option \<Rightarrow> progress_snapshot option
     \<Rightarrow> (string \<Rightarrow> string) \<Rightarrow> string set \<Rightarrow> unit_row \<Rightarrow> unit_row" where
  "finalized now i k fc reason progress by' blocked u =
     (if eu_id u = i then final_row now k fc reason progress u
      else if eu_id u \<in> blocked then block_row now (by' (eu_id u)) u else u)"

text \<open>The tables after the unit's own row, before its dependents.\<close>

lemma final_rows:
  fixes now :: millis and k :: final_kind and fc :: "failure_class option" and reason :: "string option"
    and progress :: "progress_snapshot option"
  assumes ok: "exec_ok db" and u: "u \<in> set (ex_units db)" "eu_id u = i" and live: "\<not> is_terminal u"
  defines "us \<equiv> update_rows eu_id i (final_row now k fc reason progress) (ex_units db)"
  shows "v \<in> set us \<longleftrightarrow> v = final_row now k fc reason progress u \<or> v \<in> set (ex_units db) \<and> eu_id v \<noteq> i"
    and "gated (ex_edges db) us" and "distinct (map eu_id us)"
    and "open_edges (ex_edges db) us = {(d, c) \<in> open_edges (ex_edges db) (ex_units db). d \<noteq> i}"
proof -
  have only: "v = u" if "v \<in> set (ex_units db)" "eu_id v = i" for v
    using same_unit [OF ok that(1) u(1)] that(2) u(2) by simp
  have in_us: "v \<in> set us \<longleftrightarrow>
      v = final_row now k fc reason progress u \<or> v \<in> set (ex_units db) \<and> eu_id v \<noteq> i" for v
    unfolding us_def using u(1,2) only by (intro in_update_only [where key = eu_id])
  then show "v \<in> set us \<longleftrightarrow>
      v = final_row now k fc reason progress u \<or> v \<in> set (ex_units db) \<and> eu_id v \<noteq> i" .
  show "distinct (map eu_id us)" using exec_ok_ids [OF ok] by (simp add: us_def map_key_update_rows)
  show "open_edges (ex_edges db) us = {(d, c) \<in> open_edges (ex_edges db) (ex_units db). d \<noteq> i}"
    using in_us u(2) by (auto simp: open_edges_def)
  have old: "gated (ex_edges db) (ex_units db)" using exec_ok_gated [OF ok] .
  show "gated (ex_edges db) us"
    unfolding gated_def
  proof (intro ballI impI)
    fix v d assume v: "v \<in> set us" "is_active (eu_status v)"
      and d: "d \<in> set us" "(eu_id v, eu_id d) \<in> depends (ex_edges db)"
    have v': "v \<in> set (ex_units db)" using v in_us by auto
    show "eu_status d = U_COMPLETED"
    proof (cases "d \<in> set (ex_units db)")
      case True
      with old v' v(2) d(2) show ?thesis unfolding gated_def by blast
    next
      case False
      then have "eu_id d = i" using d(1) in_us u(2) by auto
      with old v' v(2) d(2) u(1,2) have "eu_status u = U_COMPLETED" unfolding gated_def by metis
      with live show ?thesis by (simp add: is_terminal_def)
    qed
  qed
qed

lemma reaches_without:
  assumes less: "open_edges edges us = {(d, c) \<in> open_edges edges vs. d \<noteq> i}" and i: "i \<notin> reaches edges us [i]"
  shows "reaches edges us [i] = reaches edges vs [i] - {i}"
proof
  show "reaches edges us [i] \<subseteq> reaches edges vs [i] - {i}"
    using i less unfolding reaches_def by (auto intro: trancl_mono)
  have "d = i \<or> d \<in> reaches edges us [i]" if "(d, i) \<in> (open_edges edges vs)\<^sup>+" for d
    using that
  proof (induction rule: converse_trancl_induct)
    case (base y)
    then show ?case unfolding reaches_def less by auto
  next
    case (step y z)
    show ?case
    proof (cases "y = i")
      case False
      with step.hyps(1) have yz: "(y, z) \<in> open_edges edges us" by (simp add: less)
      from step.IH yz show ?thesis unfolding reaches_def by (auto intro: trancl_into_trancl2)
    qed simp
  qed
  then show "reaches edges vs [i] - {i} \<subseteq> reaches edges us [i]" by (auto simp: reaches_def)
qed

lemma block_after_final:
  assumes ok: "exec_ok db" and u: "u \<in> set (ex_units db)" "eu_id u = i" and live: "\<not> is_terminal u"
    and k: "k \<noteq> Fin_Completed"
  obtains blocked by' where
    "block_queue now (ex_edges db) [i] (update_rows eu_id i (final_row now k fc reason progress) (ex_units db)) =
       Inr (blocked, map (finalized now i k fc reason progress by' (set blocked)) (ex_units db))"
    "set blocked = reaches (ex_edges db) (ex_units db) [i] - {i}"
    "\<And>v. v \<in> set (ex_units db) \<Longrightarrow> eu_id v \<in> set blocked \<Longrightarrow> eu_status v = U_PLANNED \<and> eu_id v \<noteq> i"
    "\<And>d. d \<in> set blocked \<Longrightarrow> (d, by' d) \<in> depends (ex_edges db) \<and> by' d \<in> insert i (set blocked)"
proof -
  let ?us = "update_rows eu_id i (final_row now k fc reason progress) (ex_units db)"
  let ?row = "final_row now k fc reason progress u"
  note rows = final_rows [OF ok u live, where now = now and k = k and fc = fc and reason = reason and progress = progress]
  have dead_i: "\<forall>c \<in> set [i]. dead ?us c"
    using k u rows(1) by (auto simp: dead_def intro!: bexI [of _ ?row])
  obtain blocked by' where b: "block_queue now (ex_edges db) [i] ?us = Inr (blocked, block_all now by' (set blocked) ?us)"
      "set blocked = reaches (ex_edges db) ?us [i]"
      "\<forall>u \<in> set ?us. eu_id u \<in> set blocked \<longrightarrow> eu_status u = U_PLANNED"
      "\<forall>d \<in> set blocked. (d, by' d) \<in> depends (ex_edges db) \<and> by' d \<in> set [i] \<union> set blocked"
    using block_queue_result [OF rows(2,3) dead_i] by blast
  have not_i: "i \<notin> set blocked"
  proof
    assume "i \<in> set blocked"
    moreover have "?row \<in> set ?us" using rows(1) by blast
    ultimately have "final_status k = U_PLANNED" using b(3) u(2) by (metis final_row_simps(1,2))
    then show False by (cases k) simp_all
  qed
  show ?thesis
  proof (rule that [of blocked by'])
    have "block_all now by' (set blocked) ?us
        = map (finalized now i k fc reason progress by' (set blocked)) (ex_units db)"
      using not_i by (auto simp: block_all_def finalized_def update_rows_def)
    with b(1) show "block_queue now (ex_edges db) [i] ?us =
        Inr (blocked, map (finalized now i k fc reason progress by' (set blocked)) (ex_units db))" by simp
    show "set blocked = reaches (ex_edges db) (ex_units db) [i] - {i}"
      using reaches_without [OF rows(4)] not_i unfolding b(2) by blast
    show "eu_status v = U_PLANNED \<and> eu_id v \<noteq> i" if "v \<in> set (ex_units db)" "eu_id v \<in> set blocked" for v
      using that b(3) not_i rows(1) by auto
  qed (use b(4) in auto)
qed

lemma finalize_applies:
  assumes ok: "exec_ok db" and u: "u \<in> set (ex_units db)" "eu_id u = i" "eu_key u = key"
    and live: "\<not> is_terminal u" and allowed: "final_allowed k u"
    and cls: "(k = Fin_Failed) = (fc \<noteq> None)" "fc \<noteq> Some F_DETERMINISTIC_FINDING"
    and safe: "settle_safety now i (ex_safety db) = Some safe"
  obtains blocked by' where
    "fahes_finalize_unit now i key k fc reason progress db =
       Inr (\<lparr> fr_status = final_status k, fr_replayed = False, fr_matches = True, fr_blocked = blocked \<rparr>,
            db\<lparr> ex_units := map (finalized now i k fc reason progress by' (set blocked)) (ex_units db),
                ex_effects := abandon_effects i (ex_effects db), ex_safety := safe \<rparr>)"
    "set blocked = (if k = Fin_Completed then {} else reaches (ex_edges db) (ex_units db) [i] - {i})"
    "\<And>v. v \<in> set (ex_units db) \<Longrightarrow> eu_id v \<in> set blocked \<Longrightarrow> eu_status v = U_PLANNED \<and> eu_id v \<noteq> i"
    "\<And>d. d \<in> set blocked \<Longrightarrow> (d, by' d) \<in> depends (ex_edges db) \<and> by' d \<in> insert i (set blocked)"
proof -
  let ?us = "update_rows eu_id i (final_row now k fc reason progress) (ex_units db)"
  have only: "v = u" if "v \<in> set (ex_units db)" "eu_id v = i" for v
    using same_unit [OF ok that(1) u(1)] that(2) u(2) by simp
  have row: "find_unit db i = Some u"
    using u ok find_row_unique [of eu_id "ex_units db" u] by (simp add: find_unit_def exec_ok_def)
  have upd: "update_unit False False i (final_row now k fc reason progress) (ex_units db) = Inr ?us"
    using only final_guard [OF allowed live] by (auto simp: update_unit_def list_all_iff)
  have head: "fahes_finalize_unit now i key k fc reason progress db =
    (case (if k = Fin_Completed then Inr ([], ?us) else block_queue now (ex_edges db) [i] ?us) of
       Inl e \<Rightarrow> Inl e
     | Inr (blocked, us') \<Rightarrow>
         Inr (\<lparr> fr_status = final_status k, fr_replayed = False, fr_matches = True, fr_blocked = blocked \<rparr>,
              db\<lparr> ex_units := us', ex_effects := abandon_effects i (ex_effects db), ex_safety := safe \<rparr>))"
    using cls u(3) live allowed safe row upd by (simp add: fahes_finalize_unit_def)
  show thesis
  proof (cases "k = Fin_Completed")
    case True
    have "map (finalized now i k fc reason progress (\<lambda>_. []) {}) (ex_units db) = ?us"
      by (auto simp: finalized_def update_rows_def)
    with head True show ?thesis by (intro that [of "[]" "\<lambda>_. []"]) auto
  next
    case False
    obtain blocked by' where b: "block_queue now (ex_edges db) [i] ?us =
       Inr (blocked, map (finalized now i k fc reason progress by' (set blocked)) (ex_units db))"
      "set blocked = reaches (ex_edges db) (ex_units db) [i] - {i}"
      "\<And>v. v \<in> set (ex_units db) \<Longrightarrow> eu_id v \<in> set blocked \<Longrightarrow> eu_status v = U_PLANNED \<and> eu_id v \<noteq> i"
      "\<And>d. d \<in> set blocked \<Longrightarrow> (d, by' d) \<in> depends (ex_edges db) \<and> by' d \<in> insert i (set blocked)"
      by (rule block_after_final [OF ok u(1,2) live False]) (rule that)
    show ?thesis
      by (rule that [OF _ _ b(3,4)]) (simp_all only: head False b(1,2) if_False sum.case prod.case)
  qed
qed

end
