(* ===== verification/Unit_Steps.thy ===== *)
theory Unit_Steps
  imports Unit_Keep
begin

text \<open>Every transaction on the execution tables keeps the invariant and the contract.\<close>

section \<open>Finalization\<close>

lemma reaches_exists: "d \<in> reaches edges us cs \<Longrightarrow> \<exists>u \<in> set us. eu_id u = d"
  unfolding reaches_def open_edges_def by (fastforce dest!: tranclD)

lemma abandon_authorized:
  "e \<in> set (abandon_effects i es) \<Longrightarrow> ef_state e = E_AUTHORIZED \<Longrightarrow> e \<in> set es \<and> ef_unit e \<noteq> i"
  by (auto simp: abandon_effects_def split: if_splits)

lemma finalized_keeps:
  fixes now :: millis and reason :: "string option" and progress :: "progress_snapshot option"
    and safe :: safety_db
  assumes ok: "exec_ok db" and u: "u \<in> set (ex_units db)" "eu_id u = i"
    and live: "\<not> is_terminal u" and allowed: "final_allowed k u" and cls: "(k = Fin_Failed) = (fc \<noteq> None)"
    and blocked: "blocked = (if k = Fin_Completed then {} else reaches (ex_edges db) (ex_units db) [i] - {i})"
    and planned: "\<And>v. v \<in> set (ex_units db) \<Longrightarrow> eu_id v \<in> blocked \<Longrightarrow> eu_status v = U_PLANNED \<and> eu_id v \<noteq> i"
    and by': "\<And>d. d \<in> blocked \<Longrightarrow> (d, by' d) \<in> depends (ex_edges db) \<and> by' d \<in> insert i blocked"
  defines "f \<equiv> finalized now i k fc reason progress by' blocked"
  defines "db' \<equiv> db\<lparr> ex_units := map f (ex_units db), ex_effects := abandon_effects i (ex_effects db),
                   ex_safety := safe \<rparr>"
  shows "exec_ok db' \<and> advances db db'"
  unfolding db'_def
proof (rule exec_ok_map [OF ok])
  have only: "v = u" if "v \<in> set (ex_units db)" "eu_id v = i" for v
    using same_unit [OF ok that(1) u(1)] that(2) u(2) by simp
  have f_i: "f u = final_row now k fc reason progress u" using u(2) by (simp add: f_def finalized_def)
  have f_other: "f v = (if eu_id v \<in> blocked then block_row now (by' (eu_id v)) v else v)"
    if "eu_id v \<noteq> i" for v using that by (simp add: f_def finalized_def)
  fix v assume v: "v \<in> set (ex_units db)"
  show "evolves v (f v)"
  proof (cases "eu_id v = i")
    case True
    with only [OF v] f_i final_evolves [OF allowed live] show ?thesis by simp
  next
    case False
    with planned [OF v] block_evolves show ?thesis by (simp add: f_other)
  qed
  show "\<exists>c \<in> set (ex_claims db). cl_unit c = eu_id v \<and> cl_attempt c = eu_attempt v"
    if "is_active (eu_status (f v))" "\<not> is_active (eu_status v)"
    using that only [OF v] f_i f_other [of v]
    by (cases "eu_id v = i"; cases k) (auto simp: is_active_def split: if_splits)
  show "(eu_status (f v) = U_FAILED) = (eu_failure (f v) \<noteq> None)" if "\<not> is_terminal v"
  proof (cases "eu_id v = i")
    case True
    with only [OF v] f_i cls show ?thesis by simp
  next
    case False
    have "(eu_status v = U_FAILED) = (eu_failure v \<noteq> None)"
      using ok v unfolding exec_ok_def causes_ok_def by blast
    with False planned [OF v] show ?thesis by (auto simp: f_other)
  qed
  show "\<exists>d. eu_blocked_by (f v) = Some d \<and> (eu_id v, d) \<in> depends (ex_edges db) \<and> dead (map f (ex_units db)) d"
    if "\<not> is_terminal v" "eu_status (f v) = U_BLOCKED"
  proof -
    have ni: "eu_id v \<noteq> i" using that only [OF v] f_i by auto
    with that have b: "eu_id v \<in> blocked" by (auto simp: f_other is_terminal_def split: if_splits)
    have "dead (map f (ex_units db)) (by' (eu_id v))"
    proof (cases "by' (eu_id v) = i")
      case True
      have "k \<noteq> Fin_Completed" using b blocked by auto
      then show ?thesis using True u f_i by (auto simp: dead_def intro!: bexI [of _ u])
    next
      case False
      with by' [OF b] have d: "by' (eu_id v) \<in> blocked" by simp
      then have "by' (eu_id v) \<in> reaches (ex_edges db) (ex_units db) [i]"
        using blocked by (auto split: if_splits)
      from reaches_exists [OF this]
      obtain w where "w \<in> set (ex_units db)" "eu_id w = by' (eu_id v)" by blast
      with d False show ?thesis by (auto simp: dead_def f_other is_terminal_def intro!: bexI [of _ w])
    qed
    with b ni by' [OF b] show ?thesis by (simp add: f_other)
  qed
next
  fix e v assume e: "e \<in> set (abandon_effects i (ex_effects db))" "ef_state e = E_AUTHORIZED"
  then have "e \<in> set (ex_effects db)" "ef_unit e \<noteq> i" using abandon_authorized by blast+
  with e ok obtain w where w: "w \<in> set (ex_units db)" "eu_id w = ef_unit e" "eu_status w = U_RUNNING"
    unfolding exec_ok_def effects_ok_def by blast
  with planned [OF w(1)] \<open>ef_unit e \<noteq> i\<close>
  show "\<exists>u \<in> set (ex_units db). eu_id u = ef_unit e \<and> eu_status (f u) = U_RUNNING"
    by (auto simp: f_def finalized_def intro!: bexI [of _ w])
qed

lemma finalize_keeps:
  assumes "fahes_finalize_unit now i key k fc reason progress db = Inr (r, db')"
  shows "keeps db db'"
  unfolding keeps_def
proof
  assume ok: "exec_ok db"
  have cls: "(k = Fin_Failed) = (fc \<noteq> None)" "fc \<noteq> Some F_DETERMINISTIC_FINDING"
    using assms by (auto simp: fahes_finalize_unit_def split: if_splits)
  obtain u where row: "find_unit db i = Some u" and key: "eu_key u = key"
    using assms by (auto simp: fahes_finalize_unit_def split: if_splits option.splits)
  then have u: "u \<in> set (ex_units db)" "eu_id u = i" by (auto simp: find_unit_def dest: find_row_SomeD)
  show "exec_ok db' \<and> advances db db'"
  proof (cases "is_terminal u")
    case True
    then have "db' = db" using assms cls row key by (simp add: fahes_finalize_unit_def)
    with ok show ?thesis by simp
  next
    case live: False
    obtain safe where allowed: "final_allowed k u" and safe: "settle_safety now i (ex_safety db) = Some safe"
      using assms cls row key live by (auto simp: fahes_finalize_unit_def split: if_splits option.splits)
    obtain blocked by' where res: "fahes_finalize_unit now i key k fc reason progress db =
       Inr (\<lparr> fr_status = final_status k, fr_replayed = False, fr_matches = True, fr_blocked = blocked \<rparr>,
            db\<lparr> ex_units := map (finalized now i k fc reason progress by' (set blocked)) (ex_units db),
                ex_effects := abandon_effects i (ex_effects db), ex_safety := safe \<rparr>)"
      and facts: "set blocked = (if k = Fin_Completed then {} else reaches (ex_edges db) (ex_units db) [i] - {i})"
        "\<And>v. v \<in> set (ex_units db) \<Longrightarrow> eu_id v \<in> set blocked \<Longrightarrow> eu_status v = U_PLANNED \<and> eu_id v \<noteq> i"
        "\<And>d. d \<in> set blocked \<Longrightarrow> (d, by' d) \<in> depends (ex_edges db) \<and> by' d \<in> insert i (set blocked)"
      using finalize_applies [OF ok u key live allowed cls safe] by blast
    from res assms show ?thesis
      using finalized_keeps [OF ok u live allowed cls(1) facts] by simp
  qed
qed

section \<open>One row\<close>

lemma update_keeps:
  assumes run: "update_unit passive runtime i f (ex_units db) = Inr us"
    and att: "\<And>u. eu_attempt (f u) = eu_attempt u"
    and act: "\<And>u. u \<in> set (ex_units db) \<Longrightarrow> eu_id u = i \<Longrightarrow> is_active (eu_status (f u)) \<Longrightarrow> exec_ok db \<Longrightarrow>
        \<exists>c \<in> set (ex_claims db). cl_unit c = i \<and> cl_attempt c = eu_attempt u"
    and was: "\<And>u. u \<in> set (ex_units db) \<Longrightarrow> eu_id u = i \<Longrightarrow>
        eu_status u \<noteq> U_RUNNING \<and> eu_status (f u) \<notin> {U_FAILED, U_BLOCKED} \<and> eu_failure (f u) = eu_failure u"
  shows "keeps db (db\<lparr> ex_units := us \<rparr>)"
  unfolding keeps_def
proof
  assume ok: "exec_ok db"
  let ?f = "\<lambda>u. if eu_id u = i then f u else u"
  have us: "us = map ?f (ex_units db)" and guard: "\<And>u. u \<in> set (ex_units db) \<Longrightarrow> eu_id u = i \<Longrightarrow>
      unit_guard passive runtime u (f u)"
    using run by (auto simp: update_unit_def update_rows_def list_all_iff split: if_splits)
  have causes: "(eu_status u = U_FAILED) = (eu_failure u \<noteq> None)" if "u \<in> set (ex_units db)" for u
    using ok that unfolding exec_ok_def causes_ok_def by blast
  have "exec_ok (db\<lparr> ex_units := map ?f (ex_units db), ex_effects := ex_effects db, ex_safety := ex_safety db \<rparr>)
    \<and> advances db (db\<lparr> ex_units := map ?f (ex_units db), ex_effects := ex_effects db, ex_safety := ex_safety db \<rparr>)"
  proof (rule exec_ok_map [OF ok])
    fix u assume u: "u \<in> set (ex_units db)"
    show "evolves u (?f u)"
      using guard [OF u] att [of u] by (auto simp: unit_guard_def intro!: evolves_edge)
    show "\<exists>c \<in> set (ex_claims db). cl_unit c = eu_id u \<and> cl_attempt c = eu_attempt u"
      if "is_active (eu_status (?f u))" "\<not> is_active (eu_status u)"
      using that act [OF u] ok by (auto split: if_splits)
    show "(eu_status (?f u) = U_FAILED) = (eu_failure (?f u) \<noteq> None)" if "\<not> is_terminal u"
      using that was [OF u] causes [OF u] by (auto simp: is_terminal_def)
    show "\<exists>d. eu_blocked_by (?f u) = Some d \<and> (eu_id u, d) \<in> depends (ex_edges db)
        \<and> dead (map ?f (ex_units db)) d" if "\<not> is_terminal u" "eu_status (?f u) = U_BLOCKED"
      using that was [OF u] by (auto simp: is_terminal_def split: if_splits)
  next
    fix e v assume "e \<in> set (ex_effects db)" "ef_state e = E_AUTHORIZED"
    with ok obtain w where w: "w \<in> set (ex_units db)" "eu_id w = ef_unit e" "eu_status w = U_RUNNING"
      unfolding exec_ok_def effects_ok_def by blast
    with was [OF w(1)] show "\<exists>u \<in> set (ex_units db). eu_id u = ef_unit e \<and> eu_status (?f u) = U_RUNNING"
      by (auto intro!: bexI [of _ w])
  qed
  then show "exec_ok (db\<lparr> ex_units := us \<rparr>) \<and> advances db (db\<lparr> ex_units := us \<rparr>)"
    unfolding us by simp
qed

definition passive_target :: "module_state \<Rightarrow> execution_unit_status" where
  "passive_target st = (if st = M_COMPLETE \<or> st = M_DEGRADED then U_COMPLETED else U_REFUSED)"

definition passive_reason :: "module_state \<Rightarrow> string" where
  "passive_reason st =
     (if passive_target st = U_COMPLETED then ''PASSIVE_COMPLETED_BY_ORCHESTRATOR''
      else ''PASSIVE_MODULE_'' @ module_text st)"

lemma complete_passiveE:
  assumes run: "fahes_complete_passive_unit now i key db = Inr (r, db')"
  obtains (replayed) u where "u \<in> set (ex_units db)" "eu_id u = i" "is_terminal u"
      "r = (eu_status u, True)" "db' = db"
  | (completed) u p s m st us where
      "u \<in> set (ex_units db)" "eu_id u = i" "eu_status u = U_PLANNED" "eu_class u \<in> {PASSIVE_HTTP, SOURCE_STATIC}"
      "find_plan db (eu_plan u) = Some p" "pl_scan p = Some s" "eu_domain u = Some m"
      "passive_scan_running now db p" "\<not> unmet_prerequisite db i"
      "module_result db s m = Some st" "module_terminal st"
      "update_unit (passive_target st = U_COMPLETED) False i (passive_row now (passive_target st) (passive_reason st))
         (ex_units db) = Inr us"
      "r = (passive_target st, False)" "db' = db\<lparr> ex_units := us \<rparr>"
proof -
  obtain u where u: "find_unit db i = Some u" "eu_key u = key"
    using run by (auto simp: fahes_complete_passive_unit_def split: option.splits if_splits)
  then have in_db: "u \<in> set (ex_units db)" "eu_id u = i" by (auto simp: find_unit_def dest: find_row_SomeD)
  show ?thesis
  proof (cases "is_terminal u")
    case True
    with run u show ?thesis by (intro replayed [OF in_db]) (simp_all add: fahes_complete_passive_unit_def)
  next
    case live: False
    obtain p where p: "find_plan db (eu_plan u) = Some p"
      using run u live by (auto simp: fahes_complete_passive_unit_def split: option.splits if_splits)
    obtain s where s: "pl_scan p = Some s"
      using run u live p by (auto simp: fahes_complete_passive_unit_def split: option.splits if_splits)
    obtain m where m: "eu_domain u = Some m"
      using run u live p s by (auto simp: fahes_complete_passive_unit_def split: option.splits if_splits)
    obtain st where st: "module_result db s m = Some st"
      using run u live p s m by (auto simp: fahes_complete_passive_unit_def split: option.splits if_splits)
    have guards: "eu_status u = U_PLANNED" "eu_class u \<in> {PASSIVE_HTTP, SOURCE_STATIC}"
      "passive_scan_running now db p" "\<not> unmet_prerequisite db i" "st \<noteq> M_PENDING" "st \<noteq> M_RUNNING"
      using run u live p s m st unfolding fahes_complete_passive_unit_def by (simp_all split: if_splits)
    have "(case update_unit (passive_target st = U_COMPLETED) False i
              (passive_row now (passive_target st) (passive_reason st)) (ex_units db) of
             Inl e \<Rightarrow> Inl e
           | Inr us \<Rightarrow> Inr ((passive_target st, False), db\<lparr> ex_units := us \<rparr>)) = Inr (r, db')"
      using run u live p s m st guards
      unfolding fahes_complete_passive_unit_def passive_target_def passive_reason_def Let_def
      by (cases "st = M_COMPLETE \<or> st = M_DEGRADED") (auto split: if_splits)
    then obtain us where "update_unit (passive_target st = U_COMPLETED) False i
        (passive_row now (passive_target st) (passive_reason st)) (ex_units db) = Inr us"
      "r = (passive_target st, False)" "db' = db\<lparr> ex_units := us \<rparr>"
      by (auto split: sum.splits)
    moreover have "module_terminal st" using guards(5,6) by (cases st) (simp_all add: module_terminal_def)
    ultimately show ?thesis
      using in_db p s m st guards by (intro completed) simp_all
  qed
qed

lemma complete_passive_keeps:
  assumes "fahes_complete_passive_unit now i key db = Inr (r, db')"
  shows "keeps db db'"
  using assms
proof (cases rule: complete_passiveE)
  case (completed u p s m st us)
  show ?thesis unfolding keeps_def
  proof
    assume ok: "exec_ok db"
    have only: "v = u" if "v \<in> set (ex_units db)" "eu_id v = i" for v
      using same_unit [OF ok that(1) completed(1)] that(2) completed(2) by simp
    have "keeps db (db\<lparr> ex_units := us \<rparr>)"
      by (rule update_keeps [OF completed(12)])
        (use completed(3) only in \<open>auto simp: passive_row_def passive_target_def is_active_def split: if_splits\<close>)
    with ok completed(14) show "exec_ok db' \<and> advances db db'" by (simp add: keeps_def)
  qed
qed simp

lemma casE:
  assumes run: "cas_host_transition sha now h attempt token e l db = (r, db')"
  obtains (lost) "r \<noteq> Cas_OK" "db' = db"
  | (ok) u us where "r = Cas_OK" "u \<in> set (ex_units db)" "eu_id u = ho_unit h" "eu_user u = ho_user h"
      "eu_status u = edge_from e" "eu_attempt u = attempt"
      "owns_claim db (ho_unit h) attempt (sha token) (ho_host h)"
      "if l then fahes_lock_live_lease (ho_unit h) (ex_safety db) else True"
      "update_unit False True (ho_unit h) (edge_row now e) (ex_units db) = Inr us" "db' = db\<lparr> ex_units := us \<rparr>"
proof (cases "r = Cas_OK")
  case True
  let ?hit = "\<lambda>u. eu_id u = ho_unit h \<and> eu_user u = ho_user h \<and> eu_status u = edge_from e \<and> eu_attempt u = attempt"
  have hit: "list_ex ?hit (ex_units db)" "owns_claim db (ho_unit h) attempt (sha token) (ho_host h)"
    using run True by (auto simp: cas_host_transition_def split: if_splits)
  obtain us where us: "update_unit False True (ho_unit h) (edge_row now e) (ex_units db) = Inr us"
    using run True hit by (cases "update_unit False True (ho_unit h) (edge_row now e) (ex_units db)")
      (simp_all add: cas_host_transition_def)
  from hit(1) obtain u where u: "u \<in> set (ex_units db)" "?hit u" unfolding list_ex_iff by blast
  have "if l then fahes_lock_live_lease (ho_unit h) (ex_safety db) else True" "db' = db\<lparr> ex_units := us \<rparr>"
    using run True hit us by (simp_all add: cas_host_transition_def split: if_splits)
  with True u hit(2) us show ?thesis by (intro ok) auto
next
  case False
  have "db' = db"
    using run False unfolding cas_host_transition_def by (simp split: if_splits sum.splits)
  with False show ?thesis by (rule lost)
qed

lemma cas_keeps:
  assumes "cas_host_transition sha now h attempt token e l db = (r, db')"
  shows "keeps db db'"
  using assms
proof (cases rule: casE)
  case (ok u us)
  show ?thesis unfolding keeps_def
  proof
    assume inv: "exec_ok db"
    have only: "v = u" if "v \<in> set (ex_units db)" "eu_id v = ho_unit h" for v
      using same_unit [OF inv that(1) ok(2)] that(2) ok(3) by simp
    have "keeps db (db\<lparr> ex_units := us \<rparr>)"
    proof (rule update_keeps [OF ok(9)])
      fix v assume v: "v \<in> set (ex_units db)" "eu_id v = ho_unit h"
      show "\<exists>c \<in> set (ex_claims db). cl_unit c = ho_unit h \<and> cl_attempt c = eu_attempt v"
        using ok(6,7) only [OF v] by (auto simp: owns_claim_def list_ex_iff)
      show "eu_status v \<noteq> U_RUNNING \<and> eu_status (edge_row now e v) \<notin> {U_FAILED, U_BLOCKED}
        \<and> eu_failure (edge_row now e v) = eu_failure v"
        using ok(5) only [OF v] by (cases e) (simp_all add: edge_row_def)
    qed (simp add: edge_row_def split: host_edge.split)
    with inv ok(10) show "exec_ok db' \<and> advances db db'" by (simp add: keeps_def)
  qed
qed simp

end
