(* ===== verification/Unit_Run.thy ===== *)
theory Unit_Run
  imports Unit_Steps
begin

text \<open>
  The transactions of the unit runtime as one command type, in any order and with any arguments, and
  the jobs they run under: a unit is dispatched only for a job, and a job is enqueued only for a unit
  whose prerequisites are completed.
\<close>

section \<open>The claim\<close>

lemma claimE:
  assumes run: "claim_unit_host now h hash margin db = Inr (r, db')"
  obtains (none) "\<nexists>a. r = Claimed a" "db' = db"
  | (claimed) u c p where "r = Claimed (eu_attempt u)" "lock_unit db (ho_unit h) (ho_user h) = Some u"
      "eu_status u = U_PLANNED" "find_plan db (eu_plan u) = Some p" "dp_state p = Resolved_Plan"
      "valid_hash hash" "ho_host h \<noteq> []"
      "classify_pre_run_cause now False margin u db = Inr c" "c \<noteq> C_Not_Started" "\<nexists>q. c = C_Scan q"
      "\<not> list_ex (\<lambda>c. cl_unit c = eu_id u \<and> cl_attempt c = eu_attempt u) (ex_claims db)"
      "db' = db\<lparr> ex_claims := ex_claims db @
          [\<lparr> cl_unit = eu_id u, cl_attempt = eu_attempt u, cl_plan = eu_plan u, cl_user = eu_user u,
             cl_host = ho_host h, cl_hash = hash \<rparr>] \<rparr>"
proof (cases "\<exists>a. r = Claimed a")
  case True
  then obtain a where r: "r = Claimed a" ..
  have id: "valid_hash hash" "ho_host h \<noteq> []"
    using run r by (auto simp: claim_unit_host_def split: if_splits)
  obtain u where u: "lock_unit db (ho_unit h) (ho_user h) = Some u" "eu_status u = U_PLANNED"
    using run r id by (auto simp: claim_unit_host_def split: option.splits if_splits)
  obtain p where p: "find_plan db (eu_plan u) = Some p" "dp_state p = Resolved_Plan"
    using run r id u by (auto simp: claim_unit_host_def split: option.splits if_splits)
  obtain c where c: "classify_pre_run_cause now False margin u db = Inr c"
    using run r id u p by (auto simp: claim_unit_host_def split: sum.splits)
  have ok: "c \<noteq> C_Not_Started" "\<nexists>q. c = C_Scan q" "insert_claim u (ho_host h) hash db = (r, db')"
    using run r id u p c by (cases c; auto simp: claim_unit_host_def)+
  show ?thesis
    using claimed [of u p c] ok r id u p c by (auto simp: insert_claim_def split: if_splits)
next
  case False
  have "db' = db"
    using run False unfolding claim_unit_host_def insert_claim_def
    by (auto split: if_splits option.splits sum.splits pre_run_cause.splits)
  with False show ?thesis by (rule none)
qed

lemma lock_unitD:
  "lock_unit db i usr = Some u \<Longrightarrow> u \<in> set (ex_units db) \<and> eu_id u = i \<and> eu_user u = usr"
  by (auto simp: lock_unit_def find_Some_iff)

lemma claim_keeps:
  assumes "claim_unit_host now h hash margin db = Inr (r, db')" and met: "\<not> unmet_prerequisite db (ho_unit h)"
  shows "keeps db db'"
  using assms(1)
proof (cases rule: claimE)
  case (claimed u c p)
  have "claims_ok db'" if "claims_ok db"
    using that claimed(11) met lock_unitD [OF claimed(2)]
    by (auto simp: claims_ok_def claimed(12) list_ex_iff unmet_prerequisite_def)
  moreover have "active_ok db'" if "active_ok db"
    using that by (auto simp: active_ok_def claimed(12))
  ultimately show ?thesis
    by (auto simp: keeps_def exec_ok_def effects_ok_def causes_ok_def advances_def claimed(12))
qed simp

section \<open>Effects and progress\<close>

lemma authorizeE:
  assumes run: "authorize_effect sha now h attempt token k l db = Inr (r, db')"
  obtains (refused) "\<nexists>b. r = Effect_Authorized b" "db' = db"
  | (granted) u b where "r = Effect_Authorized b" "lock_unit db (ho_unit h) (ho_user h) = Some u"
      "eu_status u = U_RUNNING" "eu_attempt u = attempt"
      "owns_claim db (ho_unit h) attempt (sha token) (ho_host h)"
      "classify_pre_run_cause now True 60000 u db = Inr C_None"
      "if l then fahes_lock_live_lease (ho_unit h) (ex_safety db) else True"
      "insert_effect u attempt k db = (b, db')"
proof (cases "\<exists>b. r = Effect_Authorized b")
  case True
  then obtain b where r: "r = Effect_Authorized b" ..
  have id: "ek_kind k \<noteq> []" "\<not> ek_ordinal k < 0"
    using run r by (auto simp: authorize_effect_def split: if_splits)
  obtain u where u: "lock_unit db (ho_unit h) (ho_user h) = Some u"
    using run r id by (auto simp: authorize_effect_def split: option.splits)
  have guards: "eu_status u = U_RUNNING" "eu_attempt u = attempt"
      "owns_claim db (eu_id u) attempt (sha token) (ho_host h)"
    using run r id u by (auto simp: authorize_effect_def split: if_splits)
  have none: "classify_pre_run_cause now True 60000 u db = Inr C_None"
    using run r id u guards by (auto simp: authorize_effect_def split: sum.splits if_splits)
  have "if l then fahes_lock_live_lease (ho_unit h) (ex_safety db) else True" "insert_effect u attempt k db = (b, db')"
    using run r id u guards none lock_unitD [OF u]
    by (auto simp: authorize_effect_def split: if_splits prod.splits)
  with r u guards none lock_unitD [OF u] show ?thesis by (intro granted) simp_all
next
  case False
  have "db' = db"
    using run False unfolding authorize_effect_def
    by (auto split: if_splits option.splits sum.splits prod.splits)
  with False show ?thesis by (rule refused)
qed

lemma exec_ok_effects:
  assumes ok: "exec_ok db" and eff: "\<And>e. e \<in> set es \<Longrightarrow> ef_state e = E_AUTHORIZED \<Longrightarrow>
        \<exists>u \<in> set (ex_units db). eu_id u = ef_unit e \<and> eu_status u = U_RUNNING"
  shows "exec_ok (db\<lparr> ex_effects := es \<rparr>) \<and> advances db (db\<lparr> ex_effects := es \<rparr>)"
  using ok eff
  by (auto simp: exec_ok_def claims_ok_def active_ok_def effects_ok_def causes_ok_def advances_def
      unmet_prerequisite_def)

lemma authorize_keeps:
  assumes "authorize_effect sha now h attempt token k l db = Inr (r, db')"
  shows "keeps db db'"
  using assms
proof (cases rule: authorizeE)
  case (granted u b)
  show ?thesis unfolding keeps_def
  proof
    assume ok: "exec_ok db"
    then have old: "\<exists>u \<in> set (ex_units db). eu_id u = ef_unit e \<and> eu_status u = U_RUNNING"
      if "e \<in> set (ex_effects db)" "ef_state e = E_AUTHORIZED" for e
      using that unfolding exec_ok_def effects_ok_def by blast
    show "exec_ok db' \<and> advances db db'"
    proof (cases "db' = db")
      case False
      then have "db' = db\<lparr> ex_effects := ex_effects db @
          [\<lparr> ef_unit = eu_id u, ef_attempt = attempt, ef_kind = ek_kind k, ef_ordinal = ek_ordinal k,
             ef_user = eu_user u, ef_state = E_AUTHORIZED, ef_confirmed = None \<rparr>] \<rparr>"
        using granted(8) by (auto simp: insert_effect_def split: if_splits)
      moreover have "u \<in> set (ex_units db)" using lock_unitD [OF granted(2)] by simp
      ultimately show ?thesis
        using exec_ok_effects [OF ok, of "ex_effects db @ _"] old granted(3) by force
    qed (use ok in simp)
  qed
qed simp

lemma confirm_keeps: "keeps db (snd (confirm_effect now i attempt k db))"
  unfolding keeps_def
proof
  assume ok: "exec_ok db"
  let ?es = "ex_effects (snd (confirm_effect now i attempt k db))"
  have old: "e \<in> set (ex_effects db)" if "e \<in> set ?es" "ef_state e = E_AUTHORIZED" for e
    using that by (auto simp: confirm_effect_def Let_def split: if_splits)
  have "effects_ok db" using ok by (simp add: exec_ok_def)
  then have "exec_ok (db\<lparr> ex_effects := ?es \<rparr>) \<and> advances db (db\<lparr> ex_effects := ?es \<rparr>)"
    using old exec_ok_effects [OF ok, of ?es] unfolding effects_ok_def by blast
  then show "exec_ok (snd (confirm_effect now i attempt k db))
      \<and> advances db (snd (confirm_effect now i attempt k db))"
    by (simp add: confirm_effect_def Let_def)
qed

lemma snapshot_keeps:
  assumes "snapshot_progress trim redact bytes now i t boundary interval db = Some (r, db')"
  shows "keeps db db'"
proof (cases "db' = db")
  case False
  then obtain hit wr where db': "db' = db\<lparr> ex_units := map (\<lambda>u. if hit u then wr u else u) (ex_units db) \<rparr>"
    and hit: "\<And>u. hit u \<Longrightarrow> is_active (eu_status u)"
    and wr: "\<And>u. same_frozen u (wr u) \<and> eu_status (wr u) = eu_status u
        \<and> eu_attempt (wr u) = eu_attempt u \<and> eu_failure (wr u) = eu_failure u
        \<and> eu_blocked_by (wr u) = eu_blocked_by u"
    using assms unfolding snapshot_progress_def Let_def
    by (force simp: same_frozen_def split: option.splits if_splits)
  show ?thesis unfolding keeps_def
  proof
    assume ok: "exec_ok db"
    let ?f = "\<lambda>u. if hit u then wr u else u"
    have "exec_ok (db\<lparr> ex_units := map ?f (ex_units db), ex_effects := ex_effects db, ex_safety := ex_safety db \<rparr>)
      \<and> advances db (db\<lparr> ex_units := map ?f (ex_units db), ex_effects := ex_effects db, ex_safety := ex_safety db \<rparr>)"
    proof (rule exec_ok_map [OF ok])
      fix u assume u: "u \<in> set (ex_units db)"
      have live: "\<not> is_terminal u" if "hit u" using hit [OF that] not_terminal_iff by blast
      then show "evolves u (?f u)" using wr [of u] by (auto intro!: evolves_edge)
      show "\<exists>c \<in> set (ex_claims db). cl_unit c = eu_id u \<and> cl_attempt c = eu_attempt u"
        if "is_active (eu_status (?f u))" "\<not> is_active (eu_status u)" using that wr [of u] by (auto split: if_splits)
      show "(eu_status (?f u) = U_FAILED) = (eu_failure (?f u) \<noteq> None)"
        using ok u wr [of u] unfolding exec_ok_def causes_ok_def by auto
      show "\<exists>d. eu_blocked_by (?f u) = Some d \<and> (eu_id u, d) \<in> depends (ex_edges db)
          \<and> dead (map ?f (ex_units db)) d" if "\<not> is_terminal u" "eu_status (?f u) = U_BLOCKED"
        using that wr [of u] by (auto simp: is_terminal_def split: if_splits)
    next
      fix e v assume "e \<in> set (ex_effects db)" "ef_state e = E_AUTHORIZED"
      with ok obtain w where w: "w \<in> set (ex_units db)" "eu_id w = ef_unit e" "eu_status w = U_RUNNING"
        unfolding exec_ok_def effects_ok_def by blast
      then show "\<exists>u \<in> set (ex_units db). eu_id u = ef_unit e \<and> eu_status (?f u) = U_RUNNING"
        using wr [of w] by (auto intro!: bexI [of _ w])
    qed
    then show "exec_ok db' \<and> advances db db'" unfolding db' by simp
  qed
qed simp

end
