(* ===== verification/Unit_System.thy ===== *)
theory Unit_System
  imports Unit_Run
begin

text \<open>
  The unit runtime as a system: any sequence of its transactions, with any arguments and clocks,
  between which other services change the safety tables, the scans and the module results at will.
\<close>

section \<open>Systems of commands\<close>

text \<open>A system whose commands each keep an invariant and only ever extend the state keeps both over
  any sequence of commands.\<close>

locale command_system =
  fixes inv :: "'s \<Rightarrow> bool"
    and extends :: "'s \<Rightarrow> 's \<Rightarrow> bool"
    and step :: "'c \<Rightarrow> 's \<Rightarrow> 's"
  assumes step_keeps: "inv s \<Longrightarrow> inv (step c s) \<and> extends s (step c s)"
    and extends_refl: "extends s s"
    and extends_trans: "extends a b \<Longrightarrow> extends b c' \<Longrightarrow> extends a c'"
begin

lemma run_keeps: "inv s \<Longrightarrow> inv (fold step cs s) \<and> extends s (fold step cs s)"
proof (induction cs arbitrary: s)
  case (Cons c cs)
  from step_keeps [OF Cons.prems, of c] Cons.IH [of "step c s"] show ?case
    using extends_trans by auto
qed (simp add: extends_refl)

end

section \<open>The transactions\<close>

record text_env =
  te_sha :: "string \<Rightarrow> string"
  te_trim :: "string \<Rightarrow> string"
  te_redact :: "string \<Rightarrow> string"
  te_bytes :: "normal_progress \<Rightarrow> nat"

datatype exec_tx =
    Tx_Enqueue string
  | Tx_Claim host_identity string millis
  | Tx_Edge host_identity int string host_edge bool
  | Tx_Effect host_identity int string effect_key bool
  | Tx_Confirm string int effect_key
  | Tx_Progress string progress_tick bool millis
  | Tx_Finalize string string final_kind "failure_class option" "string option" "progress_snapshot option"
  | Tx_Passive string string
  | Tx_Outside safety_db "exec_scan list" "module_row list"

text \<open>A transaction that throws rolls back.\<close>

definition committed :: "exec_db \<Rightarrow> 'e + 'a \<times> exec_db \<Rightarrow> exec_db" where
  "committed db r = (case r of Inl _ \<Rightarrow> db | Inr (_, db') \<Rightarrow> db')"

text \<open>The state is the tables and the units that have a job.  A host claims a unit only for a job.\<close>

fun exec_do :: "text_env \<Rightarrow> millis \<Rightarrow> exec_tx \<Rightarrow> exec_db \<times> string list \<Rightarrow> exec_db \<times> string list" where
  "exec_do t now (Tx_Enqueue p) (db, jobs) = (db, jobs @ enqueue_eligible_units db p)"
| "exec_do t now (Tx_Claim h hash margin) (db, jobs) =
     (if ho_unit h \<in> set jobs then committed db (claim_unit_host now h hash margin db) else db, jobs)"
| "exec_do t now (Tx_Edge h attempt token e l) (db, jobs) =
     (snd (cas_host_transition (te_sha t) now h attempt token e l db), jobs)"
| "exec_do t now (Tx_Effect h attempt token k l) (db, jobs) =
     (committed db (authorize_effect (te_sha t) now h attempt token k l db), jobs)"
| "exec_do t now (Tx_Confirm i attempt k) (db, jobs) = (snd (confirm_effect now i attempt k db), jobs)"
| "exec_do t now (Tx_Progress i p boundary interval) (db, jobs) =
     (case snapshot_progress (te_trim t) (te_redact t) (te_bytes t) now i p boundary interval db of
        None \<Rightarrow> db | Some (_, db') \<Rightarrow> db', jobs)"
| "exec_do t now (Tx_Finalize i key k fc reason progress) (db, jobs) =
     (committed db (fahes_finalize_unit now i key k fc reason progress db), jobs)"
| "exec_do t now (Tx_Passive i key) (db, jobs) =
     (committed db (fahes_complete_passive_unit now i key db), jobs)"
| "exec_do t now (Tx_Outside safe scans mods) (db, jobs) =
     (db\<lparr> ex_safety := safe, ex_scans := scans, ex_modules := mods \<rparr>, jobs)"

definition exec_run ::
    "text_env \<Rightarrow> (millis \<times> exec_tx) list \<Rightarrow> exec_db \<times> string list \<Rightarrow> exec_db \<times> string list" where
  "exec_run t txs st = fold (\<lambda>(now, c). exec_do t now c) txs st"

definition exec_inv :: "exec_db \<times> string list \<Rightarrow> bool" where
  "exec_inv st = (exec_ok (fst st) \<and> (\<forall>j \<in> set (snd st). \<not> unmet_prerequisite (fst st) j))"

lemma exec_run_simps [simp]:
  "exec_run t [] st = st"
  "exec_run t ((now, c) # txs) st = exec_run t txs (exec_do t now c st)"
  by (simp_all add: exec_run_def)

section \<open>The invariant of the system\<close>

lemma keeps_committed:
  "(\<And>r db'. res = Inr (r, db') \<Longrightarrow> keeps db db') \<Longrightarrow> keeps db (committed db res)"
  by (auto simp: committed_def split: sum.split)

lemma exec_do_keeps:
  assumes "\<forall>j \<in> set (snd st). \<not> unmet_prerequisite (fst st) j"
  shows "keeps (fst st) (fst (exec_do t now c st))"
proof (cases st)
  case (Pair db jobs)
  show ?thesis unfolding Pair
  proof (cases c)
    case (Tx_Claim h hash margin)
    then show "keeps (fst (db, jobs)) (fst (exec_do t now c (db, jobs)))"
      using assms Pair by (auto intro!: keeps_committed claim_keeps)
  next
    case (Tx_Edge h attempt token e l)
    then show "keeps (fst (db, jobs)) (fst (exec_do t now c (db, jobs)))"
      using cas_keeps [of _ now h attempt token e l db, OF prod.collapse [symmetric]] by simp
  next
    case (Tx_Progress i p boundary interval)
    then show "keeps (fst (db, jobs)) (fst (exec_do t now c (db, jobs)))"
      by (auto split: option.split dest: snapshot_keeps)
  next
    case (Tx_Outside safe scans mods)
    then show "keeps (fst (db, jobs)) (fst (exec_do t now c (db, jobs)))"
      by (simp add: keeps_def advances_def)
  qed (auto intro!: keeps_committed confirm_keeps
        dest: authorize_keeps finalize_keeps complete_passive_keeps)
qed

lemma exec_do_jobs:
  "\<forall>j \<in> set (snd (exec_do t now c (db, jobs))). j \<in> set jobs \<or> \<not> unmet_prerequisite db j"
  by (cases c) (auto simp: enqueue_eligible_units_def)

lemma enqueue_db: "fst (exec_do t now (Tx_Enqueue p) (db, jobs)) = db"
  by simp

lemma exec_do_inv:
  assumes inv: "exec_inv st"
  shows "exec_inv (exec_do t now c st) \<and> advances (fst st) (fst (exec_do t now c st))"
proof -
  have adv: "exec_ok (fst (exec_do t now c st))" "advances (fst st) (fst (exec_do t now c st))"
    using keepsD [OF exec_do_keeps, of st t now c] inv by (simp_all add: exec_inv_def)
  have "\<not> unmet_prerequisite (fst (exec_do t now c st)) j" if "j \<in> set (snd (exec_do t now c st))" for j
    using that exec_do_jobs [of t now c "fst st" "snd st"] inv unmet_antimono [OF adv(2)]
    by (auto simp: exec_inv_def)
  with adv show ?thesis by (simp add: exec_inv_def)
qed

interpretation runtime: command_system exec_inv "\<lambda>a b. advances (fst a) (fst b)" "\<lambda>(now, c). exec_do t now c"
  for t
  by unfold_locales (use exec_do_inv advances_trans in auto)

lemmas exec_run_inv = runtime.run_keeps [folded exec_run_def]

text \<open>A freshly resolved plan.\<close>

definition exec_fresh :: "exec_db \<Rightarrow> bool" where
  "exec_fresh db =
     (distinct (map eu_id (ex_units db))
      \<and> list_all (\<lambda>u. eu_status u = U_PLANNED \<and> eu_failure u = None) (ex_units db)
      \<and> ex_claims db = [] \<and> ex_effects db = [])"

lemma fresh_inv: "exec_fresh db \<Longrightarrow> exec_inv (db, [])"
  by (auto simp: exec_inv_def exec_fresh_def exec_ok_def claims_ok_def active_ok_def effects_ok_def
      causes_ok_def list_all_iff is_active_def)

section \<open>Effects are recorded once\<close>

definition effect_keys :: "exec_db \<Rightarrow> (string \<times> int \<times> string \<times> int) list" where
  "effect_keys db = map (\<lambda>e. (ef_unit e, ef_attempt e, ef_kind e, ef_ordinal e)) (ex_effects db)"

lemma insert_effect_keys:
  assumes "insert_effect u attempt k db = (b, db')"
  shows "b = ((eu_id u, attempt, ek_kind k, ek_ordinal k) \<in> set (effect_keys db))"
    "effect_keys db' = effect_keys db @ (if b then [] else [(eu_id u, attempt, ek_kind k, ek_ordinal k)])"
    "db' = db\<lparr> ex_effects := ex_effects db' \<rparr>"
proof -
  have mem: "list_ex (same_effect (eu_id u) attempt k) (ex_effects db)
      = ((eu_id u, attempt, ek_kind k, ek_ordinal k) \<in> set (effect_keys db))"
    unfolding effect_keys_def list_ex_iff same_effect_def set_map image_iff
    by (intro bex_cong) auto
  show "b = ((eu_id u, attempt, ek_kind k, ek_ordinal k) \<in> set (effect_keys db))"
    using assms mem by (auto simp: insert_effect_def split: if_splits)
  show "effect_keys db' = effect_keys db @ (if b then [] else [(eu_id u, attempt, ek_kind k, ek_ordinal k)])"
    "db' = db\<lparr> ex_effects := ex_effects db' \<rparr>"
    using assms by (auto simp: insert_effect_def effect_keys_def split: if_splits)
qed

lemma authorize_effect_keys:
  assumes "authorize_effect sha now h attempt token k l db = Inr (r, db')"
  shows "prefix (effect_keys db) (effect_keys db')"
    "distinct (effect_keys db) \<Longrightarrow> distinct (effect_keys db')"
    "r = Effect_Authorized b \<Longrightarrow> (ho_unit h, attempt, ek_kind k, ek_ordinal k) \<in> set (effect_keys db')
      \<and> b = ((ho_unit h, attempt, ek_kind k, ek_ordinal k) \<in> set (effect_keys db))"
proof -
  have keys: "db' = db \<and> (\<nexists>b. r = Effect_Authorized b) \<or> (\<exists>b. r = Effect_Authorized b
      \<and> b = ((ho_unit h, attempt, ek_kind k, ek_ordinal k) \<in> set (effect_keys db))
      \<and> effect_keys db' = effect_keys db @ (if b then [] else [(ho_unit h, attempt, ek_kind k, ek_ordinal k)]))"
    using assms
  proof (cases rule: authorizeE)
    case (granted u b)
    from insert_effect_keys(1,2) [OF granted(8)] lock_unitD [OF granted(2)] granted(1) show ?thesis by simp
  qed simp
  then show "prefix (effect_keys db) (effect_keys db')" by auto
  from keys show "distinct (effect_keys db) \<Longrightarrow> distinct (effect_keys db')" by auto
  from keys show "r = Effect_Authorized b \<Longrightarrow> (ho_unit h, attempt, ek_kind k, ek_ordinal k) \<in> set (effect_keys db')
      \<and> b = ((ho_unit h, attempt, ek_kind k, ek_ordinal k) \<in> set (effect_keys db))" by auto
qed

lemma finalize_effect_keys:
  "fahes_finalize_unit now i key k fc reason progress db = Inr (r, db') \<Longrightarrow> effect_keys db' = effect_keys db"
  by (auto simp: fahes_finalize_unit_def effect_keys_def abandon_effects_def
      split: if_splits option.splits sum.splits prod.splits)

lemma exec_do_effect_keys:
  "prefix (effect_keys db) (effect_keys (fst (exec_do t now c (db, jobs))))
    \<and> (distinct (effect_keys db) \<longrightarrow> distinct (effect_keys (fst (exec_do t now c (db, jobs)))))"
proof (cases c)
    case (Tx_Claim h hash margin)
    have "effect_keys db' = effect_keys db" if "claim_unit_host now h hash margin db = Inr (r, db')" for r db'
      using that by (cases rule: claimE) (simp_all add: effect_keys_def)
    then show ?thesis unfolding Tx_Claim by (auto simp: committed_def split: sum.split)
  next
    case (Tx_Edge h attempt token e l)
    have "effect_keys db' = effect_keys db"
      if "cas_host_transition (te_sha t) now h attempt token e l db = (r, db')" for r db'
      using that by (cases rule: casE) (simp_all add: effect_keys_def)
    then have "effect_keys (snd (cas_host_transition (te_sha t) now h attempt token e l db)) = effect_keys db"
      by (metis prod.collapse)
    then show ?thesis unfolding Tx_Edge by simp
  next
    case (Tx_Effect h attempt token k l)
    then show ?thesis 
      by (auto simp: committed_def dest: authorize_effect_keys split: sum.split)
  next
    case (Tx_Confirm i attempt k)
    have "effect_keys (snd (confirm_effect now i attempt k db)) = effect_keys db"
      by (simp add: confirm_effect_def Let_def effect_keys_def)
    then show ?thesis unfolding Tx_Confirm by simp
  next
    case (Tx_Progress i p boundary interval)
    have "effect_keys db' = effect_keys db"
      if "snapshot_progress (te_trim t) (te_redact t) (te_bytes t) now i p boundary interval db = Some (r, db')"
      for r db' using that by (auto simp: snapshot_progress_def Let_def effect_keys_def split: option.splits if_splits)
    then show ?thesis unfolding Tx_Progress by (auto split: option.split)
  next
    case (Tx_Finalize i key k fc reason progress)
    then show ?thesis 
      by (auto simp: committed_def dest!: finalize_effect_keys split: sum.split)
  next
    case (Tx_Passive i key)
    have "effect_keys db' = effect_keys db" if "fahes_complete_passive_unit now i key db = Inr (r, db')" for r db'
      using that by (cases rule: complete_passiveE) (simp_all add: effect_keys_def)
    then show ?thesis unfolding Tx_Passive by (auto simp: committed_def split: sum.split)
  qed (simp_all add: effect_keys_def)

interpretation effects: command_system "\<lambda>st. distinct (effect_keys (fst st))"
    "\<lambda>a b. prefix (effect_keys (fst a)) (effect_keys (fst b))" "\<lambda>(now, c). exec_do t now c" for t
proof
  show "distinct (effect_keys (fst ((\<lambda>(now, c). exec_do t now c) x s)))
      \<and> prefix (effect_keys (fst s)) (effect_keys (fst ((\<lambda>(now, c). exec_do t now c) x s)))"
    if "distinct (effect_keys (fst s))" for x s
    using that exec_do_effect_keys [of "fst s" t "fst x" "snd x" "snd s"] by (simp add: case_prod_beta)
qed (auto intro: prefix_order.trans)

lemmas exec_run_effect_keys = effects.run_keeps [folded exec_run_def]

end
