(* ===== verification/Unit_Expire.thy ===== *)
theory Unit_Expire
  imports Unit_System
begin

text \<open>
  The expiry of a plan: it is total on a valid graph, it finalizes every unit once the deadline and
  the termination margin have passed, and it leaves a live plan alone.
\<close>

lemma settle_safety_some: "i \<noteq> [] \<Longrightarrow> \<exists>safe. settle_safety now i db = Some safe"
  by (cases "release_grants now i (slot_grants (\<lambda>l. ls_execution l = i) db) db";
      cases "find_stop (snd (release_grants now i (slot_grants (\<lambda>l. ls_execution l = i) db) db)) SC_EXECUTION i")
    (simp_all add: settle_safety_def f07_release_leases_by_execution_def f07_ack_stop_by_authority_def
      f07_ack_stop_def)

section \<open>One unit\<close>

text \<open>Another service ending a scan or a plan is outside: the expiry only moves units.\<close>

lemma finalize_frame:
  "fahes_finalize_unit now i key k fc reason progress db = Inr (r, db') \<Longrightarrow>
     ex_plans db' = ex_plans db \<and> ex_scans db' = ex_scans db \<and> ex_edges db' = ex_edges db"
  by (auto simp: fahes_finalize_unit_def split: if_splits option.splits sum.splits prod.splits)

lemma expiry_outcome_kind:
  assumes "expiry_outcome opts now deadline scan stop reason u db = Inr (Some out)"
  shows "outcome_class out \<noteq> Some F_DETERMINISTIC_FINDING"
    "(outcome_kind out = Fin_Failed) = (outcome_class out \<noteq> None)"
    "outcome_kind out \<noteq> Fin_Completed"
    "outcome_kind out = Fin_Refused \<longleftrightarrow> is_pre_running (eu_status u)"
proof -
  show "(outcome_kind out = Fin_Failed) = (outcome_class out \<noteq> None)" by (cases out) simp_all
  show "outcome_class out \<noteq> Some F_DETERMINISTIC_FINDING" "outcome_kind out \<noteq> Fin_Completed"
    "outcome_kind out = Fin_Refused \<longleftrightarrow> is_pre_running (eu_status u)"
    using assms
    by (auto simp: expiry_outcome_def Let_def killed_outcome_def
        split: if_splits confirmation.splits option.splits stop_reason.splits)
qed

text \<open>After the margin nothing stays pending.\<close>

lemma expiry_outcome_late:
  assumes "0 \<le> eo_margin opts u" and "d + eo_margin opts u \<le> now"
  shows "\<exists>out. expiry_outcome opts now (Some d) scan stop reason u db = Inr (Some out)"
  using assms by (auto simp: expiry_outcome_def Let_def split: confirmation.split)

lemma finalize_outcome:
  assumes ok: "exec_ok db" and cur: "find_unit db i = Some cur" "\<not> is_terminal cur" and i: "i \<noteq> []"
    and key: "eu_key cur = key" and allowed: "final_allowed k cur"
    and cls: "(k = Fin_Failed) = (fc \<noteq> None)" "fc \<noteq> Some F_DETERMINISTIC_FINDING"
  obtains r db' where "fahes_finalize_unit now i key k fc reason progress db = Inr (r, db')" "exec_ok db'"
    "advances db db'" "\<not> fr_replayed r" "fr_status r = final_status k"
    "\<exists>v. find_unit db' i = Some v \<and> eu_status v = final_status k"
proof -
  have u: "cur \<in> set (ex_units db)" "eu_id cur = i" using cur by (auto simp: find_unit_def dest: find_row_SomeD)
  obtain safe where safe: "settle_safety now i (ex_safety db) = Some safe" using settle_safety_some [OF i] by blast
  obtain blocked by' where run: "fahes_finalize_unit now i key k fc reason progress db =
       Inr (\<lparr> fr_status = final_status k, fr_replayed = False, fr_matches = True, fr_blocked = blocked \<rparr>,
            db\<lparr> ex_units := map (finalized now i k fc reason progress by' (set blocked)) (ex_units db),
                ex_effects := abandon_effects i (ex_effects db), ex_safety := safe \<rparr>)"
    by (rule finalize_applies [OF ok u key cur(2) allowed cls safe]) (rule that)
  let ?f = "finalized now i k fc reason progress by' (set blocked)"
  let ?r = "\<lparr> fr_status = final_status k, fr_replayed = False, fr_matches = True, fr_blocked = blocked \<rparr>"
  let ?db = "db\<lparr> ex_units := map ?f (ex_units db), ex_effects := abandon_effects i (ex_effects db),
                ex_safety := safe \<rparr>"
  have ids: "eu_id (?f v) = eu_id v" for v by (simp add: finalized_def)
  have "find_row eu_id i (map ?f us) = map_option ?f (find_row eu_id i us)" for us
    by (induction us) (simp_all add: find_row_def ids)
  with cur(1) have "find_row eu_id i (map ?f (ex_units db)) = Some (?f cur)" by (simp add: find_unit_def)
  moreover have "eu_status (?f cur) = final_status k" using u(2) by (simp add: finalized_def)
  ultimately have row: "\<exists>v. find_row eu_id i (map ?f (ex_units db)) = Some v \<and> eu_status v = final_status k"
    by blast
  show ?thesis
  proof (rule that)
    show "fahes_finalize_unit now i key k fc reason progress db = Inr (?r, ?db)" by (rule run)
    show "exec_ok ?db" "advances db ?db" using keepsD [OF finalize_keeps [OF run] ok] by - assumption+
    show "\<not> fr_replayed ?r" "fr_status ?r = final_status k" by simp_all
    show "\<exists>v. find_unit ?db i = Some v \<and> eu_status v = final_status k" using row by (simp add: find_unit_def)
  qed
qed

lemma expire_unit_late:
  fixes opts :: expire_options
  assumes ok: "exec_ok db" and cur: "find_unit db (eu_id seen) = Some cur" and i: "eu_id seen \<noteq> []"
    and deadline: "plan_deadline_at db (Some plan) (eo_legacy opts) = Inr (Some d)"
    and late: "\<And>u. 0 \<le> eo_margin opts u \<and> d + eo_margin opts u \<le> now"
  obtains s' db' where "expire_unit opts now now2 (\<lambda>db. db) plan seen s db = Inr (s', db')" "exec_ok db'"
    "advances db db'" "ex_scans db' = ex_scans db" "es_pending s' = es_pending s" "es_untouched s' = es_untouched s"
    "\<exists>v. find_unit db' (eu_id seen) = Some v \<and> is_terminal v"
proof (cases "is_terminal cur")
  case True
  with cur ok show ?thesis by (intro that [of s db]) (simp_all add: expire_unit_def)
next
  case live: False
  let ?u = "seen\<lparr> eu_status := eu_status cur, eu_attempt := eu_attempt cur \<rparr>"
  let ?state = "map_option xs_state (scan_of_plan db (Some plan))"
  let ?stop = "stop_pending (ex_safety db) (unit_identity db ?u)"
  let ?reason = "find_pending_stop_reason db ?u"
  obtain out where out: "expiry_outcome opts now (Some d) ?state ?stop ?reason ?u db = Inr (Some out)"
    using expiry_outcome_late late by blast
  note kind = expiry_outcome_kind [OF out]
  have passed: "d \<le> now" using late [of ?u] by linarith
  have allowed: "final_allowed (outcome_kind out) cur"
    using kind(3,4) live not_terminal_iff [of cur]
    by (cases "outcome_kind out") (auto simp: final_allowed_def is_pre_running_def is_active_def)
  obtain r db' where fin: "fahes_finalize_unit now2 (eu_id seen) (eu_key cur) (outcome_kind out)
        (outcome_class out) (map_option (take max_reason) (outcome_reason out)) None db = Inr (r, db')"
    and res: "exec_ok db'" "advances db db'" "\<not> fr_replayed r"
      "\<exists>v. find_unit db' (eu_id seen) = Some v \<and> eu_status v = final_status (outcome_kind out)"
    using finalize_outcome [OF ok cur live i refl allowed kind(2,1)] by metis
  let ?s = "s\<lparr> es_finalized := es_finalized s @ eu_id seen # fr_blocked r \<rparr>"
  have "expire_unit opts now now2 (\<lambda>db. db) plan seen s db = Inr (?s, db')"
    using cur live deadline passed out fin res(3)
    by (simp add: expire_unit_def Let_def finalize_execution_unit_def)
  moreover have "\<exists>v. find_unit db' (eu_id seen) = Some v \<and> is_terminal v"
    using res(4) by (cases "outcome_kind out") (auto simp: is_terminal_def)
  ultimately show ?thesis using res finalize_frame [OF fin] by (intro that [of ?s db']) simp_all
qed

section \<open>The plan\<close>

lemma deadline_frame:
  "ex_scans db' = ex_scans db \<Longrightarrow> plan_deadline_at db' p l = plan_deadline_at db p l"
  by (simp add: plan_deadline_at_def scan_of_plan_def find_scan_def split: option.split)

lemma advances_unit:
  assumes "advances db db'" and "find_unit db i = Some u"
  shows "\<exists>v. find_unit db' i = Some v \<and> evolves u v"
proof -
  have "\<exists>v. find_row eu_id i vs = Some v \<and> evolves u v"
    if "list_all2 evolves us vs" "find_row eu_id i us = Some u" for us vs
    using that by (induction rule: list_all2_induct)
      (auto simp: find_row_def evolves_def same_frozen_def split: if_splits)
  from this [of "ex_units db" "ex_units db'"] assms show ?thesis by (simp add: advances_def find_unit_def)
qed

lemma evolves_terminal: "evolves u v \<Longrightarrow> is_terminal u \<Longrightarrow> is_terminal v"
  by (auto simp: evolves_def)

lemma expire_loop_late:
  fixes opts :: expire_options
  assumes "exec_ok db" and "\<And>i. i \<in> set ids \<Longrightarrow> \<exists>seen cur. by_id i = Some seen \<and> eu_id seen = i \<and> i \<noteq> []
        \<and> find_unit db i = Some cur"
    and "plan_deadline_at db (Some plan) (eo_legacy opts) = Inr (Some d)"
    and still: "\<And>k. re_env x k = (\<lambda>db. db)"
    and late: "\<And>k u. 0 \<le> eo_margin opts u \<and> d + eo_margin opts u \<le> re_clock x k"
  shows "\<exists>s' db'. expire_loop opts x k plan by_id s ids db = Inr (s', db') \<and> exec_ok db' \<and> advances db db'
    \<and> es_pending s' = es_pending s \<and> es_untouched s' = es_untouched s
    \<and> (\<forall>i \<in> set ids. \<exists>v. find_unit db' i = Some v \<and> is_terminal v)"
  using assms(1-3)
proof (induction ids arbitrary: db k s)
  case (Cons i ids)
  obtain seen cur where i: "by_id i = Some seen" "eu_id seen = i" "i \<noteq> []" "find_unit db i = Some cur"
    using Cons.prems(2) [of i] by auto
  obtain s1 db1 where one: "expire_unit opts (re_clock x (2 * k)) (re_clock x (2 * k + 1)) (\<lambda>db. db) plan seen s db
        = Inr (s1, db1)" and ok1: "exec_ok db1" and adv: "advances db db1" and scans: "ex_scans db1 = ex_scans db"
      and s1: "es_pending s1 = es_pending s" "es_untouched s1 = es_untouched s"
      and fin: "\<exists>v. find_unit db1 i = Some v \<and> is_terminal v"
    using expire_unit_late [OF Cons.prems(1) _ _ Cons.prems(3) late, of seen cur] i by metis
  have there: "\<exists>seen cur. by_id j = Some seen \<and> eu_id seen = j \<and> j \<noteq> [] \<and> find_unit db1 j = Some cur"
    if "j \<in> set ids" for j
    using Cons.prems(2) [of j] that advances_unit [OF adv] by fastforce
  have "plan_deadline_at db1 (Some plan) (eo_legacy opts) = Inr (Some d)"
    using Cons.prems(3) deadline_frame [OF scans] by simp
  from Cons.IH [OF ok1 there this, of "Suc k" s1]
  obtain s' db' where rest: "expire_loop opts x (Suc k) plan by_id s1 ids db1 = Inr (s', db')" "exec_ok db'"
      "advances db1 db'" "es_pending s' = es_pending s1" "es_untouched s' = es_untouched s1"
      "\<forall>i \<in> set ids. \<exists>v. find_unit db' i = Some v \<and> is_terminal v" by blast
  have "\<exists>v. find_unit db' i = Some v \<and> is_terminal v"
    using fin advances_unit [OF rest(3)] evolves_terminal by blast
  with i one rest s1 advances_trans [OF adv rest(3)] show ?case by (simp add: still)
qed simp

lemma plan_order_valid:
  assumes "validate_execution_graph (map (\<lambda>u. \<lparr> gu_id = eu_id u, gu_class = eu_class u \<rparr>) (plan_units db p))
      (plan_edges db p) = Some (Inr ())"
  obtains ids where "plan_order db p = Inr ids" "distinct ids" "set ids = eu_id ` set (plan_units db p)"
proof -
  from topological_result [OF assms] obtain ids where t:
    "topological_order (map (\<lambda>u. \<lparr> gu_id = eu_id u, gu_class = eu_class u \<rparr>) (plan_units db p)) (plan_edges db p)
      = Some (Inr ids)" "distinct ids"
    "set ids = gu_id ` set (map (\<lambda>u. \<lparr> gu_id = eu_id u, gu_class = eu_class u \<rparr>) (plan_units db p))"
    by (rule topological_result [OF assms]) (rule that)
  show ?thesis
  proof (rule that)
    show "plan_order db p = Inr ids" unfolding plan_order_def t(1) by simp
    show "set ids = eu_id ` set (plan_units db p)" unfolding t(3) by (simp add: image_image)
  qed (rule t(2))
qed

lemma plan_unit_find:
  assumes ok: "exec_ok db" and u: "u \<in> set (plan_units db p)"
  shows "find_row eu_id (eu_id u) (plan_units db p) = Some u" "find_unit db (eu_id u) = Some u"
proof -
  have "distinct (map eu_id (plan_units db p))"
    using exec_ok_ids [OF ok] by (simp add: plan_units_def distinct_map_filter)
  then show "find_row eu_id (eu_id u) (plan_units db p) = Some u" using u by (intro find_row_unique) simp_all
  show "find_unit db (eu_id u) = Some u"
    unfolding find_unit_def using u exec_ok_ids [OF ok] by (intro find_row_unique) (auto simp: plan_units_def)
qed

lemma expire_plan_late:
  fixes opts :: expire_options
  assumes ok: "exec_ok db" and plan: "find_plan db p = Some plan"
    and valid: "validate_execution_graph (map (\<lambda>u. \<lparr> gu_id = eu_id u, gu_class = eu_class u \<rparr>) (plan_units db p))
      (plan_edges db p) = Some (Inr ())"
    and deadline: "plan_deadline_at db (Some plan) (eo_legacy opts) = Inr (Some d)"
    and still: "\<And>k. re_env x k = (\<lambda>db. db)"
    and late: "\<And>k u. 0 \<le> eo_margin opts u \<and> d + eo_margin opts u \<le> re_clock x k"
  shows "\<exists>s db'. expire_plan_units opts x p db = Inr (s, db') \<and> exec_ok db' \<and> advances db db'
    \<and> es_pending s = [] \<and> es_untouched s = [] \<and> list_all is_terminal (plan_units db' p)"
proof -
  let ?by = "\<lambda>i. find_row eu_id i (plan_units db p)"
  let ?none = "\<lparr> es_finalized = [], es_pending = [], es_untouched = [] \<rparr>"
  obtain ids where ids: "plan_order db p = Inr ids" "set ids = eu_id ` set (plan_units db p)"
    using plan_order_valid [OF valid] by metis
  have "eu_id u \<noteq> []" if "u \<in> set (plan_units db p)" for u
    using valid that by (auto simp: validate_ok_iff well_formed_graph_def)
  then have there: "\<exists>seen cur. ?by i = Some seen \<and> eu_id seen = i \<and> i \<noteq> [] \<and> find_unit db i = Some cur"
    if "i \<in> set ids" for i
    using that ids(2) plan_unit_find [OF ok] by fastforce
  obtain s db' where run: "expire_loop opts x 0 plan ?by ?none ids db = Inr (s, db')" "exec_ok db'"
      "advances db db'" "es_pending s = []" "es_untouched s = []"
      "\<forall>i \<in> set ids. \<exists>v. find_unit db' i = Some v \<and> is_terminal v"
    using expire_loop_late [of db ids ?by plan opts d x 0 ?none, OF ok there deadline still late] by auto
  have "is_terminal v" if v: "v \<in> set (plan_units db' p)" for v
  proof -
    obtain u where u: "u \<in> set (ex_units db)" "evolves u v"
      using evolves_backwards [of "ex_units db" "ex_units db'" v] run(3) v by (auto simp: advances_def plan_units_def)
    then have "eu_id v = eu_id u" "u \<in> set (plan_units db p)"
      using v by (auto simp: evolves_def same_frozen_def plan_units_def)
    then have "eu_id v \<in> set ids" by (simp add: ids(2))
    then show ?thesis using run(6) plan_unit_find(2) [OF run(2) v] by auto
  qed
  with plan ids(1) run show ?thesis by (auto simp: expire_plan_units_def Let_def list_all_iff)
qed

text \<open>A unit is left alone unless its scan has ended or its deadline has passed.\<close>

lemma expire_unit_live:
  assumes "plan_deadline_at db (Some plan) (eo_legacy opts) = Inr deadline"
    and "case deadline of None \<Rightarrow> True | Some d \<Rightarrow> now < d"
    and "case scan_of_plan db (Some plan) of None \<Rightarrow> True | Some s \<Rightarrow> scan_ended (xs_state s) = None"
  shows "\<exists>s'. expire_unit opts now now2 env plan seen s db = Inr (s', db) \<and> es_finalized s' = es_finalized s"
  using assms by (auto simp: expire_unit_def Let_def split: option.splits)

end
