(* ===== verification/Unit_Sound.thy ===== *)
theory Unit_Sound
  imports Unit_Expire
begin

text \<open>What a dispatch that reports a running child has established, what a host's decision to continue
  means, and when the plan gate continues the scan.  Between two transactions the other writers
  are arbitrary.\<close>

section \<open>Dispatch\<close>

definition running_unit :: "exec_db \<Rightarrow> host_identity \<Rightarrow> int \<Rightarrow> bool" where
  "running_unit db h attempt =
     list_ex (\<lambda>u. eu_id u = ho_unit h \<and> eu_user u = ho_user h \<and> eu_status u = U_RUNNING \<and> eu_attempt u = attempt)
       (ex_units db)"

text \<open>The engine's admission was granted on some state of the safety tables.\<close>

definition admits :: "dispatch_hooks \<Rightarrow> unit_row \<Rightarrow> bool" where
  "admits k u = (\<exists>safe g lease replay. fst (dh_admit k (dh_request k u) safe) = Granted g lease replay)"

lemma cas_running:
  assumes "cas_host_transition sha now h attempt token Dispatched_Running l db = (Cas_OK, db')"
  shows "running_unit db' h attempt \<and> owns_claim db' (ho_unit h) attempt (sha token) (ho_host h)
    \<and> (if l then fahes_lock_live_lease (ho_unit h) (ex_safety db') else True)"
  using assms
proof (cases rule: casE)
  case (ok u us)
  have us: "us = update_rows eu_id (ho_unit h) (edge_row now Dispatched_Running) (ex_units db)"
    using ok(9) by (simp add: update_unit_def split: if_splits)
  have "edge_row now Dispatched_Running u \<in> set us"
    unfolding us set_update_rows using ok(2,3) by force
  moreover have "eu_id (edge_row now Dispatched_Running u) = ho_unit h
      \<and> eu_user (edge_row now Dispatched_Running u) = ho_user h
      \<and> eu_status (edge_row now Dispatched_Running u) = U_RUNNING
      \<and> eu_attempt (edge_row now Dispatched_Running u) = attempt"
    using ok by (simp add: edge_row_def)
  ultimately have "running_unit db' h attempt"
    unfolding running_unit_def list_ex_iff ok(10) by auto
  with ok show ?thesis by (simp add: owns_claim_def)
qed simp

text \<open>\<open>refuse_unit\<close> never reports a running child.\<close>

lemma refuse_unit_child:
  "refuse_unit now u reason db = Inr ((out, c), db') \<Longrightarrow> c = No_Child \<and> (\<forall>a t ho. out \<noteq> D_Running a t ho)"
  by (auto simp: refuse_unit_def split: sum.splits prod.splits if_splits)

lemma refuse_unit_not_running [simp]:
  "refuse_unit now u reason db \<noteq> Inr ((D_Running a t ho, c), db')"
  "refuse_unit now u reason db \<noteq> Inr ((out, Child_Running), db')"
  using refuse_unit_child by blast+

lemma dispatch_admitted_running:
  assumes run: "dispatch_admitted sha x k h token attempt u db = Inr ((out, c), db')"
  shows "if c = Child_Running
    then out = D_Running attempt token (ho_host h) \<and> dh_proofs k u = None \<and> dh_forks k
      \<and> running_unit db' h attempt \<and> owns_claim db' (ho_unit h) attempt (sha token) (ho_host h)
      \<and> (if dh_class_l k then fahes_lock_live_lease (ho_unit h) (ex_safety db') else True)
    else \<forall>a t ho. out \<noteq> D_Running a t ho"
proof (cases "dh_proofs k u")
  case (Some reason)
  with run show ?thesis by (auto simp: dispatch_admitted_def dest: refuse_unit_child)
next
  case None
  let ?db6 = "re_env x 6 db"
  obtain cause where cause: "classify_pre_run_cause (re_clock x 6) False (dh_margin k)
      (u\<lparr> eu_status := U_ADMITTED \<rparr>) ?db6 = Inr cause"
    using run None by (auto simp: dispatch_admitted_def Let_def split: sum.splits)
  show ?thesis
  proof (cases "cause = C_None")
    case False
    with run None cause show ?thesis
      by (cases cause) (auto simp: dispatch_admitted_def Let_def dest: refuse_unit_child)
  next
    case True
    obtain c8 db8 where c8: "cas_host_transition sha (re_clock x 8) h attempt token Admitted_Dispatched
        (dh_class_l k) (re_env x 8 ?db6) = (c8, db8)" by fastforce
    obtain c9 db9 where c9: "cas_host_transition sha (re_clock x 9) h attempt token Dispatched_Running
        (dh_class_l k) (re_env x 9 db8) = (c9, db9)" by fastforce
    from run None cause True c8 c9 show ?thesis
      using cas_running [of sha "re_clock x 9" h attempt token "dh_class_l k" "re_env x 9 db8" db9]
      by (cases c8; cases c9) (auto simp: dispatch_admitted_def Let_def split: if_splits)
  qed
qed

lemma dispatch_claimed_running:
  assumes run: "dispatch_claimed sha x k h token attempt u db = Inr ((out, c), db')"
  shows "if c = Child_Running
    then out = D_Running attempt token (ho_host h) \<and> dh_guards k u = None \<and> dh_proofs k u = None \<and> dh_forks k
      \<and> admits k u
      \<and> running_unit db' h attempt \<and> owns_claim db' (ho_unit h) attempt (sha token) (ho_host h)
      \<and> (if dh_class_l k then fahes_lock_live_lease (ho_unit h) (ex_safety db') else True)
    else \<forall>a t ho. out \<noteq> D_Running a t ho"
proof (cases "dh_guards k u")
  case (Some reason)
  with run show ?thesis by (auto simp: dispatch_claimed_def dest: refuse_unit_child)
next
  case None
  let ?db2 = "re_env x 2 db"
  let ?db3 = "re_env x 3 ?db2"
  obtain cause where cause: "classify_pre_run_cause (re_clock x 2) False (dh_margin k)
      (u\<lparr> eu_status := U_PLANNED \<rparr>) ?db2 = Inr cause"
    using run None by (auto simp: dispatch_claimed_def Let_def split: sum.splits)
  show ?thesis
  proof (cases "cause = C_None \<or> (\<exists>sc i. cause = C_Stop sc i)")
    case False
    with run None cause show ?thesis
      by (cases cause) (auto simp: dispatch_claimed_def Let_def dest: refuse_unit_child)
  next
    case True
    obtain adm safe where adm: "dh_admit k (dh_request k u) (ex_safety ?db3) = (adm, safe)" by fastforce
    show ?thesis
    proof (cases adm)
      case (Refused reason hit)
      with run None cause True adm show ?thesis
        by (auto simp: dispatch_claimed_def Let_def dest: refuse_unit_child)
    next
      case (Granted g lease replay)
      obtain c4 db4 where c4: "cas_host_transition sha (re_clock x 4) h attempt token Planned_Admitted
          (dh_class_l k) (re_env x 4 (?db3\<lparr> ex_safety := safe \<rparr>)) = (c4, db4)" by fastforce
      have "fst (dh_admit k (dh_request k u) (ex_safety ?db3)) = adm" using adm by simp
      with Granted have "admits k u" unfolding admits_def by metis
      with run None cause True adm Granted c4 show ?thesis
        using dispatch_admitted_running [of sha x k h token attempt u db4 out c db']
        by (cases c4) (auto simp: dispatch_claimed_def Let_def)
    qed
  qed
qed

lemma dispatch_running_result:
  assumes run: "dispatch_execution_unit sha x k h token db = Inr ((out, c), db')"
  shows "if c = Child_Running
    then \<exists>u attempt. lock_unit db (ho_unit h) (ho_user h) = Some u
      \<and> eu_status u = U_PLANNED \<and> \<not> is_passive_class (eu_class u) \<and> dh_capacity k u
      \<and> out = D_Running attempt token (ho_host h) \<and> dh_guards k u = None \<and> dh_proofs k u = None \<and> dh_forks k
      \<and> admits k u
      \<and> running_unit db' h attempt \<and> owns_claim db' (ho_unit h) attempt (sha token) (ho_host h)
      \<and> (if dh_class_l k then fahes_lock_live_lease (ho_unit h) (ex_safety db') else True)
    else \<forall>a t ho. out \<noteq> D_Running a t ho"
proof (cases "lock_unit db (ho_unit h) (ho_user h)")
  case None
  with run show ?thesis by (auto simp: dispatch_execution_unit_def)
next
  case (Some u)
  show ?thesis
  proof (cases "eu_status u = U_PLANNED \<and> \<not> is_passive_class (eu_class u) \<and> dh_capacity k u")
    case False
    with run Some show ?thesis by (auto simp: dispatch_execution_unit_def split: if_splits)
  next
    case True
    obtain r db0 where claim: "claim_unit_host (re_clock x 0) h (sha token) (dh_margin k) (re_env x 0 db)
        = Inr (r, db0)"
      using run Some True by (auto simp: dispatch_execution_unit_def split: sum.splits)
    show ?thesis
    proof (cases r)
      case (Claimed attempt)
      with run Some True claim show ?thesis
        using dispatch_claimed_running [of sha x k h token attempt u db0 out c db']
        by (auto simp: dispatch_execution_unit_def split: if_splits)
    qed (use run Some True claim in
        \<open>auto simp: dispatch_execution_unit_def dest: refuse_unit_child split: if_splits\<close>)
  qed
qed

text \<open>A delivery for a unit that is not planned, and one the engine has no room for, change nothing.\<close>

lemma dispatch_not_planned:
  assumes "case lock_unit db (ho_unit h) (ho_user h) of None \<Rightarrow> True
    | Some u \<Rightarrow> eu_status u \<noteq> U_PLANNED \<or> is_passive_class (eu_class u) \<or> \<not> dh_capacity k u"
  shows "\<exists>out. dispatch_execution_unit sha x k h token db = Inr ((out, No_Child), db)"
  using assms by (auto simp: dispatch_execution_unit_def split: option.splits)

section \<open>The host's loop\<close>

lemma loop_action_continue:
  "loop_action c r = Continue \<longleftrightarrow> r = L_Renewed \<and> (c = C_None \<or> c = C_Not_Started \<or> (\<exists>s. c = C_Terminal s))"
  by (cases c; cases r) (simp_all add: loop_action_def Let_def)

lemma loop_action_terminal: "loop_action c r \<noteq> Stop_Terminal"
  by (cases c; cases r) (simp_all add: loop_action_def Let_def)

lemma classify_threw: "classify_pre_run_cause now running margin u db = Inl e \<Longrightarrow> \<exists>d. e = Deadline_Threw d"
  by (auto simp: classify_pre_run_cause_def plan_deadline_at_def Let_def
      split: if_splits option.splits sum.splits dispatch_decision.splits)

lemma classify_running_none:
  assumes "classify_pre_run_cause now True margin u db = Inr c" and "c = C_None \<or> c = C_Not_Started"
  shows "\<not> is_terminal u \<and> stop_pending (ex_safety db) (unit_identity db u) = None \<and> c = C_None
    \<and> (case scan_of_plan db (find_plan db (eu_plan u)) of None \<Rightarrow> True | Some s \<Rightarrow> scan_ended (xs_state s) = None)
    \<and> (case plan_deadline_at db (find_plan db (eu_plan u)) legacy_max_duration of
         Inr (Some d) \<Rightarrow> now < d | Inr None \<Rightarrow> True | Inl _ \<Rightarrow> False)"
proof -
  let ?ended = "case scan_of_plan db (find_plan db (eu_plan u)) of None \<Rightarrow> None | Some s \<Rightarrow> scan_ended (xs_state s)"
  have live: "\<not> is_terminal u" "stop_pending (ex_safety db) (unit_identity db u) = None"
    using assms by (auto simp: classify_pre_run_cause_def Let_def split: if_splits option.splits)
  obtain d where d: "plan_deadline_at db (find_plan db (eu_plan u)) legacy_max_duration = Inr d"
    using assms live by (auto simp: classify_pre_run_cause_def Let_def split: sum.splits)
  have "?ended = None"
  proof (cases ?ended)
    case (Some t)
    then have "\<exists>r. dispatch_deadline_decision now d ?ended (timing_unit u 0 0) = Refuse r"
      by (cases t) (simp_all add: dispatch_deadline_decision_def)
    with assms live d show ?thesis by (auto simp: classify_pre_run_cause_def Let_def)
  qed
  moreover from this have "now < t" if "d = Some t" for t
    using assms live d that
    by (auto simp: classify_pre_run_cause_def dispatch_deadline_decision_def Let_def split: if_splits)
  moreover have "c = C_None"
    using assms live d by (auto simp: classify_pre_run_cause_def Let_def split: dispatch_decision.splits)
  ultimately show ?thesis
    using live d by (auto split: option.splits)
qed

section \<open>The plan gate\<close>

lemma gate_units_continued:
  assumes "gate_units x deps p s db = ((g, queued), db')"
  shows "queued = (g = Continued)
    \<and> (g = Continued \<longrightarrow> list_all is_terminal (plan_units db (pl_id p))
        \<and> (\<exists>d db1. dp_deadline p = Some d \<and> gd_claim deps (xs_id s) d db1 = (True, db')))"
  using assms
  by (auto simp: gate_units_def list_ex_iff list_all_iff split: if_splits option.splits prod.splits bool.splits)

lemma claim_master_iff:
  "fst (claim_master now sid d db) \<longleftrightarrow>
     list_ex (\<lambda>s. xs_id s = sid \<and> xs_state s = RUNNING_PHASE_3
        \<and> (case xs_started s of None \<Rightarrow> False | Some t \<Rightarrow> now < t + d)) (ex_scans db)"
  by (simp add: claim_master_def Let_def)


end
