(* ===== verification/Unit_Theorems.thy ===== *)
theory Unit_Theorems
  imports Unit_Sound
begin

text \<open>The properties of the unit runtime.\<close>

section \<open>A sample plan\<close>

text \<open>A passive unit \<open>ua\<close>, a browser unit \<open>ub\<close> that depends on it, and a crawler \<open>uc\<close> after \<open>ub\<close>.\<close>

definition sample_unit :: "string \<Rightarrow> execution_unit_class \<Rightarrow> string option \<Rightarrow> unit_row" where
  "sample_unit i c m =
     \<lparr> eu_id = i, eu_plan = ''p1'', eu_user = ''u1'', eu_target = ''t1'', eu_grant = Some ''g1'', eu_class = c,
       eu_engine = ''e'', eu_domain = m, eu_timeout = 1000, eu_checkpoint = False, eu_key = ''k'' @ i,
       eu_status = U_PLANNED, eu_attempt = 1, eu_blocked_by = None, eu_failure = None, eu_reason = None,
       eu_progress = None, eu_indeterminate = False, eu_dispatched = None, eu_started = None,
       eu_completed = None \<rparr>"

definition quiet_safety :: safety_db where
  "quiet_safety =
     \<lparr> sf_targets = [], sf_environments = Map.empty, sf_operators = [], sf_scans = [], sf_grants = [],
       sf_stops = [], sf_leases = [], sf_consumptions = [], sf_counters = [], sf_audit = [], sf_log = [] \<rparr>"

definition sample_exec :: exec_db where
  "sample_exec =
     \<lparr> ex_units = [sample_unit ''ua'' PASSIVE_HTTP (Some ''SEO''), sample_unit ''ub'' BROWSER None,
                   sample_unit ''uc'' CRAWLER None],
       ex_edges = [\<lparr> ge_unit = ''ub'', ge_dep = ''ua'' \<rparr>, \<lparr> ge_unit = ''uc'', ge_dep = ''ub'' \<rparr>],
       ex_plans = [\<lparr> dp_kind = Initial, dp_state = Resolved_Plan, dp_deadline = Some 100000, dp_resolved_at = 0,
                     pl_id = ''p1'', pl_scan = Some ''s1'' \<rparr>],
       ex_scans = [\<lparr> xs_id = ''s1'', xs_state = RUNNING_PHASE_3, xs_started = Some 0, xs_requested = [''SEO''] \<rparr>],
       ex_modules = [\<lparr> mr_scan = ''s1'', mr_module = ''SEO'', mr_state = M_COMPLETE \<rparr>],
       ex_claims = [], ex_effects = [], ex_safety = quiet_safety \<rparr>"

definition sample_text :: text_env where
  "sample_text = \<lparr> te_sha = (\<lambda>s. replicate 64 CHR ''a''), te_trim = id, te_redact = id, te_bytes = (\<lambda>_. 0) \<rparr>"

definition sample_host :: host_identity where
  "sample_host = \<lparr> ho_unit = ''ub'', ho_user = ''u1'', ho_host = ''h1'' \<rparr>"

definition sample_effect :: effect_key where
  "sample_effect = \<lparr> ek_kind = ''GET'', ek_ordinal = 0 \<rparr>"

definition sample_start :: "(millis \<times> exec_tx) list" where
  "sample_start =
     [(1, Tx_Passive ''ua'' ''kua''), (2, Tx_Enqueue ''p1''),
      (3, Tx_Claim sample_host (replicate 64 CHR ''a'') 500),
      (4, Tx_Edge sample_host 1 ''tok'' Planned_Admitted False),
      (5, Tx_Edge sample_host 1 ''tok'' Admitted_Dispatched False),
      (6, Tx_Edge sample_host 1 ''tok'' Dispatched_Running False)]"

definition sample_running :: "exec_db \<times> string list" where
  "sample_running = exec_run sample_text sample_start (sample_exec, [])"

definition sample_end :: "(millis \<times> exec_tx) list" where
  "sample_end =
     [(7, Tx_Effect sample_host 1 ''tok'' sample_effect False),
      (8, Tx_Finalize ''ub'' ''kub'' Fin_Failed (Some F_TIMEOUT) None None)]"

lemma sample_fresh: "exec_fresh sample_exec"
  by code_simp

lemma sample_statuses:
  "map eu_status (ex_units (fst sample_running)) = [U_COMPLETED, U_RUNNING, U_PLANNED]"
  "map eu_status (ex_units (fst (exec_run sample_text sample_end sample_running)))
     = [U_COMPLETED, U_FAILED, U_BLOCKED]"
  by code_simp+

section \<open>The life of a unit\<close>

text \<open>C4: Whatever transactions the runtime commits on a freshly resolved plan, in any order, with any
  clocks and arguments, its tables stay consistent: a unit and attempt have one claim, a claimed
  unit's prerequisites are completed, a unit that is admitted, dispatched or running is claimed,
  an authorized effect belongs to a running unit, a unit has a failure class exactly when it
  failed, and a blocked unit names a dependency that ended without completing.  From then on every
  unit moves only along the transition table, keeps its identity, never changes again once it is
  terminal, and no claim is lost.\<close>

theorem unit_life:
  assumes "exec_fresh db"
  shows "exec_inv (exec_run t txs (db, []))
    \<and> advances (fst (exec_run t txs (db, []))) (fst (exec_run t txs' (exec_run t txs (db, []))))"
  using exec_run_inv [OF fresh_inv [OF assms], of t txs] exec_run_inv by blast

theorem unit_life_witness:
  "exec_inv (exec_run sample_text sample_start (sample_exec, []))
    \<and> advances (fst (exec_run sample_text sample_start (sample_exec, [])))
        (fst (exec_run sample_text sample_end (exec_run sample_text sample_start (sample_exec, []))))"
  using unit_life [OF sample_fresh] .

section \<open>One host\<close>

text \<open>No path of the table comes back to an edge.\<close>

fun status_rank :: "execution_unit_status \<Rightarrow> nat" where
  "status_rank U_PLANNED = 0"
| "status_rank U_ADMITTED = 1"
| "status_rank U_DISPATCHED = 2"
| "status_rank U_RUNNING = 3"
| "status_rank _ = 4"

lemma unit_edges_rank: "(s, t) \<in> unit_edges\<^sup>* \<Longrightarrow> status_rank s \<le> status_rank t"
proof (induction rule: rtrancl_induct)
  case (step s' t)
  then have "t \<in> set (unit_transitions s')" by (simp add: unit_edges_def)
  then have "status_rank s' \<le> status_rank t" by (cases s') auto
  with step.IH show ?case by simp
qed simp

lemma edges_progress: "(edge_to e, edge_from e2) \<in> unit_edges\<^sup>* \<Longrightarrow> e2 \<noteq> e"
  by (cases e; cases e2) (auto dest: unit_edges_rank)

text \<open>C12: Once a transition of a unit's attempt has succeeded for a host, a later one for the same attempt
  succeeds only with the same claim token's digest, for the same host and user, and on a later
  edge: no second host ever moves the unit, and no edge is taken twice.\<close>

theorem host_exclusive:
  assumes "exec_fresh db" and "exec_run t txs (db, []) = (db0, jobs)"
    and "cas_host_transition (te_sha t) now h a token e l db0 = (Cas_OK, db1)"
    and "exec_run t txs' (db1, jobs) = (db2, jobs')"
    and "cas_host_transition (te_sha t) now2 h2 a token2 e2 l2 db2 = (Cas_OK, db3)" and "ho_unit h2 = ho_unit h"
  shows "te_sha t token2 = te_sha t token \<and> ho_host h2 = ho_host h \<and> ho_user h2 = ho_user h
    \<and> e2 \<noteq> e \<and> (edge_to e, edge_from e2) \<in> unit_edges\<^sup>*"
proof -
  have inv0: "exec_inv (db0, jobs)" using exec_run_inv [OF fresh_inv [OF assms(1)], of t txs] assms(2) by simp
  have "exec_inv (exec_do t now (Tx_Edge h a token e l) (db0, jobs))" using exec_do_inv [OF inv0] by blast
  then have inv1: "exec_inv (db1, jobs)" by (simp add: assms(3))
  from exec_run_inv [OF this, of t txs'] have inv2: "exec_inv (db2, jobs')" and adv: "advances db1 db2"
    by (simp_all add: assms(4))
  from assms(3) obtain u us where first: "u \<in> set (ex_units db0)" "eu_id u = ho_unit h" "eu_user u = ho_user h"
      "owns_claim db0 (ho_unit h) a (te_sha t token) (ho_host h)"
      "update_unit False True (ho_unit h) (edge_row now e) (ex_units db0) = Inr us" "db1 = db0\<lparr> ex_units := us \<rparr>"
    by (cases rule: casE) auto
  from assms(5) obtain v where second: "v \<in> set (ex_units db2)" "eu_id v = ho_unit h" "eu_user v = ho_user h2"
      "owns_claim db2 (ho_unit h) a (te_sha t token2) (ho_host h2)" "eu_status v = edge_from e2"
    using assms(6) by (cases rule: casE) auto
  have "edge_row now e u \<in> set us"
    using first(1,2,5) by (force simp: update_unit_def set_update_rows split: if_splits)
  with adv first(6) obtain w where w: "w \<in> set (ex_units db2)" "evolves (edge_row now e u) w"
    using evolves_forwards [of "ex_units db1" "ex_units db2"] by (auto simp: advances_def)
  have row: "eu_id (edge_row now e u) = ho_unit h" "eu_user (edge_row now e u) = ho_user h"
    "eu_status (edge_row now e u) = edge_to e"
    using first(2,3) by (cases e; simp add: edge_row_def)+
  have "w = v" using same_unit [of db2 w v] inv2 w second(1,2) row(1)
    by (simp add: exec_inv_def evolves_def same_frozen_def)
  with w row second have edge: "(edge_to e, edge_from e2) \<in> unit_edges\<^sup>*" and user: "ho_user h2 = ho_user h"
    by (auto simp: evolves_def same_frozen_def)
  have "e2 \<noteq> e" using edge by (rule edges_progress)
  moreover have "te_sha t token2 = te_sha t token \<and> ho_host h2 = ho_host h"
  proof -
    from first(4,6) adv have "owns_claim db2 (ho_unit h) a (te_sha t token) (ho_host h)"
      by (auto simp: owns_claim_def list_ex_iff advances_def dest: set_mono_prefix)
    with second(4) inv2 show ?thesis by (auto simp: exec_inv_def exec_ok_def claims_ok_def owns_claim_def
        list_ex_iff distinct_map inj_on_def)
  qed
  ultimately show ?thesis using edge user by blast
qed

definition sample_claimed :: "exec_db \<times> string list" where
  "sample_claimed = exec_run sample_text (take 3 sample_start) (sample_exec, [])"

definition sample_admitted :: exec_db where
  "sample_admitted = snd (cas_host_transition (te_sha sample_text) 4 sample_host 1 ''tok'' Planned_Admitted False
     (fst sample_claimed))"

definition sample_dispatched :: exec_db where
  "sample_dispatched = snd (cas_host_transition (te_sha sample_text) 5 sample_host 1 ''tok'' Admitted_Dispatched False
     sample_admitted)"

lemma sample_edges:
  "cas_host_transition (te_sha sample_text) 4 sample_host 1 ''tok'' Planned_Admitted False (fst sample_claimed)
     = (Cas_OK, sample_admitted)"
  "cas_host_transition (te_sha sample_text) 5 sample_host 1 ''tok'' Admitted_Dispatched False sample_admitted
     = (Cas_OK, sample_dispatched)"
proof -
  have "fst (cas_host_transition (te_sha sample_text) 4 sample_host 1 ''tok'' Planned_Admitted False
      (fst sample_claimed)) = Cas_OK" by code_simp
  then show "cas_host_transition (te_sha sample_text) 4 sample_host 1 ''tok'' Planned_Admitted False
      (fst sample_claimed) = (Cas_OK, sample_admitted)"
    unfolding sample_admitted_def by (metis prod.collapse)
  have "fst (cas_host_transition (te_sha sample_text) 5 sample_host 1 ''tok'' Admitted_Dispatched False
      sample_admitted) = Cas_OK" by code_simp
  then show "cas_host_transition (te_sha sample_text) 5 sample_host 1 ''tok'' Admitted_Dispatched False
      sample_admitted = (Cas_OK, sample_dispatched)"
    unfolding sample_dispatched_def by (metis prod.collapse)
qed

theorem host_exclusive_witness:
  "te_sha sample_text ''tok'' = te_sha sample_text ''tok'' \<and> ho_host sample_host = ho_host sample_host
    \<and> ho_user sample_host = ho_user sample_host \<and> Admitted_Dispatched \<noteq> Planned_Admitted
    \<and> (edge_to Planned_Admitted, edge_from Admitted_Dispatched) \<in> unit_edges\<^sup>*"
proof (rule host_exclusive [OF sample_fresh])
  show "exec_run sample_text (take 3 sample_start) (sample_exec, []) = (fst sample_claimed, snd sample_claimed)"
    by (simp add: sample_claimed_def)
  show "exec_run sample_text [] (sample_admitted, snd sample_claimed) = (sample_admitted, snd sample_claimed)"
    by simp
qed (rule sample_edges sample_edges refl)+

section \<open>Effects\<close>

text \<open>C6: An effect is authorized only for a running unit of the caller's own, at the caller's attempt, under
  the claim whose token and host the caller presents, while no stop covers the unit, its scan has
  not ended, its deadline is ahead and, for a class that needs one, its lease is held.  Then the
  effect is on the ledger, and the answer says whether it was there before; nothing else
  changes, and a refusal changes nothing at all.\<close>

theorem effect_fenced:
  "case authorize_effect sha now h attempt token k l db of
     Inl e \<Rightarrow> \<exists>d. e = Deadline_Threw d
   | Inr (Effect_Refused r, db') \<Rightarrow> db' = db
   | Inr (Effect_Authorized replayed, db') \<Rightarrow>
       running_unit db h attempt \<and> owns_claim db (ho_unit h) attempt (sha token) (ho_host h)
       \<and> (if l then fahes_lock_live_lease (ho_unit h) (ex_safety db) else True)
       \<and> (case lock_unit db (ho_unit h) (ho_user h) of
            None \<Rightarrow> False
          | Some u \<Rightarrow>
              stop_pending (ex_safety db) (unit_identity db u) = None
              \<and> (case scan_of_plan db (find_plan db (eu_plan u)) of
                   None \<Rightarrow> True | Some s \<Rightarrow> scan_ended (xs_state s) = None)
              \<and> (case plan_deadline_at db (find_plan db (eu_plan u)) legacy_max_duration of
                   Inr (Some d) \<Rightarrow> now < d | Inr None \<Rightarrow> True | Inl _ \<Rightarrow> False))
       \<and> replayed = ((ho_unit h, attempt, ek_kind k, ek_ordinal k) \<in> set (effect_keys db))
       \<and> db' = db\<lparr> ex_effects := ex_effects db' \<rparr>
       \<and> effect_keys db' = effect_keys db @ (if replayed then [] else [(ho_unit h, attempt, ek_kind k, ek_ordinal k)])"
proof (cases "authorize_effect sha now h attempt token k l db")
  case (Inl e)
  then have "\<exists>u. classify_pre_run_cause now True 60000 u db = Inl e"
    by (auto simp: authorize_effect_def split: if_splits option.splits sum.splits prod.splits)
  then show ?thesis using Inl classify_threw by fastforce
next
  case (Inr a)
  obtain r db' where a: "a = (r, db')" by fastforce
  from Inr [unfolded a] show ?thesis
  proof (cases rule: authorizeE)
    case refused
    with Inr a show ?thesis by (cases r) auto
  next
    case (granted u b)
    have u: "u \<in> set (ex_units db)" "eu_id u = ho_unit h" "eu_user u = ho_user h"
      using lock_unitD [OF granted(2)] by auto
    then have run: "running_unit db h attempt"
      using granted(3,4) by (auto simp: running_unit_def list_ex_iff)
    note none = classify_running_none [OF granted(6), simplified]
    have keys: "b = ((ho_unit h, attempt, ek_kind k, ek_ordinal k) \<in> set (effect_keys db))"
      "db' = db\<lparr> ex_effects := ex_effects db' \<rparr>"
      "effect_keys db' = effect_keys db @ (if b then [] else [(ho_unit h, attempt, ek_kind k, ek_ordinal k)])"
      using insert_effect_keys [OF granted(8)] u(2) by simp_all
    show ?thesis
      unfolding Inr a granted(1) sum.case prod.case effect_decision.case granted(2) option.case
      using run granted(5,7) none keys by blast
  qed
qed

text \<open>C24: The ledger holds every effect once: whatever happens after an authorization, authorizing the same
  effect of the same unit and attempt again is answered as a replay, and no key is on the ledger twice.\<close>

theorem effect_once:
  assumes "exec_fresh db" and "exec_run t txs (db, []) = (db0, jobs)"
    and "authorize_effect (te_sha t) now h a token k l db0 = Inr (Effect_Authorized b, db1)"
    and "exec_run t txs' (db1, jobs) = (db2, jobs')"
    and "authorize_effect (te_sha t) now2 h2 a token2 k l2 db2 = Inr (Effect_Authorized b2, db3)"
    and "ho_unit h2 = ho_unit h"
  shows "b2 \<and> db3 = db2 \<and> distinct (effect_keys db2)"
proof -
  have "distinct (effect_keys db)" using assms(1) by (simp add: exec_fresh_def effect_keys_def)
  then have "distinct (effect_keys db0)" using exec_run_effect_keys [of "(db, [])" t txs] assms(2) by simp
  then have one: "distinct (effect_keys db1)" "(ho_unit h, a, ek_kind k, ek_ordinal k) \<in> set (effect_keys db1)"
    using authorize_effect_keys [OF assms(3)] by blast+
  with exec_run_effect_keys [of "(db1, jobs)" t txs'] assms(4)
  have two: "distinct (effect_keys db2)" "(ho_unit h, a, ek_kind k, ek_ordinal k) \<in> set (effect_keys db2)"
    by (auto dest: set_mono_prefix)
  have b2: b2 using authorize_effect_keys(3) [OF assms(5) refl] two(2) assms(6) by simp
  moreover have "db3 = db2"
    using assms(5) by (cases rule: authorizeE) (use b2 in \<open>auto simp: insert_effect_def split: if_splits\<close>)
  ultimately show ?thesis using two(1) by blast
qed

definition sample_effects :: "exec_error + effect_decision \<times> exec_db" where
  "sample_effects = authorize_effect (te_sha sample_text) 7 sample_host 1 ''tok'' sample_effect False (fst sample_running)"

lemma sample_effects_run:
  "sample_effects = Inr (Effect_Authorized False, snd (projr sample_effects))"
  "authorize_effect (te_sha sample_text) 8 sample_host 1 ''tok'' sample_effect False (snd (projr sample_effects))
     = Inr (Effect_Authorized True, snd (projr sample_effects))"
proof -
  have "\<not> isl sample_effects" "fst (projr sample_effects) = Effect_Authorized False" by code_simp+
  then show "sample_effects = Inr (Effect_Authorized False, snd (projr sample_effects))"
    by (metis prod.collapse sum.collapse(2))
  let ?again = "authorize_effect (te_sha sample_text) 8 sample_host 1 ''tok'' sample_effect False (snd (projr sample_effects))"
  have "\<not> isl ?again" "fst (projr ?again) = Effect_Authorized True" by code_simp+
  then have "?again = Inr (Effect_Authorized True, snd (projr ?again))"
    by (metis prod.collapse sum.collapse(2))
  moreover from this have "snd (projr ?again) = snd (projr sample_effects)"
    by (cases rule: authorizeE) (auto simp: insert_effect_def split: if_splits)
  ultimately show "?again = Inr (Effect_Authorized True, snd (projr sample_effects))" by simp
qed

theorem effect_once_witness:
  "True \<and> snd (projr sample_effects) = snd (projr sample_effects)
    \<and> distinct (effect_keys (snd (projr sample_effects)))"
proof (rule effect_once [OF sample_fresh])
  show "exec_run sample_text sample_start (sample_exec, []) = (fst sample_running, snd sample_running)"
    by (simp add: sample_running_def)
  show "authorize_effect (te_sha sample_text) 7 sample_host 1 ''tok'' sample_effect False (fst sample_running)
      = Inr (Effect_Authorized False, snd (projr sample_effects))"
    using sample_effects_run(1) by (simp add: sample_effects_def)
  show "exec_run sample_text [] (snd (projr sample_effects), snd sample_running)
      = (snd (projr sample_effects), snd sample_running)" by simp
  show "authorize_effect (te_sha sample_text) 8 sample_host 1 ''tok'' sample_effect False (snd (projr sample_effects))
      = Inr (Effect_Authorized True, snd (projr sample_effects))" by (rule sample_effects_run(2))
qed simp

end
