(* ===== verification/Unit_Outcomes.thy ===== *)
theory Unit_Outcomes
  imports Unit_Theorems
begin

text \<open>What a finalization, a dispatch, a host's decision, the plan gate and the expiry of a plan
  achieve.\<close>

section \<open>Finalization\<close>

definition finalized_statuses :: "string \<Rightarrow> final_kind \<Rightarrow> string list \<Rightarrow> unit_row list \<Rightarrow> (string \<times> execution_unit_status) list" where
  "finalized_statuses i k blocked us =
     map (\<lambda>v. (eu_id v, if eu_id v = i then final_status k
                 else if eu_id v \<in> set blocked then U_BLOCKED else eu_status v)) us"

text \<open>C5: On consistent tables a finalization fails only for a bad failure class, an unknown unit, a stale
  idempotency key, a transition the caller may not make or an empty unit id, and never because a
  dependent cannot be blocked.  On a terminal unit it changes nothing and reports the status that
  stands; otherwise the unit gets the outcome, exactly the units that depend on it through units
  that have not ended become blocked unless it completed, and no other status changes.\<close>

theorem finalize_exact:
  assumes "exec_ok db"
  shows "case fahes_finalize_unit now i key k fc reason progress db of
      Inl e \<Rightarrow> e \<in> {Invalid_Failure_Class, Unit_Not_Found, Stale_Idempotency_Key, Invalid_Transition}
        \<or> e = Safety_Threw \<and> i = []
    | Inr (r, db') \<Rightarrow>
        (case find_unit db i of
           None \<Rightarrow> False
         | Some u \<Rightarrow> eu_key u = key
             \<and> (if is_terminal u then fr_replayed r \<and> fr_status r = eu_status u \<and> db' = db
                else \<not> fr_replayed r \<and> fr_status r = final_status k \<and> final_allowed k u
                  \<and> set (fr_blocked r) = (if k = Fin_Completed then {}
                       else reaches (ex_edges db) (ex_units db) [i] - {i})
                  \<and> map (\<lambda>v. (eu_id v, eu_status v)) (ex_units db')
                      = finalized_statuses i k (fr_blocked r) (ex_units db)))"
proof (cases "fahes_finalize_unit now i key k fc reason progress db")
  case err: (Inl e)
  show ?thesis
  proof (rule ccontr)
    assume "\<not> ?thesis"
    then have e: "e \<notin> {Invalid_Failure_Class, Unit_Not_Found, Stale_Idempotency_Key, Invalid_Transition}"
      "\<not> (e = Safety_Threw \<and> i = [])" by (auto simp: err)
    have cls: "(k = Fin_Failed) = (fc \<noteq> None)" "fc \<noteq> Some F_DETERMINISTIC_FINDING"
      using err e by (auto simp: fahes_finalize_unit_def split: if_splits)
    obtain u where u: "find_unit db i = Some u"
      using err e cls by (auto simp: fahes_finalize_unit_def split: option.splits)
    have key: "eu_key u = key" "\<not> is_terminal u" "final_allowed k u"
      using err e cls u by (auto simp: fahes_finalize_unit_def split: if_splits)
    have "i \<noteq> []"
      using err e cls u key by (auto simp: fahes_finalize_unit_def settle_safety_def
          f07_release_leases_by_execution_def split: if_splits)
    from finalize_outcome [OF assms u key(2) this key(1,3) cls, of now reason progress] err show False by fastforce
  qed
next
  case (Inr a)
  obtain r db' where a: "a = (r, db')" by fastforce
  have cls: "(k = Fin_Failed) = (fc \<noteq> None)" "fc \<noteq> Some F_DETERMINISTIC_FINDING"
    using Inr by (auto simp: fahes_finalize_unit_def split: if_splits)
  obtain u where row: "find_unit db i = Some u" and key: "eu_key u = key"
    using Inr by (auto simp: fahes_finalize_unit_def split: if_splits option.splits)
  show ?thesis
  proof (cases "is_terminal u")
    case True
    with Inr a row key cls show ?thesis by (auto simp: fahes_finalize_unit_def)
  next
    case live: False
    have u: "u \<in> set (ex_units db)" "eu_id u = i" using row by (auto simp: find_unit_def dest: find_row_SomeD)
    obtain safe where allowed: "final_allowed k u" and safe: "settle_safety now i (ex_safety db) = Some safe"
      using Inr cls row key live by (auto simp: fahes_finalize_unit_def split: if_splits option.splits)
    obtain blocked by' where run: "fahes_finalize_unit now i key k fc reason progress db =
       Inr (\<lparr> fr_status = final_status k, fr_replayed = False, fr_matches = True, fr_blocked = blocked \<rparr>,
            db\<lparr> ex_units := map (finalized now i k fc reason progress by' (set blocked)) (ex_units db),
                ex_effects := abandon_effects i (ex_effects db), ex_safety := safe \<rparr>)"
      and blocked: "set blocked = (if k = Fin_Completed then {} else reaches (ex_edges db) (ex_units db) [i] - {i})"
      by (rule finalize_applies [OF assms u key live allowed cls safe]) (rule that)
    have "map (\<lambda>v. (eu_id v, eu_status v)) (map (finalized now i k fc reason progress by' (set blocked)) (ex_units db))
        = finalized_statuses i k blocked (ex_units db)"
      by (simp add: finalized_statuses_def finalized_def)
    with run Inr a row key live allowed blocked show ?thesis by auto
  qed
qed

definition sample_final :: "exec_error + finalize_result \<times> exec_db" where
  "sample_final = fahes_finalize_unit 8 ''ub'' ''kub'' Fin_Failed (Some F_TIMEOUT) None None (fst sample_running)"

lemma sample_running_ok: "exec_ok (fst sample_running)"
  using exec_run_inv [OF fresh_inv [OF sample_fresh], of sample_text sample_start]
  by (simp add: sample_running_def exec_inv_def)

theorem finalize_exact_witness:
  "case sample_final of Inl e \<Rightarrow> False | Inr (r, db') \<Rightarrow> fr_status r = U_FAILED \<and> \<not> fr_replayed r
    \<and> map (\<lambda>v. (eu_id v, eu_status v)) (ex_units db')
      = finalized_statuses ''ub'' Fin_Failed (fr_blocked r) (ex_units (fst sample_running))"
proof -
  have ok: "\<not> isl sample_final" and row: "map_option is_terminal (find_unit (fst sample_running) ''ub'') = Some False"
    by code_simp+
  then obtain r db' where "sample_final = Inr (r, db')" by (metis prod.collapse sum.collapse(2))
  with row finalize_exact [OF sample_running_ok, where now = 8 and i = "''ub''" and key = "''kub''"
        and k = Fin_Failed and fc = "Some F_TIMEOUT" and reason = None and progress = None]
  show ?thesis unfolding sample_final_def by (auto split: option.splits)
qed

section \<open>Dispatch\<close>


section \<open>The host's loop\<close>

text \<open>C23: A host lets its child go on only if, in the tables it read, the unit is not terminal, no stop
  covers it, its scan has not ended and its deadline is ahead, and, for a class that needs one, the
  lease is held and its renewal succeeded.  A host that has lost its lease, or whose unit ended
  elsewhere, leaves units, effects and claims as it finds them.\<close>

theorem host_continues:
  "(case host_loop_decision x broken l lease i user db of
      Inr (Continue, db') \<Rightarrow>
        (case lock_unit db i user of
           None \<Rightarrow> False
         | Some u \<Rightarrow> \<not> is_terminal u \<and> stop_pending (ex_safety db) (unit_identity db u) = None
             \<and> (case scan_of_plan db (find_plan db (eu_plan u)) of
                  None \<Rightarrow> True | Some s \<Rightarrow> scan_ended (xs_state s) = None)
             \<and> (case plan_deadline_at db (find_plan db (eu_plan u)) legacy_max_duration of
                  Inr (Some d) \<Rightarrow> re_clock x 0 < d | Inr None \<Rightarrow> True | Inl _ \<Rightarrow> False)
             \<and> (if l then fahes_lock_live_lease i (ex_safety (re_env x 0 db))
                  \<and> renew_held broken (re_clock x 1) lease (ex_safety (re_env x 1 (re_env x 0 db)))
                      = (L_Renewed, ex_safety db')
                else True))
    | _ \<Rightarrow> True)
   \<and> (case finalize_for x2 deps act hard obs u db of
        Inr ((H_Finalized _ _, _), _) \<Rightarrow> act \<noteq> Stop_Terminal \<and> (\<forall>ack. act \<noteq> Abort_Lease_Lost ack)
      | Inr (_, db') \<Rightarrow>
          (act = Stop_Terminal \<and> db' = db)
          \<or> (\<exists>ack. act = Abort_Lease_Lost ack) \<and> db' = (re_env x2 0 db)\<lparr> ex_safety := ex_safety db' \<rparr>
      | Inl _ \<Rightarrow> True)"
proof (rule conjI)
  show "case host_loop_decision x broken l lease i user db of
      Inr (Continue, db') \<Rightarrow>
        (case lock_unit db i user of
           None \<Rightarrow> False
         | Some u \<Rightarrow> \<not> is_terminal u \<and> stop_pending (ex_safety db) (unit_identity db u) = None
             \<and> (case scan_of_plan db (find_plan db (eu_plan u)) of
                  None \<Rightarrow> True | Some s \<Rightarrow> scan_ended (xs_state s) = None)
             \<and> (case plan_deadline_at db (find_plan db (eu_plan u)) legacy_max_duration of
                  Inr (Some d) \<Rightarrow> re_clock x 0 < d | Inr None \<Rightarrow> True | Inl _ \<Rightarrow> False)
             \<and> (if l then fahes_lock_live_lease i (ex_safety (re_env x 0 db))
                  \<and> renew_held broken (re_clock x 1) lease (ex_safety (re_env x 1 (re_env x 0 db)))
                      = (L_Renewed, ex_safety db')
                else True))
    | _ \<Rightarrow> True"
  proof (cases "\<exists>db'. host_loop_decision x broken l lease i user db = Inr (Continue, db')")
    case True
    then obtain db' where run: "host_loop_decision x broken l lease i user db = Inr (Continue, db')" ..
    then obtain u where u: "lock_unit db i user = Some u"
      by (auto simp: host_loop_decision_def split: option.splits)
    obtain c where c: "classify_pre_run_cause (re_clock x 0) True 60000 u db = Inr c"
      using run u by (auto simp: host_loop_decision_def split: sum.splits)
    have go: "c = C_None \<or> c = C_Not_Started"
      "if l then fahes_lock_live_lease i (ex_safety (re_env x 0 db))
                  \<and> renew_held broken (re_clock x 1) lease (ex_safety (re_env x 1 (re_env x 0 db)))
                      = (L_Renewed, ex_safety db')
       else True"
      using run u c by (auto simp: host_loop_decision_def Let_def loop_action_continue
          split: pre_run_cause.splits if_splits prod.splits)
    from classify_running_none [OF c go(1)] go(2) show ?thesis
      unfolding run sum.case prod.case host_action.case u option.case by blast
  next
    case False
    then show ?thesis by (auto split: sum.split host_action.split prod.split)
  qed
next
  show "case finalize_for x2 deps act hard obs u db of
        Inr ((H_Finalized _ _, _), _) \<Rightarrow> act \<noteq> Stop_Terminal \<and> (\<forall>ack. act \<noteq> Abort_Lease_Lost ack)
      | Inr (_, db') \<Rightarrow>
          (act = Stop_Terminal \<and> db' = db)
          \<or> (\<exists>ack. act = Abort_Lease_Lost ack) \<and> db' = (re_env x2 0 db)\<lparr> ex_safety := ex_safety db' \<rparr>
      | Inl _ \<Rightarrow> True"
    by (cases act) (auto simp: finalize_for_def Let_def split: sum.split host_result.split prod.split)
qed

end
