(* ===== verification/Unit_Gates.thy ===== *)
theory Unit_Gates
  imports Unit_Outcomes
begin

text \<open>The properties of the sweeps over a plan: passive completion, the plan gate and expiry.\<close>

section \<open>Passive completion\<close>

text \<open>C26: A passive unit is completed outside a host only while it is planned, its scan runs before the
  plan's deadline, every unit it depends on is completed and its module has its final result; it is
  completed when the module is complete or degraded and refused otherwise, and no other status
  changes.  On a terminal unit the call only reports the status that stands.\<close>

theorem passive_completed:
  "case fahes_complete_passive_unit now i key db of
     Inl e \<Rightarrow> True
   | Inr ((st, replayed), db') \<Rightarrow>
       list_ex (\<lambda>u. eu_id u = i
         \<and> (if replayed then is_terminal u \<and> st = eu_status u \<and> db' = db
            else eu_status u = U_PLANNED \<and> (eu_class u = PASSIVE_HTTP \<or> eu_class u = SOURCE_STATIC)
              \<and> \<not> unmet_prerequisite db i
              \<and> (case find_plan db (eu_plan u) of
                   None \<Rightarrow> False
                 | Some p \<Rightarrow> passive_scan_running now db p
                     \<and> (case (pl_scan p, eu_domain u) of
                          (Some s, Some m) \<Rightarrow>
                            (case module_result db s m of
                               None \<Rightarrow> False
                             | Some r \<Rightarrow> module_terminal r
                                 \<and> st = (if r = M_COMPLETE \<or> r = M_DEGRADED then U_COMPLETED else U_REFUSED))
                        | _ \<Rightarrow> False))
              \<and> map (\<lambda>v. (eu_id v, eu_status v)) (ex_units db')
                  = map (\<lambda>v. (eu_id v, if eu_id v = i then st else eu_status v)) (ex_units db)))
         (ex_units db)"
proof (cases "fahes_complete_passive_unit now i key db")
  case (Inr a)
  obtain st replayed db' where a: "a = ((st, replayed), db')" by (metis prod.collapse)
  from Inr [unfolded a] show ?thesis
  proof (cases rule: complete_passiveE)
    case (replayed u)
    then show ?thesis unfolding Inr a by (auto simp: list_ex_iff)
  next
    case (completed u p s m r us)
    have rows: "map (\<lambda>v. (eu_id v, eu_status v)) us
        = map (\<lambda>v. (eu_id v, if eu_id v = i then st else eu_status v)) (ex_units db)"
      using completed(12,13) by (auto simp: update_unit_def update_rows_def passive_row_def split: if_splits)
    have st: "st = (if r = M_COMPLETE \<or> r = M_DEGRADED then U_COMPLETED else U_REFUSED)" "\<not> replayed"
      using completed(13) by (simp_all add: passive_target_def)
    show ?thesis
      unfolding Inr a sum.case prod.case list_ex_iff
      by (rule bexI [OF _ completed(1)]) (use completed rows st in simp)
  qed
qed simp

section \<open>The plan gate\<close>

definition gate_read ::
    "run_env \<Rightarrow> gate_deps \<Rightarrow> plan_row \<Rightarrow> exec_db \<Rightarrow> exec_error + exec_db" where
  "gate_read x deps p db =
     (case gd_complete deps of None \<Rightarrow> Inr (re_env x 0 db) | Some f \<Rightarrow> f (pl_id p) (re_env x 0 db))"

lemma gate_cases:
  assumes "continue_scan_if_plan_terminal x deps sid db = Inr ((g, queued), db')"
  shows "queued = (g = Continued) \<and> (g = Continued \<longrightarrow> (\<exists>p s db1 d db2. initial_plan db sid = Some p
    \<and> find_scan db sid = Some s \<and> xs_state s = RUNNING_PHASE_3 \<and> modules_ready deps db s
    \<and> gate_read x deps p db = Inr db1 \<and> list_all is_terminal (plan_units db1 (pl_id p))
    \<and> dp_deadline p = Some d
    \<and> gd_claim deps sid d (re_env x 1 (gd_finalizers deps (pl_id p) db1)) = (True, db')))"
proof (cases "initial_plan db sid")
  case None
  with assms show ?thesis by (auto simp: continue_scan_if_plan_terminal_def)
next
  case p: (Some p)
  show ?thesis
  proof (cases "find_scan db sid")
    case None
    with assms p show ?thesis by (auto simp: continue_scan_if_plan_terminal_def)
  next
    case s: (Some s)
    then have sid: "xs_id s = sid" by (auto simp: find_scan_def dest: find_row_SomeD)
    show ?thesis
    proof (cases "xs_state s = RUNNING_PHASE_3 \<and> modules_ready deps db s")
      case False
      with assms p s show ?thesis by (auto simp: continue_scan_if_plan_terminal_def split: if_splits)
    next
      case True
      obtain db1 where db1: "gate_read x deps p db = Inr db1" "gate_units x deps p s db1 = ((g, queued), db')"
        using assms p s True
        by (auto simp: continue_scan_if_plan_terminal_def gate_read_def split: option.splits sum.splits)
      have "queued = (g = Continued) \<and> (g = Continued \<longrightarrow> list_all is_terminal (plan_units db1 (pl_id p))
        \<and> (\<exists>d. dp_deadline p = Some d
          \<and> gd_claim deps sid d (re_env x 1 (gd_finalizers deps (pl_id p) db1)) = (True, db')))"
        using db1(2) sid
        by (auto simp: gate_units_def list_ex_iff list_all_iff split: if_splits option.splits prod.splits bool.splits)
      with p s True db1(1) show ?thesis by blast
    qed
  qed
qed

lemma claim_master_taken:
  assumes claim: "claim_master now sid d db = (True, db')" and ids: "distinct (map xs_id (ex_scans db'))"
  shows "list_ex (\<lambda>s. xs_id s = sid \<and> xs_state s = RUNNING_MASTER) (ex_scans db')"
    "\<not> fst (claim_master now2 sid d2 db')"
proof -
  let ?hit = "\<lambda>s. xs_id s = sid \<and> xs_state s = RUNNING_PHASE_3
     \<and> (case xs_started s of None \<Rightarrow> False | Some t \<Rightarrow> now < t + d)"
  have db': "ex_scans db' = map (\<lambda>s. if ?hit s then s\<lparr> xs_state := RUNNING_MASTER \<rparr> else s) (ex_scans db)"
    and "list_ex ?hit (ex_scans db)"
    using claim by (auto simp: claim_master_def Let_def split: if_splits)
  then obtain s where s: "s \<in> set (ex_scans db)" "?hit s" unfolding list_ex_iff by blast
  then have m: "s\<lparr> xs_state := RUNNING_MASTER \<rparr> \<in> set (ex_scans db')"
    unfolding db' by (auto simp: image_iff intro!: bexI [of _ s])
  then show "list_ex (\<lambda>s. xs_id s = sid \<and> xs_state s = RUNNING_MASTER) (ex_scans db')"
    using s(2) unfolding list_ex_iff by (intro bexI [OF _ m]) simp
  have "r = s\<lparr> xs_state := RUNNING_MASTER \<rparr>" if "r \<in> set (ex_scans db')" "xs_id r = sid" for r
  proof (rule inj_onD [OF _ _ that(1) m])
    show "inj_on xs_id (set (ex_scans db'))" using ids by (simp add: distinct_map)
    show "xs_id r = xs_id (s\<lparr> xs_state := RUNNING_MASTER \<rparr>)" using s(2) that(2) by simp
  qed
  then show "\<not> fst (claim_master now2 sid d2 db')"
    unfolding claim_master_iff list_ex_iff by fastforce
qed

text \<open>C13: The gate continues a scan, and enqueues its master job, only if the scan was in phase 3, every
  module it asked for outside the plan's own had its result, and every unit of its plan was read as
  terminal; the claim then moves the scan to the master phase before the deadline.  A second gate whose
  claim comes after does not continue, whatever it has read.\<close>

theorem gate_continues_once:
  assumes first: "continue_scan_if_plan_terminal x (deps\<lparr> gd_claim := claim_master now \<rparr>) sid db
      = Inr ((Continued, queued), db1)"
    and ids: "distinct (map xs_id (ex_scans db1))"
    and second: "continue_scan_if_plan_terminal x2 (deps2\<lparr> gd_claim := claim_master now2 \<rparr>) sid db2
      = Inr ((g, queued2), db3)"
    and after: "re_env x2 1 = (\<lambda>_. db1)"
  shows "queued \<and> (\<exists>p s db0. initial_plan db sid = Some p \<and> find_scan db sid = Some s
      \<and> xs_state s = RUNNING_PHASE_3 \<and> modules_ready deps db s
      \<and> gate_read x deps p db = Inr db0 \<and> list_all is_terminal (plan_units db0 (pl_id p)))
    \<and> list_ex (\<lambda>s. xs_id s = sid \<and> xs_state s = RUNNING_MASTER) (ex_scans db1)
    \<and> g \<noteq> Continued \<and> \<not> queued2"
proof -
  have same: "modules_ready (deps\<lparr> gd_claim := c \<rparr>) = modules_ready deps"
    "gate_read x (deps\<lparr> gd_claim := c \<rparr>) = gate_read x deps" for x c deps
    by (intro ext; simp add: modules_ready_def gate_read_def)+
  obtain p s db0 d where one: "queued" "initial_plan db sid = Some p" "find_scan db sid = Some s"
      "xs_state s = RUNNING_PHASE_3" "modules_ready deps db s" "gate_read x deps p db = Inr db0"
      "list_all is_terminal (plan_units db0 (pl_id p))"
      "claim_master now sid d (re_env x 1 (gd_finalizers deps (pl_id p) db0)) = (True, db1)"
    using gate_cases [OF first] by (auto simp: same)
  have "g \<noteq> Continued"
  proof
    assume "g = Continued"
    then obtain d2 where "claim_master now2 sid d2 db1 = (True, db3)"
      using gate_cases [OF second] after by (auto simp del: One_nat_def)
    with claim_master_taken(2) [OF one(8) ids, of now2 d2] show False by simp
  qed
  moreover from this have "\<not> queued2" using gate_cases [OF second] by simp
  ultimately show ?thesis
    by (intro conjI exI [of _ p] exI [of _ s] exI [of _ db0] one claim_master_taken(1) [OF one(8) ids])
qed

definition sample_ended :: exec_db where
  "sample_ended = fst (exec_run sample_text sample_end sample_running)"

definition sample_gate :: gate_deps where
  "sample_gate = \<lparr> gd_owned = [], gd_finalizers = (\<lambda>_ db. db), gd_claim = claim_master 9, gd_complete = None \<rparr>"

definition quiet_env :: "millis \<Rightarrow> run_env" where
  "quiet_env now = \<lparr> re_clock = (\<lambda>_. now), re_env = (\<lambda>_ db. db) \<rparr>"

definition sample_continued :: "exec_error + (gate_result \<times> bool) \<times> exec_db" where
  "sample_continued =
     continue_scan_if_plan_terminal (quiet_env 9) (sample_gate\<lparr> gd_claim := claim_master 9 \<rparr>) ''s1'' sample_ended"

definition late_env :: run_env where
  "late_env = (quiet_env 9)\<lparr> re_env := (\<lambda>k. if k = 1 then (\<lambda>_. snd (projr sample_continued)) else id) \<rparr>"

definition sample_second :: "exec_error + (gate_result \<times> bool) \<times> exec_db" where
  "sample_second =
     continue_scan_if_plan_terminal late_env (sample_gate\<lparr> gd_claim := claim_master 9 \<rparr>) ''s1'' sample_ended"

theorem gate_continues_once_witness:
  "fst (projr sample_continued) = (Continued, True) \<and> fst (fst (projr sample_second)) \<noteq> Continued"
proof -
  have a: "\<not> isl sample_continued" "fst (projr sample_continued) = (Continued, True)"
    "\<not> isl sample_second" "distinct (map xs_id (ex_scans (snd (projr sample_continued))))"
    by code_simp+
  have first: "continue_scan_if_plan_terminal (quiet_env 9) (sample_gate\<lparr> gd_claim := claim_master 9 \<rparr>) ''s1'' sample_ended
      = Inr ((Continued, True), snd (projr sample_continued))"
    using a(1,2) unfolding sample_continued_def by (metis prod.collapse sum.collapse(2))
  have second: "continue_scan_if_plan_terminal late_env (sample_gate\<lparr> gd_claim := claim_master 9 \<rparr>) ''s1'' sample_ended
      = Inr ((fst (fst (projr sample_second)), snd (fst (projr sample_second))), snd (projr sample_second))"
    using a(3) unfolding sample_second_def by (metis prod.collapse sum.collapse(2))
  have "re_env late_env 1 = (\<lambda>_. snd (projr sample_continued))" by (simp add: late_env_def)
  from gate_continues_once [OF first a(4) second this] a(2) show ?thesis by blast
qed

section \<open>Expiry\<close>

text \<open>C11: Once a plan's deadline and every unit's termination margin have passed, one quiet pass over the plan
  ends without an error and leaves every unit of the plan terminal, none pending and none untouched, and
  the tables consistent; every unit got there along the transition table.\<close>

theorem plan_expires:
  assumes "exec_ok db" and "find_plan db p = Some plan"
    and "validate_execution_graph (map (\<lambda>u. \<lparr> gu_id = eu_id u, gu_class = eu_class u \<rparr>) (plan_units db p))
      (plan_edges db p) = Some (Inr ())"
    and "plan_deadline_at db (Some plan) (eo_legacy opts) = Inr (Some d)"
    and "\<And>k. re_env x k = (\<lambda>db. db)"
    and "\<And>k u. 0 \<le> eo_margin opts u \<and> d + eo_margin opts u \<le> re_clock x k"
  shows "\<exists>s db'. expire_plan_units opts x p db = Inr (s, db') \<and> exec_ok db' \<and> advances db db'
    \<and> es_pending s = [] \<and> es_untouched s = [] \<and> list_all is_terminal (plan_units db' p)"
  by (rule expire_plan_late [OF assms])

definition sample_options :: expire_options where
  "sample_options = \<lparr> eo_on_expired = None, eo_margin = (\<lambda>_. 60000), eo_legacy = legacy_max_duration \<rparr>"

theorem plan_expires_witness:
  "\<exists>s db'. expire_plan_units sample_options (quiet_env 160000) ''p1'' (fst sample_running) = Inr (s, db')
    \<and> exec_ok db' \<and> advances (fst sample_running) db' \<and> es_pending s = [] \<and> es_untouched s = []
    \<and> list_all is_terminal (plan_units db' ''p1'')"
proof (rule plan_expires [OF sample_running_ok])
  let ?plan = "the (find_plan (fst sample_running) ''p1'')"
  show "find_plan (fst sample_running) ''p1'' = Some ?plan"
    by (rule option.collapse [symmetric]) code_simp
  show "validate_execution_graph (map (\<lambda>u. \<lparr> gu_id = eu_id u, gu_class = eu_class u \<rparr>)
      (plan_units (fst sample_running) ''p1'')) (plan_edges (fst sample_running) ''p1'') = Some (Inr ())"
    by code_simp
  show "plan_deadline_at (fst sample_running) (Some ?plan) (eo_legacy sample_options) = Inr (Some 100000)"
    by code_simp
qed (simp_all add: quiet_env_def sample_options_def)

end
