(* ===== verification/Job_Theorems.thy ===== *)
theory Job_Theorems
  imports Unit_Child Unit_Gates
begin

text \<open>The properties of the adapter registry, the end of a run and the channel to the child.\<close>

section \<open>The registry\<close>

definition adapter_fit :: "(string \<Rightarrow> child_url option) \<Rightarrow> (child_url \<Rightarrow> string) \<Rightarrow> execution_adapter \<Rightarrow> bool" where
  "adapter_fit url_of rel a =
     ((case url_of (ea_module a) of
         None \<Rightarrow> False
       | Some u \<Rightarrow> cu_protocol u = ''file:'' \<and> cu_host u = [] \<and> \<not> outside_workspace (rel u))
      \<and> exec_queue_name (ea_class a) \<noteq> None \<and> \<not> is_passive_class (ea_class a) \<and> ea_on_expired a \<noteq> None
      \<and> (case ea_margin a of None \<Rightarrow> True | Some m \<Rightarrow> 0 < m))"

lemma exec_queue_passive: "exec_queue_name c \<noteq> None \<longleftrightarrow> \<not> is_passive_class c"
  by (cases c) (simp_all add: exec_queue_name_def is_passive_class_def passive_classes_def)

lemma queued_exec:
  "(case queue_name_for_unit_class c of None \<Rightarrow> False | Some q \<Rightarrow> q \<in> set exec_queue_names)
    \<longleftrightarrow> exec_queue_name c \<noteq> None"
  by (cases c) (simp_all add: queue_name_for_unit_class_def exec_queue_name_def exec_queue_names_def
      scan_phase_queue_def)

lemma check_adapter_fit: "check_adapter url_of rel a = None \<Longrightarrow> adapter_fit url_of rel a"
  using queued_exec [of "ea_class a"] exec_queue_passive [of "ea_class a"]
  by (auto simp: check_adapter_def adapter_fit_def split: option.splits if_splits)

lemma register_adapters_result:
  "register_adapters url_of rel reg as = Inr reg' \<Longrightarrow> distinct (map ea_engine reg) \<Longrightarrow>
     reg' = reg @ as \<and> distinct (map ea_engine reg') \<and> list_all (adapter_fit url_of rel) as"
proof (induction as arbitrary: reg)
  case (Cons a as)
  have new: "\<not> list_ex (\<lambda>b. ea_engine b = ea_engine a) reg" "check_adapter url_of rel a = None"
    "register_adapters url_of rel (reg @ [a]) as = Inr reg'"
    using Cons.prems(1) by (auto split: if_splits option.splits)
  with Cons.prems(2) have "distinct (map ea_engine (reg @ [a]))" by (auto simp: list_ex_iff)
  from Cons.IH [OF new(3) this] have rest: "reg' = (reg @ [a]) @ as" "distinct (map ea_engine reg')"
    "list_all (adapter_fit url_of rel) as" by blast+
  moreover have "list_all (adapter_fit url_of rel) (a # as)"
    using rest(3) check_adapter_fit [OF new(2)] by simp
  ultimately show ?case by simp
qed simp

text \<open>A registry is built only from adapters with different engines, each with a local module inside the
  workspace, a class that has its own execution queue, a way to confirm that an expired unit is gone and a
  positive hard-stop margin if it sets one; and looking an engine up finds exactly its adapter.\<close>

lemma registry_fit:
  "case create_adapter_registry url_of rel as of
     Inl _ \<Rightarrow> True
   | Inr reg \<Rightarrow> reg = as \<and> distinct (map ea_engine reg) \<and> list_all (adapter_fit url_of rel) reg
       \<and> list_all (\<lambda>a. find_adapter reg (ea_engine a) = Some a) reg"
proof (cases "create_adapter_registry url_of rel as")
  case (Inr reg)
  then have "register_adapters url_of rel [] as = Inr reg" by (simp add: create_adapter_registry_def)
  from register_adapters_result [OF this] have reg: "reg = as" "distinct (map ea_engine reg)"
    "list_all (adapter_fit url_of rel) reg" by auto
  have "find_adapter reg (ea_engine a) = Some a" if "a \<in> set reg" for a
    using that reg(2) unfolding find_adapter_def by (induction reg) auto
  with Inr reg show ?thesis by (simp add: list_all_iff)
qed simp

section \<open>The end of a run\<close>

lemma run_outcome_completed:
  "run_outcome stop act hard obs = Out_Completed \<Longrightarrow>
     \<not> hard \<and> classify_failure obs = None \<and> (act = Continue \<or> act = Stop_Terminal \<or> (\<exists>b. act = Abort_Lease_Lost b))"
  by (auto simp: run_outcome_def killed_outcome_def split: host_action.splits stop_cause.splits
      dispatch_refusal.splits if_splits option.splits stop_reason.splits)

lemma outcome_kind_completed: "outcome_kind out = Fin_Completed \<longleftrightarrow> out = Out_Completed"
  by (cases out) simp_all

lemma finalize_completed:
  assumes "fahes_finalize_unit now i key k fc reason progress db = Inr (r, db')"
    and "fr_status r = U_COMPLETED" and "\<not> fr_replayed r"
  shows "k = Fin_Completed"
  using assms by (auto simp: fahes_finalize_unit_def split: if_splits option.splits sum.splits prod.splits)

lemma finalize_for_completed:
  assumes "finalize_for x deps act hard obs u db = Inr ((H_Finalized U_COMPLETED False, q), db')"
  shows "act = Continue \<and> \<not> hard \<and> classify_failure obs = None"
proof -
  let ?db0 = "re_env x 0 db"
  let ?stop = "case lock_unit ?db0 (eu_id u) (eu_user u) of
      None \<Rightarrow> None | Some r \<Rightarrow> find_pending_stop_reason ?db0 r"
  let ?out = "run_outcome ?stop act hard obs"
  have act: "act \<noteq> Stop_Terminal" "\<And>b. act \<noteq> Abort_Lease_Lost b"
    using assms by (auto simp: finalize_for_def Let_def)
  then obtain r g db1 where "finalize_unit_and_continue x (re_clock x 1) deps (eu_id u) (eu_key u) ?out (re_env x 1 ?db0)
      = Inr ((r, g), db1)" and r: "fr_status r = U_COMPLETED" "\<not> fr_replayed r"
    using assms by (cases act) (auto simp: finalize_for_def Let_def split: sum.splits prod.splits)
  then obtain db2 where "finalize_execution_unit (re_clock x 1) (eu_id u) (eu_key u) ?out (re_env x 1 ?db0) = Inr (r, db2)"
    by (auto simp: finalize_unit_and_continue_def Let_def split: sum.splits prod.splits option.splits)
  then have "outcome_kind ?out = Fin_Completed"
    unfolding finalize_execution_unit_def by (rule finalize_completed [OF _ r])
  then have "?out = Out_Completed" by (simp only: outcome_kind_completed)
  from run_outcome_completed [OF this] act show ?thesis by auto
qed

lemma classify_completed: "classify_failure obs = None \<longleftrightarrow> obs = ENGINE_RESULT \<or> obs = CUSTOMER_CODE_EXIT 0"
  by (cases obs) simp_all

text \<open>C14: The end of a run completes the unit only when the child is confirmed gone, the hard stop had not
  fired, the child's own result arrived as an engine result or a zero exit, and the last decision was to
  go on.  A child that cannot be confirmed gone leaves everything to the sweep.\<close>

theorem completed_only_by_result:
  "(case end_run x x2 deps broken l lease decided hard cp e gone u db of
      Inr ((H_Finalized U_COMPLETED False, _), _) \<Rightarrow>
        gone \<and> \<not> hard
        \<and> (case e of Run_Finished obs \<Rightarrow> obs = ENGINE_RESULT \<or> obs = CUSTOMER_CODE_EXIT 0 | _ \<Rightarrow> False)
        \<and> (case decided of
             Some act \<Rightarrow> act = Continue
           | None \<Rightarrow> (case host_loop_decision x broken l lease (eu_id u) (eu_user u) db of
                Inr (Continue, _) \<Rightarrow> True | _ \<Rightarrow> False))
    | _ \<Rightarrow> True)
   \<and> end_run x x2 deps broken l lease decided hard cp e False u db = Inr ((H_Termination_Unconfirmed, []), db)"
proof (rule conjI)
  let ?r = "end_run x x2 deps broken l lease decided hard cp e gone u db"
  show "case ?r of
      Inr ((H_Finalized U_COMPLETED False, _), _) \<Rightarrow>
        gone \<and> \<not> hard
        \<and> (case e of Run_Finished obs \<Rightarrow> obs = ENGINE_RESULT \<or> obs = CUSTOMER_CODE_EXIT 0 | _ \<Rightarrow> False)
        \<and> (case decided of
             Some act \<Rightarrow> act = Continue
           | None \<Rightarrow> (case host_loop_decision x broken l lease (eu_id u) (eu_user u) db of
                Inr (Continue, _) \<Rightarrow> True | _ \<Rightarrow> False))
    | _ \<Rightarrow> True"
  proof (cases "\<exists>q db'. ?r = Inr ((H_Finalized U_COMPLETED False, q), db')")
    case True
    then obtain q db' where run: "?r = Inr ((H_Finalized U_COMPLETED False, q), db')" by blast
    then have gone by (auto simp: end_run_def split: if_splits)
    have e: "\<exists>obs. e = Run_Finished obs \<and> classify_failure obs = None"
      if "classify_failure (end_observation cp hard d e) = None" for d
      using that by (cases e) (auto simp: end_observation_def split: if_splits)
    have "\<not> hard \<and> (\<exists>obs. e = Run_Finished obs \<and> classify_failure obs = None)
      \<and> (case decided of
             Some act \<Rightarrow> act = Continue
           | None \<Rightarrow> (case host_loop_decision x broken l lease (eu_id u) (eu_user u) db of
                Inr (Continue, _) \<Rightarrow> True | _ \<Rightarrow> False))"
    proof (cases decided)
      case None
      then obtain act db1 where d: "host_loop_decision x broken l lease (eu_id u) (eu_user u) db = Inr (act, db1)"
        "finalize_for x2 deps act hard (end_observation cp hard False e) u db1 = Inr ((H_Finalized U_COMPLETED False, q), db')"
        using run \<open>gone\<close> by (auto simp: end_run_def Let_def split: sum.splits prod.splits)
      from finalize_for_completed [OF d(2)] e d(1) None show ?thesis by auto
    next
      case (Some act)
      then have "finalize_for x2 deps act hard (end_observation cp hard True e) u db
          = Inr ((H_Finalized U_COMPLETED False, q), db')"
        using run \<open>gone\<close> by (simp add: end_run_def Let_def)
      from finalize_for_completed [OF this] e Some show ?thesis by auto
    qed
    with run \<open>gone\<close> show ?thesis by (auto simp: classify_completed)
  next
    case False
    then show ?thesis by (auto split: sum.split prod.split host_result.split execution_unit_status.split bool.split)
  qed
  show "end_run x x2 deps broken l lease decided hard cp e False u db = Inr ((H_Termination_Unconfirmed, []), db)"
    by (simp add: end_run_def)
qed

section \<open>The child's messages\<close>

text \<open>C25: Whatever an execution child sends, and however it exits, its run settles at most once, every call it
  makes on the host carries a bounded non-empty kind and a non-negative safe integer where it names an
  effect, and the run ends as completed only by one of the nine known observations.\<close>

theorem child_protocol:
  "length (filter settles (run_child h ins)) \<le> 1
   \<and> list_all (\<lambda>e. case e of
        Ev_Call n (Rpc_Authorize s i) \<Rightarrow> s \<noteq> [] \<and> length s \<le> 128 \<and> 0 \<le> i \<and> i \<le> max_safe_integer
      | Ev_Call n (Rpc_Confirm s i) \<Rightarrow> s \<noteq> [] \<and> length s \<le> 128 \<and> 0 \<le> i \<and> i \<le> max_safe_integer
      | Ev_Call n (Rpc_Evidence s _ _) \<Rightarrow> s \<noteq> []
      | _ \<Rightarrow> True) (run_child h ins)
   \<and> (case run_end_of (run_child h ins) of
        Run_Finished obs \<Rightarrow> obs \<in> snd ` set plain_sources \<or> (\<exists>n. obs = CUSTOMER_CODE_EXIT n)
      | _ \<Rightarrow> True)"
proof (intro conjI)
  show "length (filter settles (run_child h ins)) \<le> 1" by (rule run_child_settles_once)
  show "list_all (\<lambda>e. case e of
        Ev_Call n (Rpc_Authorize s i) \<Rightarrow> s \<noteq> [] \<and> length s \<le> 128 \<and> 0 \<le> i \<and> i \<le> max_safe_integer
      | Ev_Call n (Rpc_Confirm s i) \<Rightarrow> s \<noteq> [] \<and> length s \<le> 128 \<and> 0 \<le> i \<and> i \<le> max_safe_integer
      | Ev_Call n (Rpc_Evidence s _ _) \<Rightarrow> s \<noteq> []
      | _ \<Rightarrow> True) (run_child h ins)"
    unfolding list_all_iff
  proof
    fix e assume "e \<in> set (run_child h ins)"
    with run_child_calls [of h ins] have "case e of Ev_Call n c \<Rightarrow> (\<exists>v. rpc_request v = Some (n, c)) | _ \<Rightarrow> True"
      by (auto split: child_event.splits)
    then show "case e of
        Ev_Call n (Rpc_Authorize s i) \<Rightarrow> s \<noteq> [] \<and> length s \<le> 128 \<and> 0 \<le> i \<and> i \<le> max_safe_integer
      | Ev_Call n (Rpc_Confirm s i) \<Rightarrow> s \<noteq> [] \<and> length s \<le> 128 \<and> 0 \<le> i \<and> i \<le> max_safe_integer
      | Ev_Call n (Rpc_Evidence s _ _) \<Rightarrow> s \<noteq> []
      | _ \<Rightarrow> True"
      by (auto dest!: rpc_request_bounds split: child_event.splits rpc_call.splits)
  qed
  show "case run_end_of (run_child h ins) of
        Run_Finished obs \<Rightarrow> obs \<in> snd ` set plain_sources \<or> (\<exists>n. obs = CUSTOMER_CODE_EXIT n)
      | _ \<Rightarrow> True"
  proof (cases "run_end_of (run_child h ins)")
    case (Run_Finished obs)
    then obtain u where "List.find settles (run_child h ins) = Some (Ev_Resolve obs u)"
      by (auto simp: run_end_of_def split: option.splits child_event.splits)
    then have "Ev_Resolve obs u \<in> set (run_child h ins)" by (auto simp: find_Some_iff)
    with run_child_calls [of h ins] obtain v where "parse_observation v = Some obs" by fastforce
    then have "obs \<in> snd ` set plain_sources \<or> (\<exists>n. obs = CUSTOMER_CODE_EXIT n)"
      by (force simp: parse_observation_def split: if_splits option.splits dest: map_of_SomeD)
    with Run_Finished show ?thesis by simp
  qed simp_all
qed

end
