(* ===== verification/Spec2Isabelle.thy ===== *)
theory Spec2Isabelle
  imports Measure_Theorems Credit_Theorems Scan_Theorems Fix_Theorems Plan_Theorems Scope_Theorems Grant_Theorems
    Job_Theorems
begin

text \<open>
  A model of the audit service's core: what an audit costs and how its findings become a score,
  the credit ledger, the life of a scan from its queue to its settlement, the fix loop with its
  readiness pass, and the planning of execution units.  The program is a TypeScript monorepo:
  \<^verbatim>\<open>packages/\<close> holds pure shared code, \<^verbatim>\<open>apps/api\<close> the HTTP service over PostgreSQL and
  \<^verbatim>\<open>apps/worker\<close> the orchestrator that runs scans from queues.

  \<^bold>\<open>How the code is modelled.\<close>  A table is the list of its rows, a row a \<open>record\<close>, an enumeration
  a \<open>datatype\<close> with the source's members.  A transaction is a function from the database to
  \<open>error + result \<times> database\<close> (or to a pair, where it cannot fail): a thrown error or an early
  return is a branch, and a transaction that throws leaves the database as it was.  What other
  writers do between two transactions is either a second state argument (the stale read of a
  refund, the batch row of the timeout sweep) or a step relation that interleaves whole
  transactions in any order (the questionnaire race, the fix loop, the runs of the ledger).
  Numbers are JavaScript numbers used as integers, so \<open>int\<close>; times are milliseconds.  The digest
  SHA-256, the queues' acceptance of a job, the clock and fresh row ids are parameters.

  \<^bold>\<open>Theories, bottom up.\<close>

  \<^item> \<open>Prelude\<close>: JavaScript maps and sets, rows of a table, sums, results.
  \<open>Domain\<close>: the enumerations and transition tables of \<^verbatim>\<open>packages/types/src/domain.ts\<close>.
  \<^item> \<open>Pricing\<close>, \<open>Scoring\<close>, \<open>Fingerprint\<close>: \<^verbatim>\<open>packages/config\<close> (prices, tiers, the refund formula)
  and \<^verbatim>\<open>packages/scoring\<close>; their properties are in \<open>Measure_Theorems\<close>.
  \<^item> \<open>Ledger\<close>, \<open>Debit\<close>, \<open>Refund\<close>, \<open>Expiry\<close>, \<open>Retry\<close>: the services of
  \<^verbatim>\<open>apps/api/src/services/credits\<close> and \<^verbatim>\<open>db/retry.ts\<close> over a ledger of lots, transactions and
  allocations.  \<open>Ledger_Inv\<close> states the bookkeeping invariant and the closed form of a batch of lot
  updates; \<open>Refund_Inv\<close> and \<open>Refund_Ok\<close> that refunds keep it and return exactly what was asked.
  \<open>Ledger_System\<close> has the locales \<open>ledger_operation\<close> and \<open>permanent_operation\<close> (what every operation
  promises), their interpretation on each operation, and the runs of the service;
  \<open>Credit_Theorems\<close> the properties.
  \<^item> \<open>Guarded\<close>: the locale \<open>guarded_store\<close>, the contract of an optimistic guarded write.
  \<open>Scan_Machine\<close> (\<^verbatim>\<open>orchestrator/state-machine.ts\<close>), \<open>Scan_Settlement\<close> (\<^verbatim>\<open>terminal-refund.ts\<close>,
  \<^verbatim>\<open>timeout.ts\<close>) with \<open>Scan_Settlement_Props\<close>, \<open>Scan_Phases\<close> (\<^verbatim>\<open>orchestrator.ts\<close>, \<^verbatim>\<open>phases.ts\<close>, the
  questionnaire service) and \<open>Scan_Race\<close> (the step relation of the questionnaire race).  The scan
  table interprets \<open>guarded_store\<close> in \<open>Scan_Theorems\<close>, which has the properties.
  \<^item> \<open>Issue_Loop\<close>, \<open>Issue_Props\<close>: asserting a fix, re-checking it and the races between them
  (\<^verbatim>\<open>services/issues\<close>, \<^verbatim>\<open>issues.routes.ts\<close>).  \<open>Readiness\<close>: \<^verbatim>\<open>apps/worker/src/readiness\<close>.
  \<open>Fix_Theorems\<close> has the properties of both.
  \<^item> \<open>Plan_Graph\<close> (\<^verbatim>\<open>planning/graph.ts\<close>) with \<open>Plan_Search\<close> (the cycle search is right and ends),
  \<open>Plan_Props\<close> (topological order) and \<open>Plan_Block\<close> (blocking closure); \<open>Plan_Deadline\<close>
  (\<^verbatim>\<open>planning/plan-deadline.ts\<close>) with \<open>Plan_Deadline_Props\<close>; \<open>Plan_Theorems\<close> has the properties.

  \<^bold>\<open>Fuel.\<close>  The loops whose recursion is not structural carry fuel, and each has a lemma that its
  fuel suffices: the cycle search gets one step per unit and per edge, Kahn's loop one per unit,
  the blocking closure one per edge and one more, the retry loop its five attempts.

  \<^bold>\<open>Not modelled.\<close>  HTTP routing, validation of request bodies and rendering; the web front end; the
  queue and realtime transports (a job is an argument, its acceptance a parameter); the audit
  capabilities and model providers (their results are arguments); payment providers, mail, object
  storage, password hashing and sessions; process isolation and outbound probes.
\<close>

end
